theory Spec2Isabelle
  imports Main "HOL-Library.Word" "HOL-Library.Signed_Division"
begin

section \<open>Array-expression lowering: common notions\<close>

text \<open>
  The lowering functions of \<^verbatim>\<open>flang/lib/Lower/ConvertExpr.cpp\<close> run at compile time and
  emit FIR operations. An SSA value is modelled by the term that defines it: two values are
  the same SSA value exactly when the terms are equal, which is what the C++ comparison
  \<^verbatim>\<open>a != b\<close> on \<^verbatim>\<open>mlir::Value\<close> tests. Values defined outside the modelled
  functions (block arguments, loop induction variables, results of earlier operations) are
  \<open>Val n\<close>. Helpers of the builder that are not part of the modelled file
  (\<^verbatim>\<open>genExtentFromTriplet\<close>, \<^verbatim>\<open>readExtent\<close>, \<^verbatim>\<open>readLowerBound\<close>) stay
  uninterpreted constructors.

  Every \<^verbatim>\<open>fir::emitFatalError\<close>, \<^verbatim>\<open>TODO\<close> and failed \<^verbatim>\<open>assert\<close> is a value of
  type \<open>error\<close>; a lowering function that can abort returns \<open>error + 'a\<close>. Where a
  function is modelled for a part of its inputs only, the other inputs give
  \<open>OutsideModel\<close>, so that nothing is proved about them.
\<close>

datatype error =
    FatalError string
  | NotYetImplemented string
  | AssertionFailure string
  | OutsideModel string

datatype CmpIPredicate = eq | sgt | sle

datatype val =
    Val nat
  | ConstI int
  | UndefOp
  | AddI val val
  | SubI val val
  | MulI val val
  | CmpI CmpIPredicate val val
  | AndI val val
  | SelectOp val val val
  | ConvertOp val
  | ArrayLoadResult nat
  | ArrayFetchOp val "val list"
  | ArrayUpdateOp val val "val list"
  | InductionVar nat
  | RegionIterArg nat
  | DoLoopResult nat
  | IfResult nat
  | LoadOp val
  | ArrayCoorOp val "val list"
  | MaskTemp nat
  | RaggedBuffer nat nat
  | RaggedData nat
  | ArrayTemp nat
  | EmboxOp val
  | ArrayModifyOp val "val list"
  | TemporaryHolding val
  | CrayPointerAddr val
  | ExtentFromTriplet val val val
  | ReadExtent val nat
  | ReadLowerBound val nat
  | IsContiguous val
  | BoxAddrOp val
  | NullConstant

datatype shape_val =
    ShapeOp "val list"
  | ShapeShiftOp "(val \<times> val) list"
  | ShiftOp "val list"

subsection \<open>Run-time meaning of the emitted values\<close>

text \<open>
  The type \<^verbatim>\<open>index\<close> is a 64-bit integer: arithmetic wraps, \<^verbatim>\<open>sgt\<close> and
  \<^verbatim>\<open>sle\<close> compare the signed readings, a comparison yields 1 or 0, and
  \<^verbatim>\<open>arith.select\<close> takes its first alternative when the condition is not 0. Array
  elements are taken to be integers of the same width.

  Modelled from the spec: the FIR operations on array values are defined by the FIR dialect,
  which is not among the sources. By the specification (Destination/Merge Manager) a loaded
  array is a value: \<^verbatim>\<open>fir.array_load\<close> takes the contents of the array as they are in
  memory at the load, each element update produces a new value and never changes memory,
  and the merge after the loop is the single visible write. An array value is modelled by
  the contents of the whole array (a function from zero-based offset vectors to elements)
  together with the view of the load, which maps an index vector of the iteration space to
  the offset vector of the element it designates (the identity when the load has no slice).
  \<^verbatim>\<open>fir.array_fetch\<close> reads the contents through the view, \<^verbatim>\<open>fir.array_update\<close>
  yields the contents changed at one element, the operand being left as it was. The
  environment gives the run-time value of everything defined outside the modelled code.
\<close>

type_synonym index = "64 word"
type_synonym array_value = "(index list \<Rightarrow> index) \<times> (index list \<Rightarrow> index list)"

record env =
  scalarOf :: "val \<Rightarrow> index"
  arrayOf :: "val \<Rightarrow> array_value"

fun evalVal :: "env \<Rightarrow> val \<Rightarrow> index"
  and evalArr :: "env \<Rightarrow> val \<Rightarrow> array_value" where
  "evalVal \<rho> (ConstI i) = word_of_int i"
| "evalVal \<rho> (AddI a b) = evalVal \<rho> a + evalVal \<rho> b"
| "evalVal \<rho> (SubI a b) = evalVal \<rho> a - evalVal \<rho> b"
| "evalVal \<rho> (MulI a b) = evalVal \<rho> a * evalVal \<rho> b"
| "evalVal \<rho> (CmpI eq a b) = of_bool (evalVal \<rho> a = evalVal \<rho> b)"
| "evalVal \<rho> (CmpI sgt a b) = of_bool (sint (evalVal \<rho> b) < sint (evalVal \<rho> a))"
| "evalVal \<rho> (CmpI sle a b) = of_bool (sint (evalVal \<rho> a) \<le> sint (evalVal \<rho> b))"
| "evalVal \<rho> (AndI a b) = and (evalVal \<rho> a) (evalVal \<rho> b)"
| "evalVal \<rho> (SelectOp c a b) = (if evalVal \<rho> c \<noteq> 0 then evalVal \<rho> a else evalVal \<rho> b)"
| "evalVal \<rho> (ConvertOp a) = evalVal \<rho> a"
| "evalVal \<rho> (ArrayFetchOp arr idxs) =
     (case evalArr \<rho> arr of (contents, view) \<Rightarrow> contents (view (map (evalVal \<rho>) idxs)))"
| "evalVal \<rho> v = scalarOf \<rho> v"
| "evalArr \<rho> (ArrayUpdateOp arr ele idxs) =
     (case evalArr \<rho> arr of (contents, view) \<Rightarrow>
        (contents(view (map (evalVal \<rho>) idxs) := evalVal \<rho> ele), view))"
| "evalArr \<rho> arr = arrayOf \<rho> arr"

section \<open>Shape of the iteration space\<close>

text \<open>
  \<^verbatim>\<open>struct ArrayOperand\<close>. The slice, when present, is the operand list of the
  \<^verbatim>\<open>fir.slice\<close> operation (\<^verbatim>\<open>getTriples\<close>). The type of \<open>memref\<close> matters in one test
  only (is it a \<^verbatim>\<open>fir.box\<close>, and of which rank), which the two fields
  \<open>memrefIsBox\<close> and \<open>memrefRank\<close> record.
\<close>

record ArrayOperand =
  memref :: val
  memrefIsBox :: bool
  memrefRank :: nat
  shape :: "shape_val option"
  slice :: "val list option"
  mayBeAbsent :: bool

text \<open>\<^verbatim>\<open>computeSliceShape\<close>: the loop \<^verbatim>\<open>for (i = 0; i < end; i += 3)\<close> over the triples. A
  triple whose second component is defined by \<^verbatim>\<open>fir.undefined\<close> is a scalar subscript and
  contributes no extent. The source reads \<^verbatim>\<open>triples[i + 1]\<close> and \<^verbatim>\<open>triples[i + 2]\<close>
  without a bound check; a trailing incomplete triple cannot be built by \<^verbatim>\<open>fir.slice\<close>
  and ends the loop here.\<close>

fun computeSliceShape :: "val list \<Rightarrow> val list" where
  "computeSliceShape (lb # ub # step # triples) =
     (if ub \<noteq> UndefOp then ExtentFromTriplet lb ub step # computeSliceShape triples
      else computeSliceShape triples)"
| "computeSliceShape _ = []"

text \<open>\<^verbatim>\<open>fir::factory::getExtents(mlir::Value shapeVal)\<close>: the extents carried by the
  operation that defines the shape; none for a \<^verbatim>\<open>fir.shift\<close> or a missing shape.\<close>

fun getExtents :: "shape_val option \<Rightarrow> val list" where
  "getExtents (Some (ShapeOp exts)) = exts"
| "getExtents (Some (ShapeShiftOp pairs)) = map snd pairs"
| "getExtents (Some (ShiftOp _)) = []"
| "getExtents None = []"

text \<open>\<^verbatim>\<open>fir::factory::readExtents\<close> on a box: one \<^verbatim>\<open>fir.box_dims\<close> per dimension.\<close>

definition readExtents :: "val \<Rightarrow> nat \<Rightarrow> val list" where
  "readExtents box rank = map (ReadExtent box) [0..<rank]"

definition getShape :: "ArrayOperand \<Rightarrow> val list" where
  "getShape array =
     (case slice array of
        Some triples \<Rightarrow> computeSliceShape triples
      | None \<Rightarrow>
          if memrefIsBox array then readExtents (memref array) (memrefRank array)
          else getExtents (shape array))"

text \<open>\<^verbatim>\<open>getShape(fir::ArrayLoadOp)\<close>: the operand rebuilt from the load's memref, shape and
  slice; \<open>mayBeAbsent\<close> takes its default, \<open>false\<close>.\<close>

record array_load =
  ldResult :: val
  ldMemref :: val
  ldMemrefIsBox :: bool
  ldMemrefRank :: nat
  ldShape :: "shape_val option"
  ldSlice :: "val list option"

definition getShapeOfLoad :: "array_load \<Rightarrow> val list" where
  "getShapeOfLoad arrayLoad =
     getShape \<lparr> memref = ldMemref arrayLoad, memrefIsBox = ldMemrefIsBox arrayLoad,
                memrefRank = ldMemrefRank arrayLoad, shape = ldShape arrayLoad,
                slice = ldSlice arrayLoad, mayBeAbsent = False \<rparr>"

text \<open>\<^verbatim>\<open>getInducingShapeArrayOperand\<close>: the \<^verbatim>\<open>for\<close> loop returns at the first operand
  that may not be absent; when it runs to the end, \<^verbatim>\<open>arrayOperands[0]\<close> is returned. The
  leading \<^verbatim>\<open>assert(!arrayOperands.empty())\<close> is the error branch.\<close>

fun firstThatMayNotBeAbsent :: "ArrayOperand list \<Rightarrow> ArrayOperand option" where
  "firstThatMayNotBeAbsent [] = None"
| "firstThatMayNotBeAbsent (op # ops) =
     (if \<not> mayBeAbsent op then Some op else firstThatMayNotBeAbsent ops)"

definition getInducingShapeArrayOperand :: "ArrayOperand list \<Rightarrow> error + ArrayOperand" where
  "getInducingShapeArrayOperand arrayOperands =
     (if arrayOperands = [] then Inl (AssertionFailure ''!arrayOperands.empty()'')
      else case firstThatMayNotBeAbsent arrayOperands of
             Some op \<Rightarrow> Inr op
           | None \<Rightarrow> Inr (hd arrayOperands))"

text \<open>
  A procedure reference, as far as the lowering functions modelled here read it.
  \<open>argExtents\<close> is what \<^verbatim>\<open>fir::factory::getExtents\<close> returns on the scalar-lowered
  reference to the actual argument (\<^verbatim>\<open>asScalarRef\<close>, the external scalar evaluator).
  Lowering the expression of an actual argument is the continuation compiler itself
  (\<^verbatim>\<open>genarr\<close>, which reaches \<^verbatim>\<open>genProcRef\<close> again for a nested reference). The
  member \<^verbatim>\<open>unordered\<close> is only ever assigned \<^verbatim>\<open>false\<close> (the three calls
  \<^verbatim>\<open>setUnordered(false)\<close>), so the lowering of an expression either aborts, or leaves
  the member as it is, or clears it: the field \<open>genarrClears\<close> says which.
  \<open>procSymbol\<close> is \<^verbatim>\<open>proc().GetSymbol()\<close>, null for a specific intrinsic.
\<close>

datatype PassEntityBy =
    Value
  | BaseAddressValueAttribute
  | BaseAddress
  | CharBoxValueAttribute
  | BoxChar
  | AddressAndLength
  | CharProcTuple
  | Box
  | MutableBox
  | BoxProcRef

record ArgExpr =
  isArray :: bool
  MayBePassedAsAbsentOptional :: bool
  genarrClears :: "error + bool"

record ActualArgument =
  isPassedObject :: bool
  argExtents :: "val list"
  UnwrapExpr :: "ArgExpr option"

record DummyArgument =
  isDummyDataObject :: bool
  isPolymorphic :: bool

record PassedEntity =
  mayBeModifiedByCall :: bool
  mayBeReadByCall :: bool
  mayRequireIntentoutFinalization :: bool
  hasAllocatableAttribute :: bool
  isOptional :: bool
  passBy :: PassEntityBy
  argTyIsPolymorphic :: bool
  entity :: "ActualArgument option"

record Symbol =
  IsPureProcedure :: bool

record ProcedureRef =
  IsElemental :: bool
  procSymbol :: "Symbol option"
  GetSpecificIntrinsic :: bool
  isIntrinsicModuleProcRef :: bool
  isStatementFunctionCall :: bool
  isOptimizableTranspose :: bool
  arguments :: "ActualArgument option list"
  dummyArguments :: "DummyArgument list"
  passedArguments :: "PassedEntity list"
  getIfIndirectCall :: bool

text \<open>\<^verbatim>\<open>extractPassedArgFromProcRef\<close>: first the actual argument flagged as passed object;
  otherwise the actual argument at the position of the first polymorphic dummy data object
  (an absent optional there gives \<open>None\<close>, as \<^verbatim>\<open>std::optional\<close> does).\<close>

fun firstPassedObject :: "ActualArgument option list \<Rightarrow> ActualArgument option" where
  "firstPassedObject [] = None"
| "firstPassedObject (None # args) = firstPassedObject args"
| "firstPassedObject (Some arg # args) =
     (if isPassedObject arg then Some arg else firstPassedObject args)"

fun firstPolymorphicDummy :: "DummyArgument list \<Rightarrow> nat \<Rightarrow> nat option" where
  "firstPolymorphicDummy [] idx = None"
| "firstPolymorphicDummy (arg # args) idx =
     (if isDummyDataObject arg \<and> isPolymorphic arg then Some idx
      else firstPolymorphicDummy args (Suc idx))"

definition extractPassedArgFromProcRef :: "ProcedureRef \<Rightarrow> ActualArgument option" where
  "extractPassedArgFromProcRef procRef =
     (case firstPassedObject (arguments procRef) of
        Some arg \<Rightarrow> Some arg
      | None \<Rightarrow>
          (case firstPolymorphicDummy (dummyArguments procRef) 0 of
             Some idx \<Rightarrow>
               if idx < length (arguments procRef) then arguments procRef ! idx else None
           | None \<Rightarrow> None))"

text \<open>The members of \<^verbatim>\<open>ArrayExprLowering\<close> that \<^verbatim>\<open>genIterationShape\<close> reads.\<close>

record shape_ctx =
  destShape :: "val list"
  destination :: "array_load option"
  arrayOperands :: "ArrayOperand list"
  loweredProcRef :: "ProcedureRef option"

definition genIterationShape :: "'a shape_ctx_scheme \<Rightarrow> error + val list" where
  "genIterationShape c =
     (if destShape c \<noteq> [] then Inr (destShape c)
      else case destination c of
        Some load \<Rightarrow> Inr (getShapeOfLoad load)
      | None \<Rightarrow>
          if arrayOperands c \<noteq> [] then
            (case getInducingShapeArrayOperand (arrayOperands c) of
               Inl e \<Rightarrow> Inl e
             | Inr op \<Rightarrow> Inr (getShape op))
          else
            (case (case loweredProcRef c of
                     None \<Rightarrow> None
                   | Some procRef \<Rightarrow>
                       if IsElemental procRef then extractPassedArgFromProcRef procRef
                       else None) of
               Some passArg \<Rightarrow>
                 if length (argExtents passArg) = 0
                 then Inl (NotYetImplemented
                   (''getting shape from polymorphic array in elemental '' @
                    ''procedure reference''))
                 else Inr (argExtents passArg)
             | None \<Rightarrow> Inl (FatalError ''failed to compute the array expression shape'')))"

section \<open>Iteration spaces, subscripts and vector subscripts\<close>

text \<open>
  Modelled from the spec: the class \<^verbatim>\<open>IterationSpace\<close> is declared in
  \<^verbatim>\<open>flang/Lower/IterationSpace.h\<close>, which is not among the sources. By the specification's
  data model an iteration space is an ordered index vector together with the current element
  value and the loop-carried accumulator (the inner argument); \<open>outRes\<close> is the result of the
  outermost loop. Both are null when the loops carry no array. The accessors check their position as the class's assertions do.
\<close>

record IterationSpace =
  inArg :: "val option"
  outRes :: "val option"
  element :: "val option"
  indices :: "val list"

definition iterValue :: "IterationSpace \<Rightarrow> nat \<Rightarrow> error + val" where
  "iterValue iters i =
     (if i < length (indices iters) then Inr (indices iters ! i)
      else Inl (AssertionFailure ''i < indices.size()''))"

definition setIndexValue :: "IterationSpace \<Rightarrow> nat \<Rightarrow> val \<Rightarrow> error + IterationSpace" where
  "setIndexValue iters i v =
     (if i < length (indices iters) then Inr (iters\<lparr>indices := (indices iters)[i := v]\<rparr>)
      else Inl (AssertionFailure ''i < indices.size()''))"

definition insertIndexValue :: "IterationSpace \<Rightarrow> nat \<Rightarrow> val \<Rightarrow> error + IterationSpace" where
  "insertIndexValue iters i av =
     (if i \<le> length (indices iters)
      then Inr (iters\<lparr>indices := take i (indices iters) @ av # drop i (indices iters)\<rparr>)
      else Inl (AssertionFailure ''i <= indices.size()''))"

text \<open>A continuation \<^verbatim>\<open>CC\<close> emits the code of one element at an iteration point and
  returns its value; a projection \<^verbatim>\<open>PC\<close> maps one iteration space to another.\<close>

type_synonym CC = "IterationSpace \<Rightarrow> error + val"
type_synonym PC = "IterationSpace \<Rightarrow> error + IterationSpace"

text \<open>
  A vector subscript is an array expression of its own. Its lowering, \<^verbatim>\<open>genarr(expr)\<close>,
  is the whole continuation compiler; what \<^verbatim>\<open>genVectorSubscriptArrayFetch\<close> uses of it is
  the continuation it returns (\<open>vecFetch\<close>) and the shape it leaves in \<^verbatim>\<open>destShape\<close> when
  started from the cleared shape (\<open>vecShape\<close>).
\<close>

record vector_expr =
  vecFetch :: CC
  vecShape :: "val list"

text \<open>\<^verbatim>\<open>genVectorSubscriptArrayFetch\<close>. The first argument is \<^verbatim>\<open>destShape\<close> on entry
  (\<^verbatim>\<open>savedDestShape\<close>); the result is the continuation and \<^verbatim>\<open>destShape\<close> on exit. When
  the vector's extent is the very SSA value already stored for the dimension, the source does
  not assign \<^verbatim>\<open>destShape\<close> again, so it stays as \<^verbatim>\<open>genarr\<close> left it.\<close>

definition genVectorSubscriptArrayFetch ::
    "val list \<Rightarrow> vector_expr \<Rightarrow> nat \<Rightarrow> error + (CC \<times> val list)" where
  "genVectorSubscriptArrayFetch savedDestShape expr dim =
     (let result = vecFetch expr; destShape = vecShape expr in
      if destShape = [] then Inl (NotYetImplemented ''expected vector to have an extent'')
      else if length destShape \<noteq> 1 then Inl (AssertionFailure ''vector has rank > 1'')
      else if \<not> dim < length savedDestShape
        then Inl (AssertionFailure ''savedDestShape[dim]: idx < size()'')
      else if destShape ! 0 \<noteq> savedDestShape ! dim then
        (let cmp = CmpI sgt (destShape ! 0) (savedDestShape ! dim);
             sel = SelectOp cmp (savedDestShape ! dim) (destShape ! 0)
         in Inr (result, savedDestShape[dim := sel]))
      else Inr (result, destShape))"

text \<open>\<^verbatim>\<open>genAccessByVector\<close>: the fetch continuation of the vector is run on the
  iteration space whose only index is the index of dimension \<open>dim\<close>.\<close>

definition genAccessByVector :: "CC \<Rightarrow> IterationSpace \<Rightarrow> nat \<Rightarrow> error + val" where
  "genAccessByVector genArrFetch iters dim =
     (case iterValue iters dim of
        Inl e \<Rightarrow> Inl e
      | Inr iv \<Rightarrow>
          (case genArrFetch (iters\<lparr>indices := [iv]\<rparr>) of
             Inl e \<Rightarrow> Inl e
           | Inr fetch \<Rightarrow> Inr (ConvertOp fetch)))"

text \<open>
  The subscripts of an \<^verbatim>\<open>ArrayRef\<close>: a triplet with its optional bounds (already lowered
  by the scalar evaluator, \<^verbatim>\<open>asScalarArray\<close>), or an integer expression that is either an
  array (a vector subscript) or a scalar.
\<close>

datatype Subscript =
    Triplet "val option" "val option" val
  | VectorSubscript vector_expr
  | ScalarSubscript val

record ComponentPath =
  trips :: "val list"
  pc :: PC

record slice_flags =
  explicitSpaceIsActive :: bool
  isBoxValue :: bool
  atBase :: bool

record slice_state =
  cmptData :: ComponentPath
  sliceDestShape :: "val list"
  useSlice :: bool
  shapeIndex :: nat

definition getLBound :: "val \<Rightarrow> nat \<Rightarrow> val" where
  "getLBound x dim = ReadLowerBound x dim"

definition getUBound :: "val \<Rightarrow> nat \<Rightarrow> val" where
  "getUBound x dim = SubI (AddI (getLBound x dim) (ReadExtent x dim)) (ConstI 1)"

text \<open>One turn of the loop of \<^verbatim>\<open>genSliceIndices\<close> over \<^verbatim>\<open>x.subscript()\<close>.
  \<open>createDestShape\<close> is \<^verbatim>\<open>destShape.empty()\<close> as it was on entry to the function.\<close>

fun genSliceIndex ::
    "slice_flags \<Rightarrow> bool \<Rightarrow> val \<Rightarrow> nat \<Rightarrow> Subscript \<Rightarrow> slice_state \<Rightarrow> error + slice_state" where
  "genSliceIndex fl createDestShape arrayExv subsIndex (Triplet lo up str) st =
     (let useTripsForSlice = \<not> explicitSpaceIsActive fl;
          lowerBound = ConvertOp (case lo of Some v \<Rightarrow> v | None \<Rightarrow> getLBound arrayExv subsIndex);
          stride = ConvertOp str;
          st1 = (if useTripsForSlice \<or> createDestShape then
                   (let upperBound =
                          ConvertOp (case up of Some v \<Rightarrow> v | None \<Rightarrow> getUBound arrayExv subsIndex)
                    in st\<lparr> cmptData := (cmptData st)
                              \<lparr>trips := trips (cmptData st) @ [lowerBound, upperBound, stride]\<rparr>,
                            sliceDestShape :=
                              (if createDestShape
                               then sliceDestShape st @ [ExtentFromTriplet lowerBound upperBound stride]
                               else sliceDestShape st),
                            useSlice := True \<rparr>)
                 else st);
          currentPC = pc (cmptData st1);
          st2 = (if \<not> useTripsForSlice then
                   st1\<lparr> cmptData := (cmptData st1)\<lparr>pc := (\<lambda>iters.
                     case currentPC iters of
                       Inl e \<Rightarrow> Inl e
                     | Inr newIters \<Rightarrow>
                         (case iterValue newIters subsIndex of
                            Inl e \<Rightarrow> Inl e
                          | Inr impliedIter \<Rightarrow>
                              (let arrLowerBound =
                                     (if atBase fl then getLBound arrayExv subsIndex else ConstI 1);
                                   initial = SubI lowerBound arrLowerBound;
                                   prod = MulI impliedIter stride;
                                   result = AddI initial prod
                               in setIndexValue newIters subsIndex result)))\<rparr> \<rparr>
                 else st1)
      in Inr (st2\<lparr>shapeIndex := shapeIndex st2 + 1\<rparr>))"
| "genSliceIndex fl createDestShape arrayExv subsIndex (VectorSubscript arrExpr) st =
     (if isBoxValue fl
      then Inl (AssertionFailure ''fir.box cannot be created with vector subscripts'')
      else
        (let useTripsForSlice = \<not> explicitSpaceIsActive fl;
             destShape1 = (if createDestShape
                           then sliceDestShape st @ [ReadExtent arrayExv subsIndex]
                           else sliceDestShape st)
         in case genVectorSubscriptArrayFetch destShape1 arrExpr (shapeIndex st) of
              Inl e \<Rightarrow> Inl e
            | Inr (genArrFetch, destShape2) \<Rightarrow>
                (let currentPC = pc (cmptData st);
                     pc' = (\<lambda>iters.
                       case currentPC iters of
                         Inl e \<Rightarrow> Inl e
                       | Inr newIters \<Rightarrow>
                           (case genAccessByVector genArrFetch newIters subsIndex of
                              Inl e \<Rightarrow> Inl e
                            | Inr val \<Rightarrow>
                                (let lb = ReadLowerBound arrayExv subsIndex;
                                     origin = SubI val lb
                                 in setIndexValue newIters subsIndex origin)));
                     trips' = (if useTripsForSlice
                               then trips (cmptData st) @ [UndefOp, UndefOp, UndefOp]
                               else trips (cmptData st))
                 in Inr (st\<lparr> cmptData := \<lparr>trips = trips', pc = pc'\<rparr>,
                             sliceDestShape := destShape2,
                             shapeIndex := shapeIndex st + 1 \<rparr>))))"
| "genSliceIndex fl createDestShape arrayExv subsIndex (ScalarSubscript v) st =
     (let useTripsForSlice = \<not> explicitSpaceIsActive fl;
          currentPC = pc (cmptData st);
          lb = ReadLowerBound arrayExv subsIndex
      in if useTripsForSlice then
           (let trips' = trips (cmptData st) @ [v, UndefOp, UndefOp];
                iv = ConvertOp v;
                ivAdj = SubI iv lb;
                pc' = (if \<not> isBoxValue fl
                       then (\<lambda>iters. case currentPC iters of
                                       Inl e \<Rightarrow> Inl e
                                     | Inr newIters \<Rightarrow> insertIndexValue newIters subsIndex ivAdj)
                       else currentPC)
            in Inr (st\<lparr> cmptData := \<lparr>trips = trips', pc = pc'\<rparr> \<rparr>))
         else
           (let result = SubI (ConvertOp v) lb;
                pc' = (\<lambda>iters. case currentPC iters of
                                 Inl e \<Rightarrow> Inl e
                               | Inr newIters \<Rightarrow> insertIndexValue newIters subsIndex result)
            in Inr (st\<lparr> cmptData := (cmptData st)\<lparr>pc := pc'\<rparr> \<rparr>)))"

fun genSliceIndicesLoop ::
    "slice_flags \<Rightarrow> bool \<Rightarrow> val \<Rightarrow> nat \<Rightarrow> Subscript list \<Rightarrow> slice_state \<Rightarrow> error + slice_state" where
  "genSliceIndicesLoop fl createDestShape arrayExv subsIndex [] st = Inr st"
| "genSliceIndicesLoop fl createDestShape arrayExv subsIndex (sub # subs) st =
     (case genSliceIndex fl createDestShape arrayExv subsIndex sub st of
        Inl e \<Rightarrow> Inl e
      | Inr st' \<Rightarrow> genSliceIndicesLoop fl createDestShape arrayExv (Suc subsIndex) subs st')"

text \<open>\<^verbatim>\<open>genSliceIndices\<close>: the component path and \<^verbatim>\<open>destShape\<close> on entry, the array
  and its subscripts; the result is the component path and \<^verbatim>\<open>destShape\<close> on exit.\<close>

definition genSliceIndices ::
    "slice_flags \<Rightarrow> ComponentPath \<Rightarrow> val list \<Rightarrow> val \<Rightarrow> Subscript list
      \<Rightarrow> error + (ComponentPath \<times> val list)" where
  "genSliceIndices fl cmpt destShape0 arrayExv subscripts =
     (case genSliceIndicesLoop fl (destShape0 = []) arrayExv 0 subscripts
             \<lparr> cmptData = cmpt, sliceDestShape = destShape0, useSlice = False, shapeIndex = 0 \<rparr> of
        Inl e \<Rightarrow> Inl e
      | Inr st \<Rightarrow>
          Inr (if \<not> useSlice st then (cmptData st)\<lparr>trips := []\<rparr> else cmptData st,
               sliceDestShape st))"

section \<open>Ordering of the loop iterations\<close>










section \<open>Emitted operations with regions\<close>

text \<open>
  The operations with side effects or regions that the modelled functions emit. A
  \<^verbatim>\<open>fir.do_loop\<close> carries its bounds, its step, the \<^verbatim>\<open>unordered\<close> attribute, the
  initial value of its loop-carried argument (if any) and its body; the number \<open>k\<close> names
  its results: \<open>InductionVar k\<close>, \<open>RegionIterArg k\<close> and \<open>DoLoopResult k\<close>. A
  \<^verbatim>\<open>fir.if\<close> with a result is named the same way (\<open>IfResult n\<close>).
  \<^verbatim>\<open>fir.array_merge_store\<close> is built from the load of the destination: its memref, slice
  and type parameters are those of the load.

  The builder's insertion point is modelled by a context with one hole: a function that
  takes the operations to be placed at the insertion point and returns the operations
  around them.
\<close>

datatype op =
    ArrayLoadOp array_load
  | DoLoopOp nat val val val bool "val option" "op list"
  | IfOp nat val "op list" "op list"
  | ResultOp val
  | ArrayMergeStoreOp array_load val
  | AllocMemOp val "val list"

text \<open>\<^verbatim>\<open>genImplicitLoops\<close>. The loops are created from the outermost (the last extent)
  to the innermost (the first extent), each from 0 to \<open>extent - 1\<close> with step 1 and with the
  current value of \<^verbatim>\<open>isUnordered()\<close>; each outer loop ends by yielding the result of the
  loop inside it. The insertion point is left at the start of the innermost body. The
  source calls \<^verbatim>\<open>loops.back()\<close>, which needs a shape of rank at least one. (With an
  active explicit space the source also records the inner argument in that space; the class
  \<^verbatim>\<open>ExplicitIterSpace\<close> is not among the sources and is not modelled.)\<close>

fun loopNest :: "nat \<Rightarrow> val list \<Rightarrow> bool \<Rightarrow> val option \<Rightarrow> op list \<Rightarrow> op list" where
  "loopNest k [] unordered innerArg body = body"
| "loopNest k [upper] unordered innerArg body =
     [DoLoopOp k (ConstI 0) upper (ConstI 1) unordered innerArg body]"
| "loopNest k (upper # uppers) unordered innerArg body =
     [DoLoopOp k (ConstI 0) upper (ConstI 1) unordered innerArg
        (loopNest (Suc k) uppers unordered (map_option (\<lambda>_. RegionIterArg k) innerArg) body
         @ (case innerArg of None \<Rightarrow> [] | Some _ \<Rightarrow> [ResultOp (DoLoopResult (Suc k))]))]"

definition genImplicitLoops ::
    "val list \<Rightarrow> val option \<Rightarrow> bool \<Rightarrow> error + (IterationSpace \<times> (op list \<Rightarrow> op list))" where
  "genImplicitLoops shapeVec innerArg unordered =
     (if shapeVec = [] then Inl (AssertionFailure ''loops.back(): !empty()'')
      else
        (let loopUppers = map (\<lambda>extent. SubI extent (ConstI 1)) shapeVec;
             loopDepth = length loopUppers;
             ivars = map InductionVar [0..<loopDepth]
         in Inr (\<lparr> inArg = map_option (\<lambda>_. RegionIterArg (loopDepth - 1)) innerArg,
                    outRes = map_option (\<lambda>_. DoLoopResult 0) innerArg,
                    element = None,
                    indices = rev ivars \<rparr>,
                  loopNest 0 (rev loopUppers) unordered innerArg)))"


subsection \<open>Execution of the emitted operations\<close>

text \<open>
  Modelled from the spec: the semantics of the FIR operations is not among the sources. A
  run-time state is the memory (the contents of each array variable, named by its memref),
  the values of the SSA names defined so far, and the value yielded by the last
  \<^verbatim>\<open>fir.result\<close>. The view of a load (how its slice maps index vectors to elements) is
  given by \<open>viewOf\<close>. A loop from \<open>lb\<close> to \<open>ub\<close> by \<open>step\<close> runs
  \<open>(ub - lb + step) / step\<close> times when that is positive, in increasing order; this is
  the order an ordered loop must take and one of the orders an unordered loop may take.
  \<^verbatim>\<open>fir.array_merge_store\<close> is the only operation that writes the memory.
\<close>

record rt_state =
  mem :: "val \<Rightarrow> index list \<Rightarrow> index"
  rt_env :: env
  yielded :: "array_value option"

definition tripCount :: "index \<Rightarrow> index \<Rightarrow> index \<Rightarrow> nat" where
  "tripCount lb ub step =
     (if step = 0 then 0 else nat ((sint ub - sint lb + sint step) sdiv sint step))"

definition bindArray :: "val \<Rightarrow> array_value \<Rightarrow> rt_state \<Rightarrow> rt_state" where
  "bindArray v a s = s\<lparr>rt_env := (rt_env s)\<lparr>arrayOf := (arrayOf (rt_env s))(v := a)\<rparr>\<rparr>"

definition bindScalar :: "val \<Rightarrow> index \<Rightarrow> rt_state \<Rightarrow> rt_state" where
  "bindScalar v i s = s\<lparr>rt_env := (rt_env s)\<lparr>scalarOf := (scalarOf (rt_env s))(v := i)\<rparr>\<rparr>"

definition bindYielded :: "val \<Rightarrow> rt_state \<Rightarrow> rt_state" where
  "bindYielded v s = (case yielded s of None \<Rightarrow> s | Some a \<Rightarrow> bindArray v a s)"

fun exec :: "(array_load \<Rightarrow> index list \<Rightarrow> index list) \<Rightarrow> op \<Rightarrow> rt_state \<Rightarrow> rt_state" where
  "exec viewOf (ArrayLoadOp ld) s =
     bindArray (ldResult ld) (mem s (ldMemref ld), viewOf ld) s"
| "exec viewOf (DoLoopOp k lb ub step unordered innerArg body) s =
     (let lbv = evalVal (rt_env s) lb;
          stepv = evalVal (rt_env s) step;
          n = tripCount lbv (evalVal (rt_env s) ub) stepv;
          s0 = (case innerArg of
                  None \<Rightarrow> s\<lparr>yielded := None\<rparr>
                | Some a \<Rightarrow> s\<lparr>yielded := Some (evalArr (rt_env s) a)\<rparr>);
          s1 = fold (\<lambda>j sj.
                 fold (exec viewOf) body
                   (bindYielded (RegionIterArg k)
                      (bindScalar (InductionVar k) (lbv + of_nat j * stepv) sj)))
               [0..<n] s0
      in bindYielded (DoLoopResult k) s1)"
| "exec viewOf (IfOp n c thenOps elseOps) s =
     bindYielded (IfResult n)
       (if evalVal (rt_env s) c \<noteq> 0 then fold (exec viewOf) thenOps s
        else fold (exec viewOf) elseOps s)"
| "exec viewOf (ResultOp v) s = s\<lparr>yielded := Some (evalArr (rt_env s) v)\<rparr>"
| "exec viewOf (ArrayMergeStoreOp ld v) s =
     s\<lparr>mem := (mem s)(ldMemref ld := fst (evalArr (rt_env s) v))\<rparr>"
| "exec viewOf (AllocMemOp temp extents) s = s"

definition run :: "(array_load \<Rightarrow> index list \<Rightarrow> index list) \<Rightarrow> op list \<Rightarrow> rt_state \<Rightarrow> rt_state" where
  "run viewOf ops s = fold (exec viewOf) ops s"

section \<open>The mask engine\<close>

text \<open>
  Modelled from the spec: the class \<^verbatim>\<open>ImplicitIterSpace\<close> is declared in
  \<^verbatim>\<open>flang/Lower/IterationSpace.h\<close>, which is not among the sources. By the specification
  a Mask Binding associates the identity of a source mask expression with its materialized
  access continuation and, for a lazily allocated mask, its ragged buffer handle. A mask
  expression is identified by a number (the address of the front-end expression); a null
  entry of a clause list (an \<^verbatim>\<open>ELSEWHERE\<close> without mask) is \<open>None\<close>. \<open>masks\<close> is the
  stack of clause lists of the enclosing constructs, \<open>vmap\<close> the bindings made so far and
  \<open>maskVarMap\<close> the buffer variable and header of the masks that are allocated lazily.
\<close>

record ImplicitIterSpace =
  masks :: "nat option list list"
  vmap :: "nat \<Rightarrow> CC option"
  maskVarMap :: "nat \<Rightarrow> (val \<times> val) option"

definition getMasks :: "ImplicitIterSpace \<Rightarrow> nat option list list" where
  "getMasks sp = masks sp"





definition getBoundClosure :: "ImplicitIterSpace \<Rightarrow> nat \<Rightarrow> error + CC" where
  "getBoundClosure sp e =
     (case vmap sp e of
        None \<Rightarrow> Inl (FatalError
          ''evaluate::Expr is not in the map of lowered mask expressions'')
      | Some f \<Rightarrow> Inr f)"


text \<open>\<^verbatim>\<open>genMaskAccess\<close>: the continuation that reads one element of a materialized
  mask: the address of the element at the iteration point, a load, a conversion to
  \<^verbatim>\<open>i1\<close>.\<close>

definition genMaskAccess :: "val \<Rightarrow> CC" where
  "genMaskAccess tmp = (\<lambda>iters. Inr (ConvertOp (LoadOp (ArrayCoorOp tmp (indices iters)))))"










section \<open>Lowering of an array assignment\<close>

text \<open>
  The modelled part of the continuation compiler: array assignments in an implicit iteration
  space whose elements are assigned by value (numeric element types), with a left-hand side
  that is a variable or a section of one, and a right-hand side built from variables and
  sections (triplets, vector subscripts, scalar subscripts), scalar operands and elementwise
  integer operations. An explicit (\<^verbatim>\<open>FORALL\<close>) space, whose class is not among the
  sources, character and derived-type elements and procedure references are outside this
  part.
\<close>

datatype ConstituentSemantics =
    DataValue
  | DataAddr
  | BoxValue
  | BoxAddr
  | RefTransparent
  | ByValueArg
  | CopyInCopyOut
  | ProjectedCopyInCopyOut
  | CustomCopyInCopyOut
  | RefOpaque

text \<open>An array variable as the scalar evaluator returns it (\<^verbatim>\<open>asScalarRef\<close>): its base
  address, whether that is a descriptor, its rank and the shape operation that
  \<^verbatim>\<open>createShape\<close> builds for it.\<close>

record ExtendedValue =
  exvBase :: val
  exvIsBox :: bool
  exvRank :: nat
  exvShape :: "shape_val option"

datatype BinaryOp = AddIOp | SubIOp | MulIOp

text \<open>An expression of the modelled part: a designator (the variable, the subscripts of
  its \<^verbatim>\<open>ArrayRef\<close> if it has one, and its Cray pointer if it is a Cray pointee), an
  expression of rank 0 with the value the scalar evaluator gives it, or an elementwise
  operation.\<close>

datatype Expr =
    Designator ExtendedValue "Subscript list option" "val option"
  | ScalarExpr val
  | BinaryOperation BinaryOp Expr Expr

record ael = shape_ctx +
  semant :: ConstituentSemantics
  ccStoreToDest :: "CC option"
  isUnordered :: bool
  explicitSpaceActive :: bool
  implicitSpace :: "ImplicitIterSpace option"
  emitted :: "op list"
  nextId :: nat

text \<open>\<^verbatim>\<open>convertElementForUpdate\<close> outside a pointer assignment: a conversion to the
  element type of the destination.\<close>

definition convertElementForUpdate :: "val \<Rightarrow> val" where
  "convertElementForUpdate origVal = ConvertOp origVal"

text \<open>\<^verbatim>\<open>defaultStoreToDestination\<close> for an element assigned by value: the element of the
  iteration space is put into the inner argument at the iteration vector by a
  \<^verbatim>\<open>fir.array_update\<close>, whose result is the new inner argument.\<close>

definition defaultStoreToDestination :: CC where
  "defaultStoreToDestination = (\<lambda>iterSpace.
     case inArg iterSpace of
       None \<Rightarrow> Inl (AssertionFailure ''innerArgument()'')
     | Some innerArg \<Rightarrow>
         (case element iterSpace of
            None \<Rightarrow> Inl (AssertionFailure ''elementExv()'')
          | Some exv \<Rightarrow>
              (let ele = convertElementForUpdate exv
               in Inr (ArrayUpdateOp innerArg ele (indices iterSpace)))))"

text \<open>
  \<^verbatim>\<open>genarr(const ExtValue &, ComponentPath &, mlir::Value CrayPtr)\<close>, the base case of an
  array reference. The operand is recorded for shape inference and gives the destination
  shape if none is known. Unless the reference is boxed or opaque, the array is loaded here,
  when the continuation is built; for a Cray pointee a second load through the pointer
  replaces the first. With projected copy-in copy-out semantics the load becomes the
  destination and the continuation is the store to the destination.
\<close>

definition genarrExtValue ::
    "ExtendedValue \<Rightarrow> ComponentPath \<Rightarrow> val option \<Rightarrow> 'a ael_scheme
      \<Rightarrow> error + (CC \<times> 'a ael_scheme)" where
  "genarrExtValue extMemref components CrayPtr st =
     (let memref = exvBase extMemref;
          sliceOp = (if trips components \<noteq> [] then Some (trips components) else None);
          operand = \<lparr> memref = memref, memrefIsBox = exvIsBox extMemref,
                      memrefRank = exvRank extMemref, shape = exvShape extMemref,
                      slice = sliceOp, mayBeAbsent = False \<rparr>;
          st1 = st\<lparr> arrayOperands := arrayOperands st @ [operand],
                    destShape := (if destShape st = [] then getShape operand
                                  else destShape st) \<rparr>
      in if semant st1 = BoxValue then Inr (\<lambda>iters. Inr (EmboxOp memref), st1)
         else if semant st1 = RefOpaque
           then Inr (\<lambda>iters. Inr (ArrayCoorOp memref (indices iters)), st1)
         else
           (let load0 = \<lparr> ldResult = ArrayLoadResult (nextId st1), ldMemref = memref,
                           ldMemrefIsBox = exvIsBox extMemref,
                           ldMemrefRank = exvRank extMemref,
                           ldShape = exvShape extMemref, ldSlice = sliceOp \<rparr>;
                st2 = st1\<lparr> emitted := emitted st1 @ [ArrayLoadOp load0],
                           nextId := nextId st1 + 1 \<rparr>;
                arrLoad = (case CrayPtr of
                             None \<Rightarrow> load0
                           | Some ptr \<Rightarrow>
                               load0\<lparr> ldResult := ArrayLoadResult (nextId st2),
                                      ldMemref := LoadOp (CrayPointerAddr ptr) \<rparr>);
                st3 = (case CrayPtr of
                         None \<Rightarrow> st2
                       | Some ptr \<Rightarrow>
                           st2\<lparr> emitted := emitted st2 @ [ArrayLoadOp arrLoad],
                                nextId := nextId st2 + 1 \<rparr>);
                arrLd = ldResult arrLoad
            in if semant st3 = ProjectedCopyInCopyOut then
                 (let lambda = (case ccStoreToDest st3 of
                                  Some f \<Rightarrow> f
                                | None \<Rightarrow> defaultStoreToDestination)
                  in Inr (\<lambda>iters. lambda iters, st3\<lparr>destination := Some arrLoad\<rparr>))
               else if semant st3 = CustomCopyInCopyOut then
                 Inr (\<lambda>iters. case inArg iters of
                               None \<Rightarrow> Inl (AssertionFailure ''innerArgument()'')
                             | Some innerArg \<Rightarrow> Inr (ArrayModifyOp innerArg (indices iters)),
                      st3\<lparr>destination := Some arrLoad\<rparr>)
               else if semant st3 = CopyInCopyOut then Inr (\<lambda>iters. Inr arrLd, st3)
               else if semant st3 = ByValueArg then
                 Inr (\<lambda>iters. Inr (TemporaryHolding (ArrayFetchOp arrLd (indices iters))), st3)
               else Inr (\<lambda>iters. Inr (ArrayFetchOp arrLd (indices iters)), st3)))"

text \<open>
  \<^verbatim>\<open>genImplicitArrayAccess\<close>: the path of the designator is lowered
  (\<^verbatim>\<open>lowerPath\<close>, which for a ranked array access is \<^verbatim>\<open>genSliceIndices\<close>; the
  implicit-subscripts entry comes first on the path, so the \<^verbatim>\<open>ArrayRef\<close> is not at the
  base), the array is lowered by the base case, and the continuation first projects the
  iteration space through the path. A new \<^verbatim>\<open>ComponentPath\<close> has no triples and the
  identity projection. While the path is lowered the semantics are those of the reference,
  or transparent when they are projected copy-in copy-out.
\<close>

definition genImplicitArrayAccess ::
    "ExtendedValue \<Rightarrow> Subscript list option \<Rightarrow> val option \<Rightarrow> 'a ael_scheme
      \<Rightarrow> error + (CC \<times> 'a ael_scheme)" where
  "genImplicitArrayAccess exv subscripts ptrVal st =
     (let components0 = \<lparr> trips = [], pc = (\<lambda>iters. Inr iters) \<rparr>;
          pathSemant = (if semant st = ProjectedCopyInCopyOut then RefTransparent
                        else semant st);
          fl = \<lparr> explicitSpaceIsActive = explicitSpaceActive st,
                 isBoxValue = (pathSemant = BoxValue), atBase = False \<rparr>
      in case (case subscripts of
                 None \<Rightarrow> Inr (components0, destShape st)
               | Some subs \<Rightarrow> genSliceIndices fl components0 (destShape st) (exvBase exv) subs) of
           Inl e \<Rightarrow> Inl e
         | Inr (components, destShape1) \<Rightarrow>
             (case genarrExtValue exv components ptrVal (st\<lparr>destShape := destShape1\<rparr>) of
                Inl e \<Rightarrow> Inl e
              | Inr (lambda, st1) \<Rightarrow>
                  Inr (\<lambda>iters. case pc components iters of
                                Inl e \<Rightarrow> Inl e
                              | Inr iters1 \<Rightarrow> lambda iters1,
                       st1)))"

definition binaryOpValue :: "BinaryOp \<Rightarrow> val \<Rightarrow> val \<Rightarrow> val" where
  "binaryOpValue oper left right =
     (case oper of AddIOp \<Rightarrow> AddI left right
                 | SubIOp \<Rightarrow> SubI left right
                 | MulIOp \<Rightarrow> MulI left right)"

text \<open>\<^verbatim>\<open>genarr\<close> on an expression: a designator is an implicit array access, an
  expression of rank 0 forwards its scalar value, and a binary operation lowers both
  operands and combines the two elements (\<^verbatim>\<open>createBinaryOp\<close>).\<close>

fun genarr :: "Expr \<Rightarrow> 'a ael_scheme \<Rightarrow> error + (CC \<times> 'a ael_scheme)" where
  "genarr (Designator exv subscripts ptrVal) st =
     (if explicitSpaceActive st
      then Inl (OutsideModel ''array reference in an explicit iteration space'')
      else genImplicitArrayAccess exv subscripts ptrVal st)"
| "genarr (ScalarExpr result) st = Inr (\<lambda>iters. Inr result, st)"
| "genarr (BinaryOperation oper l r) st =
     (case genarr l st of
        Inl e \<Rightarrow> Inl e
      | Inr (lambda, st1) \<Rightarrow>
          (case genarr r st1 of
             Inl e \<Rightarrow> Inl e
           | Inr (rf, st2) \<Rightarrow>
               Inr (\<lambda>iters. case lambda iters of
                             Inl e \<Rightarrow> Inl e
                           | Inr left \<Rightarrow>
                               (case rf iters of
                                  Inl e \<Rightarrow> Inl e
                                | Inr right \<Rightarrow> Inr (binaryOpValue oper left right)),
                    st2)))"

text \<open>\<^verbatim>\<open>determineShapeOfDest\<close> on an expression, outside an explicit space: a shape
  already known is kept; otherwise the constant extents of the left-hand side, when the
  front end knows them (\<open>constantShape\<close>), are taken.\<close>

definition determineShapeOfDest :: "int list option \<Rightarrow> 'a ael_scheme \<Rightarrow> 'a ael_scheme" where
  "determineShapeOfDest constantShape st =
     (if destShape st \<noteq> [] then st
      else case constantShape of
             None \<Rightarrow> st
           | Some extents \<Rightarrow> st\<lparr>destShape := destShape st @ map ConstI extents\<rparr>)"

text \<open>\<^verbatim>\<open>createAndLoadSomeArrayTemp\<close> for a numeric element type: the temporary is
  allocated and loaded.\<close>

definition createAndLoadSomeArrayTemp :: "val list \<Rightarrow> 'a ael_scheme \<Rightarrow> array_load \<times> 'a ael_scheme" where
  "createAndLoadSomeArrayTemp shapeVec st =
     (let temp = ArrayTemp (nextId st);
          load = \<lparr> ldResult = ArrayLoadResult (nextId st + 1), ldMemref = temp,
                   ldMemrefIsBox = False, ldMemrefRank = length shapeVec,
                   ldShape = Some (ShapeOp shapeVec), ldSlice = None \<rparr>
      in (load, st\<lparr> emitted := emitted st @ [AllocMemOp temp shapeVec, ArrayLoadOp load],
                    nextId := nextId st + 2 \<rparr>))"

text \<open>
  The mask conditions of \<^verbatim>\<open>genIterSpace\<close>. For a clause list, every mask but the last
  opens a \<^verbatim>\<open>fir.if\<close> whose then-region yields the inner argument unchanged and whose
  else-region receives what follows (\<^verbatim>\<open>genFalseBlock\<close>); the last mask opens a
  \<^verbatim>\<open>fir.if\<close> whose else-region yields the inner argument unchanged and whose then-region
  receives what follows (\<^verbatim>\<open>genTrueBlock\<close>). Each \<^verbatim>\<open>fir.if\<close> is followed by the
  \<^verbatim>\<open>fir.result\<close> of its result. A null entry generates nothing. The condition is
  the bound closure of the mask applied to the iteration space. The source reads
  \<^verbatim>\<open>maskExprs[size]\<close> with \<^verbatim>\<open>size = maskExprs.size() - 1\<close>, which needs a clause list
  that is not empty.
\<close>

definition genCond :: "ImplicitIterSpace \<Rightarrow> nat \<Rightarrow> IterationSpace \<Rightarrow> error + val" where
  "genCond sp e iters =
     (case getBoundClosure sp e of
        Inl err \<Rightarrow> Inl err
      | Inr closure \<Rightarrow> closure iters)"

definition genFalseBlock :: "nat \<Rightarrow> val \<Rightarrow> val \<Rightarrow> op list \<Rightarrow> op list" where
  "genFalseBlock n innerArg cond hole =
     [IfOp n cond [ResultOp innerArg] hole, ResultOp (IfResult n)]"

definition genTrueBlock :: "nat \<Rightarrow> val \<Rightarrow> val \<Rightarrow> op list \<Rightarrow> op list" where
  "genTrueBlock n innerArg cond hole =
     [IfOp n cond hole [ResultOp innerArg], ResultOp (IfResult n)]"

fun genFalseBlocks ::
    "ImplicitIterSpace \<Rightarrow> IterationSpace \<Rightarrow> val \<Rightarrow> nat option list \<Rightarrow> nat
      \<Rightarrow> error + ((op list \<Rightarrow> op list) \<times> nat)" where
  "genFalseBlocks sp iters innerArg [] n = Inr (\<lambda>hole. hole, n)"
| "genFalseBlocks sp iters innerArg (None # es) n = genFalseBlocks sp iters innerArg es n"
| "genFalseBlocks sp iters innerArg (Some e # es) n =
     (case genCond sp e iters of
        Inl err \<Rightarrow> Inl err
      | Inr cond \<Rightarrow>
          (case genFalseBlocks sp iters innerArg es (Suc n) of
             Inl err \<Rightarrow> Inl err
           | Inr (ctx, n') \<Rightarrow> Inr (\<lambda>hole. genFalseBlock n innerArg cond (ctx hole), n')))"

definition genMaskClause ::
    "ImplicitIterSpace \<Rightarrow> IterationSpace \<Rightarrow> val \<Rightarrow> nat option list \<Rightarrow> nat
      \<Rightarrow> error + ((op list \<Rightarrow> op list) \<times> nat)" where
  "genMaskClause sp iters innerArg maskExprs n =
     (if maskExprs = [] then Inl (AssertionFailure ''maskExprs[size]: idx < size()'')
      else case genFalseBlocks sp iters innerArg (butlast maskExprs) n of
             Inl err \<Rightarrow> Inl err
           | Inr (ctx, n1) \<Rightarrow>
               (case last maskExprs of
                  None \<Rightarrow> Inr (ctx, n1)
                | Some e \<Rightarrow>
                    (case genCond sp e iters of
                       Inl err \<Rightarrow> Inl err
                     | Inr cond \<Rightarrow>
                         Inr (\<lambda>hole. ctx (genTrueBlock n1 innerArg cond hole), Suc n1))))"

fun genMaskConditions ::
    "ImplicitIterSpace \<Rightarrow> IterationSpace \<Rightarrow> val \<Rightarrow> nat option list list \<Rightarrow> nat
      \<Rightarrow> error + ((op list \<Rightarrow> op list) \<times> nat)" where
  "genMaskConditions sp iters innerArg [] n = Inr (\<lambda>hole. hole, n)"
| "genMaskConditions sp iters innerArg (maskExprs # rest) n =
     (case genMaskClause sp iters innerArg maskExprs n of
        Inl err \<Rightarrow> Inl err
      | Inr (ctx1, n1) \<Rightarrow>
          (case genMaskConditions sp iters innerArg rest n1 of
             Inl err \<Rightarrow> Inl err
           | Inr (ctx2, n2) \<Rightarrow> Inr (\<lambda>hole. ctx1 (ctx2 hole), n2)))"

text \<open>\<^verbatim>\<open>genIterSpace\<close>: the shape, the destination (a temporary if none is set), the
  implicit loops seeded with the result of the destination's load, and the mask conditions
  in the innermost loop. The result is the iteration space and the context whose hole is
  the place of the loop body.\<close>

definition genIterSpace ::
    "'a ael_scheme \<Rightarrow> error + (IterationSpace \<times> (op list \<Rightarrow> op list) \<times> 'a ael_scheme)" where
  "genIterSpace st =
     (case genIterationShape st of
        Inl e \<Rightarrow> Inl e
      | Inr shapeVec \<Rightarrow>
          (let (dest, st1) = (case destination st of
                                Some d \<Rightarrow> (d, st)
                              | None \<Rightarrow>
                                  (let (d, st') = createAndLoadSomeArrayTemp shapeVec st
                                   in (d, st'\<lparr>destination := Some d\<rparr>)))
           in if explicitSpaceActive st1
              then Inl (OutsideModel ''inner argument of an explicit iteration space'')
              else
                (case genImplicitLoops shapeVec (Some (ldResult dest)) (isUnordered st1) of
                   Inl e \<Rightarrow> Inl e
                 | Inr (iters, loops) \<Rightarrow>
                     (case inArg iters of
                        None \<Rightarrow> Inl (AssertionFailure ''innerArgument()'')
                      | Some innerArg \<Rightarrow>
                          (case (case implicitSpace st1 of
                                   None \<Rightarrow> Inr (\<lambda>hole. hole, nextId st1)
                                 | Some sp \<Rightarrow>
                                     genMaskConditions sp iters innerArg (getMasks sp)
                                       (nextId st1)) of
                             Inl e \<Rightarrow> Inl e
                           | Inr (conds, n) \<Rightarrow>
                               Inr (iters, (\<lambda>hole. loops (conds hole)),
                                    st1\<lparr>nextId := n\<rparr>))))))"

text \<open>\<^verbatim>\<open>lowerArrayExpression(CC f, mlir::Type resultTy)\<close>: the iteration space is
  built, the element is computed at the iteration point, stored to the destination by the
  store continuation, and the updated array is yielded from the innermost region. The value
  returned is the result of the outermost loop.\<close>

definition lowerArrayExpression :: "CC \<Rightarrow> 'a ael_scheme \<Rightarrow> error + (val \<times> 'a ael_scheme)" where
  "lowerArrayExpression f st =
     (case genIterSpace st of
        Inl e \<Rightarrow> Inl e
      | Inr (iterSpace, ctx, st1) \<Rightarrow>
          (case f iterSpace of
             Inl e \<Rightarrow> Inl e
           | Inr exv \<Rightarrow>
               (let iterSpace1 = iterSpace\<lparr>element := Some exv\<rparr>;
                    lambda = (case ccStoreToDest st1 of
                                Some g \<Rightarrow> g
                              | None \<Rightarrow> defaultStoreToDestination)
                in case lambda iterSpace1 of
                     Inl e \<Rightarrow> Inl e
                   | Inr updVal \<Rightarrow>
                       (case outRes iterSpace1 of
                          None \<Rightarrow> Inl (AssertionFailure ''outerResult()'')
                        | Some res \<Rightarrow>
                            Inr (res, st1\<lparr>emitted := emitted st1 @ ctx [ResultOp updVal]\<rparr>)))))"

text \<open>
  \<^verbatim>\<open>lowerArrayAssignment\<close>. The left-hand side is lowered with projected copy-in copy-out
  semantics, which loads the destination and gives the store continuation; the right-hand
  side is lowered with transparent semantics into the loop nest; outside an explicit space
  the result of the outermost loop is merged into the destination by one
  \<^verbatim>\<open>fir.array_merge_store\<close>. \<open>constantShape\<close> is what the front end knows of the
  extents of the left-hand side. The semantics pushed on entry are restored on exit.
\<close>

definition lowerArrayAssignment ::
    "Expr \<Rightarrow> int list option \<Rightarrow> Expr \<Rightarrow> 'a ael_scheme \<Rightarrow> error + 'a ael_scheme" where
  "lowerArrayAssignment lhs constantShape rhs st =
     (case genarr lhs (st\<lparr>semant := ProjectedCopyInCopyOut\<rparr>) of
        Inl e \<Rightarrow> Inl e
      | Inr (storeToDest, st1) \<Rightarrow>
          (let st2 = determineShapeOfDest constantShape (st1\<lparr>ccStoreToDest := Some storeToDest\<rparr>);
               st3 = st2\<lparr>semant := RefTransparent\<rparr>
           in case genarr rhs st3 of
                Inl e \<Rightarrow> Inl e
              | Inr (f, st4) \<Rightarrow>
                  (case lowerArrayExpression f st4 of
                     Inl e \<Rightarrow> Inl e
                   | Inr (exv, st5) \<Rightarrow>
                       if explicitSpaceActive st5
                       then Inr (st5\<lparr> emitted := emitted st5 @ [ResultOp exv],
                                      semant := semant st \<rparr>)
                       else
                         (case destination st5 of
                            None \<Rightarrow> Inl (AssertionFailure ''destination'')
                          | Some dest \<Rightarrow>
                              Inr (st5\<lparr> emitted := emitted st5 @ [ArrayMergeStoreOp dest exv],
                                         semant := semant st \<rparr>)))))"

text \<open>The lowering object as the entry point \<^verbatim>\<open>lowerArrayAssignment\<close> constructs it
  for an assignment outside \<^verbatim>\<open>WHERE\<close> and \<^verbatim>\<open>FORALL\<close>.\<close>

definition newArrayExprLowering :: "ael" where
  "newArrayExprLowering =
     \<lparr> destShape = [], destination = None, arrayOperands = [], loweredProcRef = None,
       semant = CopyInCopyOut, ccStoreToDest = None, isUnordered = True,
       explicitSpaceActive = False, implicitSpace = None, emitted = [], nextId = 0 \<rparr>"

text \<open>
  The condition of the specification, in its words: for a clause list \<open>[m1, ..., mk]\<close> the
  body under \<open>mk\<close> executes only where \<open>m1\<close> to \<open>m(k-1)\<close> are all false and \<open>mk\<close> is
  true. \<open>maskValue\<close> is the value of a mask at an iteration point, read through the closure
  the mask is bound to; a null entry of the clause list constrains nothing.
\<close>

definition maskValue :: "ImplicitIterSpace \<Rightarrow> IterationSpace \<Rightarrow> env \<Rightarrow> nat \<Rightarrow> bool option" where
  "maskValue sp iters \<rho> e =
     (case genCond sp e iters of
        Inl err \<Rightarrow> None
      | Inr cond \<Rightarrow> Some (evalVal \<rho> cond \<noteq> 0))"

definition firstMatchWins ::
    "ImplicitIterSpace \<Rightarrow> IterationSpace \<Rightarrow> env \<Rightarrow> nat option list \<Rightarrow> bool" where
  "firstMatchWins sp iters \<rho> maskExprs \<longleftrightarrow>
     list_all (\<lambda>m. case m of None \<Rightarrow> True | Some e \<Rightarrow> maskValue sp iters \<rho> e = Some False)
       (butlast maskExprs)
     \<and> (case last maskExprs of
          None \<Rightarrow> True
        | Some e \<Rightarrow> maskValue sp iters \<rho> e = Some True)"

section \<open>Loads, merges and the states of a run\<close>

text \<open>The \<^verbatim>\<open>fir.array_load\<close> and \<^verbatim>\<open>fir.array_merge_store\<close> operations of a piece of
  code, those inside regions included, in the order of the text.\<close>

fun memoryOpsOf :: "op \<Rightarrow> op list" where
  "memoryOpsOf (ArrayLoadOp ld) = [ArrayLoadOp ld]"
| "memoryOpsOf (ArrayMergeStoreOp ld v) = [ArrayMergeStoreOp ld v]"
| "memoryOpsOf (DoLoopOp k lb ub step unordered innerArg body) =
     concat (map memoryOpsOf body)"
| "memoryOpsOf (IfOp n c thenOps elseOps) =
     concat (map memoryOpsOf thenOps) @ concat (map memoryOpsOf elseOps)"
| "memoryOpsOf _ = []"

text \<open>
  The states in which a \<^verbatim>\<open>fir.result\<close> is executed during the run of an operation,
  each with the value it yields, in the order of execution. The element computed at an
  iteration point and the updated array are evaluated there: the body of the loop nest is
  the \<^verbatim>\<open>fir.result\<close> of the updated array. The function follows \<open>exec\<close>.
\<close>

fun resultStates ::
    "(array_load \<Rightarrow> index list \<Rightarrow> index list) \<Rightarrow> op \<Rightarrow> rt_state \<Rightarrow> (val \<times> rt_state) list" where
  "resultStates viewOf (ResultOp v) s = [(v, s)]"
| "resultStates viewOf (DoLoopOp k lb ub step unordered innerArg body) s =
     (let lbv = evalVal (rt_env s) lb;
          stepv = evalVal (rt_env s) step;
          n = tripCount lbv (evalVal (rt_env s) ub) stepv;
          s0 = (case innerArg of
                  None \<Rightarrow> s\<lparr>yielded := None\<rparr>
                | Some a \<Rightarrow> s\<lparr>yielded := Some (evalArr (rt_env s) a)\<rparr>)
      in fst (fold (\<lambda>j (acc, sj).
                 (let sj0 = bindYielded (RegionIterArg k)
                              (bindScalar (InductionVar k) (lbv + of_nat j * stepv) sj)
                  in (acc @ fst (fold (\<lambda>op (a, t). (a @ resultStates viewOf op t,
                                                      exec viewOf op t)) body ([], sj0)),
                      fold (exec viewOf) body sj0)))
               [0..<n] ([], s0)))"
| "resultStates viewOf (IfOp n c thenOps elseOps) s =
     (if evalVal (rt_env s) c \<noteq> 0
      then fst (fold (\<lambda>op (a, t). (a @ resultStates viewOf op t, exec viewOf op t))
                  thenOps ([], s))
      else fst (fold (\<lambda>op (a, t). (a @ resultStates viewOf op t, exec viewOf op t))
                  elseOps ([], s)))"
| "resultStates viewOf _ s = []"

definition resultStatesOf ::
    "(array_load \<Rightarrow> index list \<Rightarrow> index list) \<Rightarrow> op list \<Rightarrow> rt_state
      \<Rightarrow> (val \<times> rt_state) list" where
  "resultStatesOf viewOf ops s =
     fst (fold (\<lambda>op (a, t). (a @ resultStates viewOf op t, exec viewOf op t)) ops ([], s))"

text \<open>Two states with the same memory and the same values of the loaded arrays.\<close>

definition sameLoads :: "rt_state \<Rightarrow> rt_state \<Rightarrow> bool" where
  "sameLoads s t \<longleftrightarrow>
     mem t = mem s
     \<and> (\<forall>j. arrayOf (rt_env t) (ArrayLoadResult j) = arrayOf (rt_env s) (ArrayLoadResult j))"

text \<open>A lowering step from \<open>st\<close> to \<open>st'\<close> that emits the loads \<open>lds\<close> and nothing
  else, names them with the numbers from \<open>nextId st\<close> on, and keeps the semantics and the
  iteration spaces.\<close>

definition emitsLoads :: "'a ael_scheme \<Rightarrow> 'a ael_scheme \<Rightarrow> array_load list \<Rightarrow> bool" where
  "emitsLoads st st' lds \<longleftrightarrow>
     emitted st' = emitted st @ map ArrayLoadOp lds
     \<and> map ldResult lds = map ArrayLoadResult [nextId st..<nextId st']
     \<and> nextId st \<le> nextId st'
     \<and> semant st' = semant st
     \<and> explicitSpaceActive st' = explicitSpaceActive st
     \<and> implicitSpace st' = implicitSpace st
     \<and> isUnordered st' = isUnordered st"

section \<open>The buffer of an array constructor\<close>

text \<open>
  \<^verbatim>\<open>growBuffer\<close> and \<^verbatim>\<open>copyNextArrayCtorSection\<close> emit straight-line code around one
  \<^verbatim>\<open>fir.if\<close>; they are modelled by the run-time meaning of that code, as functions of the
  run-time values of their operands. The scalar temporaries \<^verbatim>\<open>.buff.pos\<close> and
  \<^verbatim>\<open>.buff.size\<close> are cells named by their address; the buffer is a heap block named by a
  pointer, 0 being the null pointer. Values of type \<^verbatim>\<open>index\<close> are 64-bit words.

  Modelled from the spec: \<^verbatim>\<open>realloc\<close> and \<^verbatim>\<open>memcpy\<close> are the C library's and are not
  among the sources. A block has a size in bytes and holds elements; the element \<open>i\<close> of a
  block of elements of \<open>elemBytes\<close> bytes lies in the block when
  \<open>(i + 1) * elemBytes\<close> is at most the size. \<^verbatim>\<open>realloc\<close> of the null pointer allocates;
  otherwise it needs an allocated block, frees it, and returns a block of the new size that
  holds the elements lying in both the old and the new block; the other elements are what
  the allocator leaves there (\<open>fill\<close>). Where the new block is placed is the allocator's
  choice (\<open>place\<close>); the null pointer as its answer is the failure of the allocation. A
  run that faults (a failed allocation, an access outside a block) has no result.
\<close>

type_synonym pointer = nat

record block =
  blockBytes :: nat
  blockElems :: "nat \<Rightarrow> index"

record allocator =
  place :: "pointer \<Rightarrow> nat \<Rightarrow> pointer"
  fill :: "nat \<Rightarrow> index"

record ctor_state =
  cells :: "nat \<Rightarrow> index"
  heap :: "pointer \<Rightarrow> block option"

definition realloc ::
    "allocator \<Rightarrow> nat \<Rightarrow> ctor_state \<Rightarrow> pointer \<Rightarrow> nat \<Rightarrow> (pointer \<times> ctor_state) option" where
  "realloc al elemBytes s p newBytes =
     (let q = place al p newBytes in
      if q = 0 then None
      else if p = 0 then
        Some (q, s\<lparr>heap := (heap s)(q \<mapsto> \<lparr>blockBytes = newBytes, blockElems = fill al\<rparr>)\<rparr>)
      else
        (case heap s p of
           None \<Rightarrow> None
         | Some b \<Rightarrow>
             Some (q, s\<lparr>heap := ((heap s)(p := None))(q \<mapsto>
                        \<lparr>blockBytes = newBytes,
                         blockElems = (\<lambda>i. if (i + 1) * elemBytes \<le> min (blockBytes b) newBytes
                                            then blockElems b i else fill al i)\<rparr>)\<rparr>)))"

text \<open>\<^verbatim>\<open>memcpy\<close> of \<open>bytes\<close> bytes from the start of the block at \<open>src\<close> to the element
  \<open>off\<close> of the block at \<open>dst\<close>.\<close>

definition memcpy ::
    "nat \<Rightarrow> pointer \<Rightarrow> nat \<Rightarrow> pointer \<Rightarrow> nat \<Rightarrow> ctor_state \<Rightarrow> ctor_state option" where
  "memcpy elemBytes dst off src bytes s =
     (case (heap s dst, heap s src) of
        (Some d, Some b) \<Rightarrow>
          (if off * elemBytes + bytes \<le> blockBytes d \<and> bytes \<le> blockBytes b then
             Some (s\<lparr>heap := (heap s)(dst \<mapsto>
                      d\<lparr>blockElems := (\<lambda>i. if off \<le> i \<and> (i - off + 1) * elemBytes \<le> bytes
                                             then blockElems b (i - off)
                                             else blockElems d i)\<rparr>)\<rparr>)
           else None)
      | _ \<Rightarrow> None)"

text \<open>The store of one element at the element \<open>off\<close> of the block at \<open>dst\<close>
  (\<^verbatim>\<open>fir.coordinate_of\<close> and the scalar assignment).\<close>

definition genScalarAssignment ::
    "nat \<Rightarrow> pointer \<Rightarrow> nat \<Rightarrow> index \<Rightarrow> ctor_state \<Rightarrow> ctor_state option" where
  "genScalarAssignment elemBytes dst off v s =
     (case heap s dst of
        Some d \<Rightarrow>
          (if (off + 1) * elemBytes \<le> blockBytes d then
             Some (s\<lparr>heap := (heap s)(dst \<mapsto> d\<lparr>blockElems := (blockElems d)(off := v)\<rparr>)\<rparr>)
           else None)
      | None \<Rightarrow> None)"

text \<open>
  \<^verbatim>\<open>growBuffer\<close>. \<open>memPtr\<close> (\<^verbatim>\<open>mem\<close> in the source) is the buffer, \<open>needed\<close> the position after the item to be
  copied, \<open>bufferSize\<close> the capacity loaded from the cell \<open>buffSize\<close>, \<open>eleSz\<close> the size
  of an element in bytes. The test is \<^verbatim>\<open>arith.cmpi sle, bufferSize, needed\<close>; in the
  then-region the new capacity \<open>needed * 2\<close> is stored and the buffer is reallocated to
  \<open>needed * 2 * eleSz\<close> bytes; the else-region forwards the buffer.
\<close>

definition growBuffer ::
    "allocator \<Rightarrow> pointer \<Rightarrow> index \<Rightarrow> index \<Rightarrow> nat \<Rightarrow> index \<Rightarrow> ctor_state
      \<Rightarrow> (pointer \<times> ctor_state) option" where
  "growBuffer al memPtr needed bufferSize buffSize eleSz s =
     (let cond = (sint bufferSize \<le> sint needed) in
      if cond then
        (let two = 2;
             newSz = needed * two;
             s1 = s\<lparr>cells := (cells s)(buffSize := newSz)\<rparr>;
             byteSz = newSz * eleSz
         in realloc al (unat eleSz) s1 memPtr (unat byteSz))
      else Some (memPtr, s))"

text \<open>The items of an array constructor that \<^verbatim>\<open>copyNextArrayCtorSection\<close> copies
  here: a scalar of a trivial type, and an array (its address and extents). Character
  items and items of other kinds are outside this part.\<close>

datatype ctor_item =
    TrivialScalar index
  | ArrayBoxValue pointer "index list"

text \<open>\<^verbatim>\<open>copyNextArrayCtorSection\<close> with an element size known at compile time: the
  position and the capacity are loaded, the buffer is grown for the position after the
  item, the item is stored at the position, and the new position is stored.\<close>

definition copyNextArrayCtorSection ::
    "allocator \<Rightarrow> ctor_item \<Rightarrow> nat \<Rightarrow> nat \<Rightarrow> pointer \<Rightarrow> index \<Rightarrow> ctor_state
      \<Rightarrow> (pointer \<times> ctor_state) option" where
  "copyNextArrayCtorSection al exv buffPos buffSize memPtr eleSz s =
     (let off = cells s buffPos;
          limit = cells s buffSize;
          one = 1
      in case exv of
           TrivialScalar v \<Rightarrow>
             (let plusOne = off + one in
              case growBuffer al memPtr plusOne limit buffSize eleSz s of
                None \<Rightarrow> None
              | Some (mem1, s1) \<Rightarrow>
                  (case genScalarAssignment (unat eleSz) mem1 (unat off) v s1 of
                     None \<Rightarrow> None
                   | Some s2 \<Rightarrow> Some (mem1, s2\<lparr>cells := (cells s2)(buffPos := plusOne)\<rparr>)))
         | ArrayBoxValue addr extents \<Rightarrow>
             (let arrSz = fold (\<lambda>ext arrSz. arrSz * ext) extents one;
                  endOff = off + arrSz
              in case growBuffer al memPtr endOff limit buffSize eleSz s of
                   None \<Rightarrow> None
                 | Some (mem1, s1) \<Rightarrow>
                     (let byteSz = arrSz * eleSz in
                      case memcpy (unat eleSz) mem1 (unat off) addr (unat byteSz) s1 of
                        None \<Rightarrow> None
                      | Some s2 \<Rightarrow> Some (mem1, s2\<lparr>cells := (cells s2)(buffPos := endOff)\<rparr>))))"

section \<open>Copy-in and copy-out of array arguments\<close>

text \<open>
  \<^verbatim>\<open>ScalarExprLowering::genCopyIn\<close> and \<^verbatim>\<open>genCopyOut\<close>. The operations they emit
  that have an effect at run time, with the regions of the \<^verbatim>\<open>fir.if\<close> operations:

  \<^item> \<open>IsContiguousCall box\<close>: the call of the runtime's contiguity test
    (\<^verbatim>\<open>fir::runtime::genIsContiguous\<close>), whose result is the value \<open>IsContiguous box\<close>;
  \<^item> \<open>TempAllocMem temp mold\<close>: \<^verbatim>\<open>genArrayTempFromMold\<close>, a \<^verbatim>\<open>fir.allocmem\<close> with
    the extents and type parameters of the mold;
  \<^item> \<open>DerivedTypeInitialize temp\<close>, \<open>DerivedTypeDestroy temp\<close>: the runtime calls on
    the box of the temporary;
  \<^item> \<open>ArrayCopy dest source\<close>: \<^verbatim>\<open>genArrayCopy\<close>, an array assignment;
  \<^item> \<open>AssignTemporary temp source\<close>, \<open>CopyOutAssign dest temp\<close>: the runtime calls,
    with the boxes they are given (the second has no destination when nothing is to be
    copied back);
  \<^item> \<open>ReadBoxValue box\<close>: the reads of a descriptor made by \<^verbatim>\<open>readIfBoxValue\<close>;
  \<^item> \<open>FreeMem temp\<close>: \<^verbatim>\<open>fir.freemem\<close>;
  \<^item> \<open>GenIfOp n cond thenOps elseOps\<close>: \<^verbatim>\<open>builder.genIfOp\<close> with a result, which is
    the value \<open>IfResult n\<close>; \<open>GenIfThen cond thenOps\<close>: \<^verbatim>\<open>builder.genIfThen\<close>;
  \<^item> \<open>Result v\<close>: \<^verbatim>\<open>fir.result\<close>.

  \<^verbatim>\<open>fir.box_addr\<close>, the null constant and the comparisons are values. The boxes and
  temporaries that only carry an operand to a runtime call are not listed.
\<close>

datatype call_op =
    IsContiguousCall val
  | TempAllocMem val val
  | DerivedTypeInitialize val
  | DerivedTypeDestroy val
  | ArrayCopy val val
  | AssignTemporary val val
  | CopyOutAssign "val option" val
  | ReadBoxValue val
  | FreeMem val
  | GenIfOp nat val "call_op list" "call_op list"
  | GenIfThen val "call_op list"
  | Result val

text \<open>\<^verbatim>\<open>struct CopyOutPair\<close>.\<close>

record CopyOutPair =
  pairVar :: ExtendedValue
  pairTemp :: ExtendedValue
  argMayBeModifiedByCall :: bool
  restrictCopyAndFreeAtRuntime :: "val option"

text \<open>What the lowering of a call depends on besides its arguments: the option
  \<^verbatim>\<open>inline-copyinout-for-boxes\<close>, and whether the element type of the argument is a
  derived type.\<close>

record copy_options =
  inlineCopyInOutForBoxes :: bool
  elementIsRecordType :: bool

text \<open>\<^verbatim>\<open>readIfBoxValue\<close>: a descriptor is read into a value that is not based on a
  descriptor; anything else is returned as it is.\<close>

definition readIfBoxValue :: "ExtendedValue \<Rightarrow> call_op list \<times> ExtendedValue" where
  "readIfBoxValue exv =
     (if exvIsBox exv
      then ([ReadBoxValue (exvBase exv)],
            exv\<lparr>exvBase := BoxAddrOp (exvBase exv), exvIsBox := False\<rparr>)
      else ([], exv))"

definition substBase :: "ExtendedValue \<Rightarrow> val \<Rightarrow> ExtendedValue" where
  "substBase exv base = exv\<lparr>exvBase := base\<rparr>"

text \<open>The lambda \<^verbatim>\<open>doCopyIn\<close> of \<^verbatim>\<open>genCopyIn\<close>: the temporary is created from the
  mold; when the dummy argument is not read by the call, needs no finalization and is not
  allocatable, the temporary is not filled (it is initialized if its elements are of a
  derived type); otherwise it is filled by an array copy or by the runtime.\<close>

definition doCopyIn ::
    "copy_options \<Rightarrow> ExtendedValue \<Rightarrow> PassedEntity \<Rightarrow> nat \<Rightarrow> call_op list \<times> ExtendedValue" where
  "doCopyIn opts actualArg arg k =
     (let isActualArgBox = exvIsBox actualArg;
          t = actualArg\<lparr>exvBase := ArrayTemp k, exvIsBox := False\<rparr>;
          create = [TempAllocMem (ArrayTemp k) (exvBase actualArg)]
      in if \<not> mayBeReadByCall arg \<and> \<not> mayRequireIntentoutFinalization arg
            \<and> \<not> hasAllocatableAttribute arg then
           (create @ (if elementIsRecordType opts then [DerivedTypeInitialize (ArrayTemp k)]
                      else []), t)
         else if \<not> isActualArgBox \<or> inlineCopyInOutForBoxes opts then
           (create @ [ArrayCopy (ArrayTemp k) (exvBase actualArg)], t)
         else (create @ [AssignTemporary (ArrayTemp k) (exvBase actualArg)], t))"

text \<open>The lambda \<^verbatim>\<open>combinedCondition\<close>: for a descriptor the condition of the copy-out
  is that the argument is not contiguous, together with the condition given, if any.\<close>

definition combinedCondition :: "bool \<Rightarrow> val \<Rightarrow> val option \<Rightarrow> val option" where
  "combinedCondition isActualArgBox isContiguousResult restrictCopyAtRuntime =
     (if isActualArgBox then
        (let zero = ConstI 0;
             notContiguous = CmpI eq isContiguousResult zero
         in case restrictCopyAtRuntime of
              None \<Rightarrow> Some notContiguous
            | Some r \<Rightarrow> Some (AndI r notContiguous))
      else restrictCopyAtRuntime)"

text \<open>
  \<^verbatim>\<open>genCopyIn\<close>. The result is the operations emitted, the value to pass, and the pair
  added to \<^verbatim>\<open>copyOutPairs\<close>. \<open>k\<close> numbers the temporary and the inner \<^verbatim>\<open>fir.if\<close>,
  \<open>k + 1\<close> the outer one. The contiguity test is emitted first, for a descriptor only and
  before any \<^verbatim>\<open>fir.if\<close>; \<^verbatim>\<open>readIfBoxValue\<close> is the argument of \<^verbatim>\<open>substBase\<close> and is
  emitted after the \<^verbatim>\<open>fir.if\<close>.
\<close>

definition genCopyIn ::
    "copy_options \<Rightarrow> ExtendedValue \<Rightarrow> PassedEntity \<Rightarrow> val option \<Rightarrow> bool \<Rightarrow> nat
      \<Rightarrow> call_op list \<times> ExtendedValue \<times> CopyOutPair" where
  "genCopyIn opts actualArg arg restrictCopyAtRuntime byValue k =
     (let doCopyOut = (\<not> byValue \<and> mayBeModifiedByCall arg);
          isActualArgBox = exvIsBox actualArg;
          isContiguousResult = IsContiguous (exvBase actualArg);
          test = (if isActualArgBox then [IsContiguousCall (exvBase actualArg)] else []);
          noCopy = [Result (BoxAddrOp (exvBase actualArg))];
          copyIn = (case doCopyIn opts actualArg arg k of
                      (ops, t) \<Rightarrow> ops @ [Result (exvBase t)])
      in case restrictCopyAtRuntime of
           None \<Rightarrow>
             (if isActualArgBox then
                (let addr = IfResult k;
                     ifOp = GenIfOp k isContiguousResult noCopy copyIn;
                     t = substBase (snd (readIfBoxValue actualArg)) addr
                 in (test @ [ifOp] @ fst (readIfBoxValue actualArg), t,
                     \<lparr> pairVar = actualArg, pairTemp = t, argMayBeModifiedByCall = doCopyOut,
                       restrictCopyAndFreeAtRuntime =
                         combinedCondition isActualArgBox isContiguousResult None \<rparr>))
              else
                (case doCopyIn opts actualArg arg k of
                   (ops, t) \<Rightarrow>
                     (test @ ops, t,
                      \<lparr> pairVar = actualArg, pairTemp = t, argMayBeModifiedByCall = doCopyOut,
                        restrictCopyAndFreeAtRuntime = None \<rparr>)))
         | Some r \<Rightarrow>
             (let thenOps = (if isActualArgBox
                             then [GenIfOp k isContiguousResult noCopy copyIn,
                                   Result (IfResult k)]
                             else copyIn);
                  ifOp = GenIfOp (k + 1) r thenOps [Result NullConstant];
                  addr = IfResult (k + 1);
                  t = substBase (snd (readIfBoxValue actualArg)) addr
              in (test @ [ifOp] @ fst (readIfBoxValue actualArg), t,
                  \<lparr> pairVar = actualArg, pairTemp = t, argMayBeModifiedByCall = doCopyOut,
                    restrictCopyAndFreeAtRuntime =
                      combinedCondition isActualArgBox isContiguousResult (Some r) \<rparr>)))"

text \<open>\<^verbatim>\<open>genCopyOut\<close>: the copy back (when the argument may have been modified) and the
  release of the temporary, under the condition of the pair if it has one.\<close>

definition genCopyOut :: "copy_options \<Rightarrow> CopyOutPair \<Rightarrow> call_op list" where
  "genCopyOut opts copyOutPair =
     (let isActualArgBox = exvIsBox (pairVar copyOutPair);
          doCopyOut =
            (if \<not> isActualArgBox \<or> inlineCopyInOutForBoxes opts then
               (if argMayBeModifiedByCall copyOutPair
                then [ArrayCopy (exvBase (pairVar copyOutPair)) (exvBase (pairTemp copyOutPair))]
                else [])
               @ (if elementIsRecordType opts
                  then [DerivedTypeDestroy (exvBase (pairTemp copyOutPair))] else [])
               @ [FreeMem (exvBase (pairTemp copyOutPair))]
             else
               [CopyOutAssign
                  (if argMayBeModifiedByCall copyOutPair
                   then Some (exvBase (pairVar copyOutPair)) else None)
                  (exvBase (pairTemp copyOutPair))])
      in case restrictCopyAndFreeAtRuntime copyOutPair of
           None \<Rightarrow> doCopyOut
         | Some r \<Rightarrow> [GenIfThen r doCopyOut])"

subsection \<open>Execution of the emitted call sequence\<close>

text \<open>
  Modelled from the spec: the semantics of \<^verbatim>\<open>fir.if\<close> is not among the sources. A run
  records the operations with an effect in the order they are executed (\<open>events\<close>), the
  value each \<^verbatim>\<open>fir.if\<close> yielded (\<open>results\<close>) and the last value yielded
  (\<open>lastResult\<close>). A \<^verbatim>\<open>fir.if\<close> runs its then-region when its condition is not 0 and
  its else-region otherwise. A yielded value that is the result of an earlier \<^verbatim>\<open>fir.if\<close>
  is replaced by what that one yielded.
\<close>

record call_state =
  events :: "call_op list"
  results :: "nat \<Rightarrow> val option"
  lastResult :: "val option"

definition resolve :: "(nat \<Rightarrow> val option) \<Rightarrow> val \<Rightarrow> val" where
  "resolve r v = (case v of IfResult n \<Rightarrow> (case r n of Some w \<Rightarrow> w | None \<Rightarrow> v) | _ \<Rightarrow> v)"

fun execCall :: "env \<Rightarrow> call_op \<Rightarrow> call_state \<Rightarrow> call_state" where
  "execCall \<rho> (GenIfOp n c thenOps elseOps) s =
     (let s' = (if evalVal \<rho> c \<noteq> 0 then fold (execCall \<rho>) thenOps s
                else fold (execCall \<rho>) elseOps s)
      in s'\<lparr>results := (results s')(n := lastResult s')\<rparr>)"
| "execCall \<rho> (GenIfThen c thenOps) s =
     (if evalVal \<rho> c \<noteq> 0 then fold (execCall \<rho>) thenOps s else s)"
| "execCall \<rho> (Result v) s = s\<lparr>lastResult := Some (resolve (results s) v)\<rparr>"
| "execCall \<rho> leaf s = s\<lparr>events := events s @ [leaf]\<rparr>"

definition runCall :: "env \<Rightarrow> call_op list \<Rightarrow> call_state \<Rightarrow> call_state" where
  "runCall \<rho> ops s = fold (execCall \<rho>) ops s"

definition initialCallState :: call_state where
  "initialCallState = \<lparr> events = [], results = (\<lambda>n. None), lastResult = None \<rparr>"

section \<open>Properties of shape inference\<close>

lemma firstThatMayNotBeAbsent_find:
  "firstThatMayNotBeAbsent ops = find (\<lambda>op. \<not> mayBeAbsent op) ops"
  by (induction ops) simp_all

lemma firstThatMayNotBeAbsent_None:
  "firstThatMayNotBeAbsent ops = None \<longleftrightarrow> (\<forall>j<length ops. mayBeAbsent (ops ! j))"
  by (auto simp: firstThatMayNotBeAbsent_find find_None_iff in_set_conv_nth)

lemma firstThatMayNotBeAbsent_Some:
  "firstThatMayNotBeAbsent ops = Some op \<longleftrightarrow>
     (\<exists>i<length ops. op = ops ! i \<and> \<not> mayBeAbsent (ops ! i)
        \<and> (\<forall>j<i. mayBeAbsent (ops ! j)))"
  by (auto simp: firstThatMayNotBeAbsent_find find_Some_iff)

lemma getInducingShapeArrayOperand_first:
  assumes "ops \<noteq> []"
  shows "\<exists>op. getInducingShapeArrayOperand ops = Inr op \<and>
           ((\<exists>i<length ops. op = ops ! i \<and> \<not> mayBeAbsent (ops ! i)
                \<and> (\<forall>j<i. mayBeAbsent (ops ! j)))
            \<or> ((\<forall>j<length ops. mayBeAbsent (ops ! j)) \<and> op = ops ! 0))"
proof (cases "firstThatMayNotBeAbsent ops")
  case None
  then have "\<forall>j<length ops. mayBeAbsent (ops ! j)"
    by (simp only: firstThatMayNotBeAbsent_None)
  with assms None show ?thesis
    by (simp add: getInducingShapeArrayOperand_def hd_conv_nth)
next
  case (Some op)
  then have "\<exists>i<length ops. op = ops ! i \<and> \<not> mayBeAbsent (ops ! i)
        \<and> (\<forall>j<i. mayBeAbsent (ops ! j))"
    by (simp only: firstThatMayNotBeAbsent_Some)
  with assms Some show ?thesis
    by (simp add: getInducingShapeArrayOperand_def)
qed

lemma firstPassedObject_Some:
  "firstPassedObject args = Some a \<longleftrightarrow>
     (\<exists>i<length args. args ! i = Some a \<and> isPassedObject a
        \<and> (\<forall>j<i. \<forall>b. args ! j = Some b \<longrightarrow> \<not> isPassedObject b))"
proof (induction args rule: firstPassedObject.induct)
  case 1
  show ?case by simp
next
  case (2 args)
  show ?case (is "?l = ?r")
  proof
    assume ?l
    with 2 obtain i where "i < length args" "args ! i = Some a" "isPassedObject a"
      "\<forall>j<i. \<forall>b. args ! j = Some b \<longrightarrow> \<not> isPassedObject b"
      by auto
    then show ?r
      by (intro exI [of _ "Suc i"]) (auto simp: less_Suc_eq_0_disj)
  next
    assume ?r
    then obtain i where i: "i < length (None # args)" "(None # args) ! i = Some a"
      "isPassedObject a"
      "\<forall>j<i. \<forall>b. (None # args) ! j = Some b \<longrightarrow> \<not> isPassedObject b"
      by blast
    then obtain i' where i': "i = Suc i'" by (cases i) auto
    with i have "i' < length args" "args ! i' = Some a"
      "\<forall>j<i'. \<forall>b. args ! j = Some b \<longrightarrow> \<not> isPassedObject b"
      by auto
    with i(3) 2 show ?l by auto
  qed
next
  case (3 arg args)
  show ?case
  proof (cases "isPassedObject arg")
    case True
    show ?thesis (is "?l = ?r")
    proof
      assume ?l
      with True have "arg = a" by simp
      with True show ?r by (intro exI [of _ 0]) simp
    next
      assume ?r
      then obtain i where i: "i < length (Some arg # args)" "(Some arg # args) ! i = Some a"
        "\<forall>j<i. \<forall>b. (Some arg # args) ! j = Some b \<longrightarrow> \<not> isPassedObject b"
        by blast
      have "i = 0"
      proof (rule ccontr)
        assume "i \<noteq> 0"
        then have "0 < i" by simp
        with i(3) have "\<not> isPassedObject arg" by auto
        with True show False by simp
      qed
      with i(2) True show ?l by simp
    qed
  next
    case False
    show ?thesis (is "?l = ?r")
    proof
      assume ?l
      with False 3 obtain i where "i < length args" "args ! i = Some a" "isPassedObject a"
        "\<forall>j<i. \<forall>b. args ! j = Some b \<longrightarrow> \<not> isPassedObject b"
        by auto
      with False show ?r
        by (intro exI [of _ "Suc i"]) (auto simp: less_Suc_eq_0_disj)
    next
      assume ?r
      then obtain i where i: "i < length (Some arg # args)" "(Some arg # args) ! i = Some a"
        "isPassedObject a"
        "\<forall>j<i. \<forall>b. (Some arg # args) ! j = Some b \<longrightarrow> \<not> isPassedObject b"
        by blast
      from i(2,3) False have "i \<noteq> 0" by (cases i) auto
      then obtain i' where i': "i = Suc i'" by (cases i) auto
      with i have "i' < length args" "args ! i' = Some a"
        "\<forall>j<i'. \<forall>b. args ! j = Some b \<longrightarrow> \<not> isPassedObject b"
        by auto
      with i(3) False 3 show ?l by auto
    qed
  qed
qed

lemma firstPassedObject_None:
  "firstPassedObject args = None \<longleftrightarrow> (\<forall>a. Some a \<in> set args \<longrightarrow> \<not> isPassedObject a)"
  by (induction args rule: firstPassedObject.induct) auto

lemma firstPolymorphicDummy_Some:
  "firstPolymorphicDummy ds k = Some idx \<longleftrightarrow>
     (\<exists>i<length ds. idx = k + i \<and> isDummyDataObject (ds ! i) \<and> isPolymorphic (ds ! i)
        \<and> (\<forall>j<i. \<not> (isDummyDataObject (ds ! j) \<and> isPolymorphic (ds ! j))))"
proof (induction ds arbitrary: k)
  case Nil
  show ?case by simp
next
  case (Cons d ds)
  show ?case
  proof (cases "isDummyDataObject d \<and> isPolymorphic d")
    case True
    show ?thesis (is "?l = ?r")
    proof
      assume ?l
      with True have "idx = k" by simp
      with True show ?r by (intro exI [of _ 0]) simp
    next
      assume ?r
      then obtain i where i: "i < length (d # ds)" "idx = k + i"
        "\<forall>j<i. \<not> (isDummyDataObject ((d # ds) ! j) \<and> isPolymorphic ((d # ds) ! j))"
        by blast
      have "i = 0"
      proof (rule ccontr)
        assume "i \<noteq> 0"
        then have "0 < i" by simp
        with i(3) have "\<not> (isDummyDataObject d \<and> isPolymorphic d)" by auto
        with True show False by simp
      qed
      with i(2) True show ?l by simp
    qed
  next
    case False
    show ?thesis (is "?l = ?r")
    proof
      assume ?l
      with False have "firstPolymorphicDummy ds (Suc k) = Some idx" by auto
      with Cons.IH [of "Suc k"] obtain i where "i < length ds" "idx = Suc k + i"
        "isDummyDataObject (ds ! i) \<and> isPolymorphic (ds ! i)"
        "\<forall>j<i. \<not> (isDummyDataObject (ds ! j) \<and> isPolymorphic (ds ! j))"
        by auto
      with False show ?r
        by (intro exI [of _ "Suc i"]) (auto simp: less_Suc_eq_0_disj)
    next
      assume ?r
      then obtain i where i: "i < length (d # ds)" "idx = k + i"
        "isDummyDataObject ((d # ds) ! i) \<and> isPolymorphic ((d # ds) ! i)"
        "\<forall>j<i. \<not> (isDummyDataObject ((d # ds) ! j) \<and> isPolymorphic ((d # ds) ! j))"
        by blast
      from i(3) False have "i \<noteq> 0" by (cases i) auto
      then obtain i' where i': "i = Suc i'" by (cases i) auto
      with i have "i' < length ds" "idx = Suc k + i'"
        "isDummyDataObject (ds ! i') \<and> isPolymorphic (ds ! i')"
        "\<forall>j<i'. \<not> (isDummyDataObject (ds ! j) \<and> isPolymorphic (ds ! j))"
        by auto
      with Cons.IH [of "Suc k"] have "firstPolymorphicDummy ds (Suc k) = Some idx" by blast
      with False show ?l by auto
    qed
  qed
qed

lemma firstPolymorphicDummy_None:
  "firstPolymorphicDummy ds k = None \<longleftrightarrow>
     (\<forall>d\<in>set ds. \<not> (isDummyDataObject d \<and> isPolymorphic d))"
  by (induction ds arbitrary: k) auto

text \<open>
  C3 (as the code has it). The governing shape is found in priority order: the destination
  shape already known; else the shape of the destination's load; else the shape of the
  inducing operand, which is the first operand in source order that cannot be absent, or
  the first operand when all may be absent; else, for an elemental procedure reference with
  a passed object, the extents of the passed object when it has some, and the abort
  ``not yet implemented'' when it has none. The passed object is the first actual argument
  flagged as such, or, when none is flagged, the actual argument at the position of the
  first polymorphic dummy data object. When there is no elemental procedure reference or
  no passed object, the lowering stops with the fatal error
  \<^verbatim>\<open>failed to compute the array expression shape\<close>.
\<close>

theorem genIterationShape_priority:
  "(destShape c \<noteq> [] \<longrightarrow> genIterationShape c = Inr (destShape c))
   \<and> (destShape c = [] \<longrightarrow> (\<forall>load. destination c = Some load \<longrightarrow>
          genIterationShape c = Inr (getShapeOfLoad load)))
   \<and> (destShape c = [] \<and> destination c = None \<and> arrayOperands c \<noteq> [] \<longrightarrow>
          (\<exists>op. genIterationShape c = Inr (getShape op) \<and>
             ((\<exists>i<length (arrayOperands c). op = arrayOperands c ! i
                   \<and> \<not> mayBeAbsent (arrayOperands c ! i)
                   \<and> (\<forall>j<i. mayBeAbsent (arrayOperands c ! j)))
              \<or> ((\<forall>j<length (arrayOperands c). mayBeAbsent (arrayOperands c ! j))
                   \<and> op = arrayOperands c ! 0))))
   \<and> (destShape c = [] \<and> destination c = None \<and> arrayOperands c = [] \<longrightarrow>
          (\<forall>procRef passArg. loweredProcRef c = Some procRef \<and> IsElemental procRef
              \<and> ((\<exists>i<length (arguments procRef).
                       arguments procRef ! i = Some passArg \<and> isPassedObject passArg
                       \<and> (\<forall>j<i. \<forall>b. arguments procRef ! j = Some b \<longrightarrow> \<not> isPassedObject b))
                   \<or> ((\<forall>a. Some a \<in> set (arguments procRef) \<longrightarrow> \<not> isPassedObject a)
                       \<and> (\<exists>i<length (dummyArguments procRef).
                             isDummyDataObject (dummyArguments procRef ! i)
                             \<and> isPolymorphic (dummyArguments procRef ! i)
                             \<and> (\<forall>j<i. \<not> (isDummyDataObject (dummyArguments procRef ! j)
                                           \<and> isPolymorphic (dummyArguments procRef ! j)))
                             \<and> i < length (arguments procRef)
                             \<and> arguments procRef ! i = Some passArg))) \<longrightarrow>
            genIterationShape c =
              (if argExtents passArg = []
               then Inl (NotYetImplemented
                      (''getting shape from polymorphic array in elemental '' @
                       ''procedure reference''))
               else Inr (argExtents passArg))))
   \<and> (destShape c = [] \<and> destination c = None \<and> arrayOperands c = []
        \<and> (\<forall>procRef. loweredProcRef c = Some procRef \<longrightarrow>
              \<not> IsElemental procRef
              \<or> ((\<forall>a. Some a \<in> set (arguments procRef) \<longrightarrow> \<not> isPassedObject a)
                  \<and> (\<forall>i<length (dummyArguments procRef).
                        isDummyDataObject (dummyArguments procRef ! i)
                        \<and> isPolymorphic (dummyArguments procRef ! i)
                        \<and> (\<forall>j<i. \<not> (isDummyDataObject (dummyArguments procRef ! j)
                                      \<and> isPolymorphic (dummyArguments procRef ! j)))
                        \<longrightarrow> \<not> i < length (arguments procRef)
                            \<or> arguments procRef ! i = None))) \<longrightarrow>
          genIterationShape c =
            Inl (FatalError ''failed to compute the array expression shape''))"
proof (intro conjI impI allI)
  assume "destShape c \<noteq> []"
  then show "genIterationShape c = Inr (destShape c)"
    by (simp add: genIterationShape_def)
next
  fix load
  assume "destShape c = []" "destination c = Some load"
  then show "genIterationShape c = Inr (getShapeOfLoad load)"
    by (simp add: genIterationShape_def)
next
  assume h: "destShape c = [] \<and> destination c = None \<and> arrayOperands c \<noteq> []"
  then obtain op where
    op: "getInducingShapeArrayOperand (arrayOperands c) = Inr op"
    and first: "(\<exists>i<length (arrayOperands c). op = arrayOperands c ! i
                   \<and> \<not> mayBeAbsent (arrayOperands c ! i)
                   \<and> (\<forall>j<i. mayBeAbsent (arrayOperands c ! j)))
              \<or> ((\<forall>j<length (arrayOperands c). mayBeAbsent (arrayOperands c ! j))
                   \<and> op = arrayOperands c ! 0)"
    using getInducingShapeArrayOperand_first [of "arrayOperands c"] by blast
  from h op have "genIterationShape c = Inr (getShape op)"
    by (simp add: genIterationShape_def)
  with first show "\<exists>op. genIterationShape c = Inr (getShape op) \<and>
             ((\<exists>i<length (arrayOperands c). op = arrayOperands c ! i
                   \<and> \<not> mayBeAbsent (arrayOperands c ! i)
                   \<and> (\<forall>j<i. mayBeAbsent (arrayOperands c ! j)))
              \<or> ((\<forall>j<length (arrayOperands c). mayBeAbsent (arrayOperands c ! j))
                   \<and> op = arrayOperands c ! 0))"
    by blast
next
  fix procRef passArg
  assume h: "destShape c = [] \<and> destination c = None \<and> arrayOperands c = []"
    and p: "loweredProcRef c = Some procRef \<and> IsElemental procRef
              \<and> ((\<exists>i<length (arguments procRef).
                       arguments procRef ! i = Some passArg \<and> isPassedObject passArg
                       \<and> (\<forall>j<i. \<forall>b. arguments procRef ! j = Some b \<longrightarrow> \<not> isPassedObject b))
                   \<or> ((\<forall>a. Some a \<in> set (arguments procRef) \<longrightarrow> \<not> isPassedObject a)
                       \<and> (\<exists>i<length (dummyArguments procRef).
                             isDummyDataObject (dummyArguments procRef ! i)
                             \<and> isPolymorphic (dummyArguments procRef ! i)
                             \<and> (\<forall>j<i. \<not> (isDummyDataObject (dummyArguments procRef ! j)
                                           \<and> isPolymorphic (dummyArguments procRef ! j)))
                             \<and> i < length (arguments procRef)
                             \<and> arguments procRef ! i = Some passArg)))"
  have "extractPassedArgFromProcRef procRef = Some passArg"
  proof (cases "firstPassedObject (arguments procRef)")
    case (Some a)
    then have fl: "\<not> (\<forall>a. Some a \<in> set (arguments procRef) \<longrightarrow> \<not> isPassedObject a)"
      using firstPassedObject_None [of "arguments procRef"] by simp
    with p have "\<exists>i<length (arguments procRef).
                       arguments procRef ! i = Some passArg \<and> isPassedObject passArg
                       \<and> (\<forall>j<i. \<forall>b. arguments procRef ! j = Some b \<longrightarrow> \<not> isPassedObject b)"
      by blast
    then have "firstPassedObject (arguments procRef) = Some passArg"
      by (simp only: firstPassedObject_Some)
    then show ?thesis by (simp add: extractPassedArgFromProcRef_def)
  next
    case None
    then have no: "\<forall>a. Some a \<in> set (arguments procRef) \<longrightarrow> \<not> isPassedObject a"
      by (simp only: firstPassedObject_None)
    have "\<not> (\<exists>i<length (arguments procRef).
                       arguments procRef ! i = Some passArg \<and> isPassedObject passArg
                       \<and> (\<forall>j<i. \<forall>b. arguments procRef ! j = Some b \<longrightarrow> \<not> isPassedObject b))"
    proof
      assume "\<exists>i<length (arguments procRef).
                       arguments procRef ! i = Some passArg \<and> isPassedObject passArg
                       \<and> (\<forall>j<i. \<forall>b. arguments procRef ! j = Some b \<longrightarrow> \<not> isPassedObject b)"
      then obtain i where "i < length (arguments procRef)"
        "arguments procRef ! i = Some passArg" "isPassedObject passArg"
        by blast
      then have "Some passArg \<in> set (arguments procRef)" "isPassedObject passArg"
        using nth_mem [of i "arguments procRef"] by simp_all
      with no show False by simp
    qed
    with p obtain i where i: "i < length (dummyArguments procRef)"
      "isDummyDataObject (dummyArguments procRef ! i)"
      "isPolymorphic (dummyArguments procRef ! i)"
      "\<forall>j<i. \<not> (isDummyDataObject (dummyArguments procRef ! j)
                    \<and> isPolymorphic (dummyArguments procRef ! j))"
      "i < length (arguments procRef)" "arguments procRef ! i = Some passArg"
      by blast
    then have "firstPolymorphicDummy (dummyArguments procRef) 0 = Some i"
      unfolding firstPolymorphicDummy_Some by (intro exI [of _ i]) simp
    with None i(5,6) show ?thesis by (simp add: extractPassedArgFromProcRef_def)
  qed
  with h p show "genIterationShape c =
              (if argExtents passArg = []
               then Inl (NotYetImplemented
                      (''getting shape from polymorphic array in elemental '' @
                       ''procedure reference''))
               else Inr (argExtents passArg))"
    by (simp add: genIterationShape_def)
next
  assume h: "destShape c = [] \<and> destination c = None \<and> arrayOperands c = []
        \<and> (\<forall>procRef. loweredProcRef c = Some procRef \<longrightarrow>
              \<not> IsElemental procRef
              \<or> ((\<forall>a. Some a \<in> set (arguments procRef) \<longrightarrow> \<not> isPassedObject a)
                  \<and> (\<forall>i<length (dummyArguments procRef).
                        isDummyDataObject (dummyArguments procRef ! i)
                        \<and> isPolymorphic (dummyArguments procRef ! i)
                        \<and> (\<forall>j<i. \<not> (isDummyDataObject (dummyArguments procRef ! j)
                                      \<and> isPolymorphic (dummyArguments procRef ! j)))
                        \<longrightarrow> \<not> i < length (arguments procRef)
                            \<or> arguments procRef ! i = None)))"
  have none: "extractPassedArgFromProcRef procRef = None"
    if "loweredProcRef c = Some procRef" "IsElemental procRef" for procRef
  proof -
    note d = h [THEN conjunct2, THEN conjunct2, THEN conjunct2, THEN spec, THEN mp, OF that(1)]
    from d that(2) have no: "\<forall>a. Some a \<in> set (arguments procRef) \<longrightarrow> \<not> isPassedObject a"
      and dm: "\<forall>i<length (dummyArguments procRef).
                        isDummyDataObject (dummyArguments procRef ! i)
                        \<and> isPolymorphic (dummyArguments procRef ! i)
                        \<and> (\<forall>j<i. \<not> (isDummyDataObject (dummyArguments procRef ! j)
                                      \<and> isPolymorphic (dummyArguments procRef ! j)))
                        \<longrightarrow> \<not> i < length (arguments procRef)
                            \<or> arguments procRef ! i = None"
      by simp_all
    from no have f: "firstPassedObject (arguments procRef) = None"
      by (simp only: firstPassedObject_None)
    show ?thesis
    proof (cases "firstPolymorphicDummy (dummyArguments procRef) 0")
      case None
      with f show ?thesis by (simp add: extractPassedArgFromProcRef_def)
    next
      case (Some idx)
      then have "idx < length (dummyArguments procRef)
                 \<and> isDummyDataObject (dummyArguments procRef ! idx)
                 \<and> isPolymorphic (dummyArguments procRef ! idx)
                 \<and> (\<forall>j<idx. \<not> (isDummyDataObject (dummyArguments procRef ! j)
                                \<and> isPolymorphic (dummyArguments procRef ! j)))"
        unfolding firstPolymorphicDummy_Some by auto
      with dm [THEN spec, of idx]
      have "\<not> idx < length (arguments procRef) \<or> arguments procRef ! idx = None"
        by simp
      then show ?thesis
      proof
        assume "\<not> idx < length (arguments procRef)"
        with f Some show ?thesis by (simp add: extractPassedArgFromProcRef_def)
      next
        assume "arguments procRef ! idx = None"
        with f Some show ?thesis by (simp add: extractPassedArgFromProcRef_def)
      qed
    qed
  qed
  show "genIterationShape c =
            Inl (FatalError ''failed to compute the array expression shape'')"
  proof (cases "loweredProcRef c")
    case None
    with h show ?thesis by (simp add: genIterationShape_def)
  next
    case (Some procRef)
    show ?thesis
    proof (cases "IsElemental procRef")
      case True
      with Some h none [OF Some True] show ?thesis by (simp add: genIterationShape_def)
    next
      case False
      with Some h show ?thesis by (simp add: genIterationShape_def)
    qed
  qed
qed

theorem genIterationShape_priority_witness:
  "genIterationShape
     \<lparr> destShape = [Val 1],
       destination = Some \<lparr> ldResult = ArrayLoadResult 0, ldMemref = Val 2,
                             ldMemrefIsBox = False, ldMemrefRank = 1,
                             ldShape = Some (ShapeOp [Val 6]), ldSlice = None \<rparr>,
       arrayOperands = [], loweredProcRef = None \<rparr> = Inr [Val 1]
   \<and> genIterationShape
     \<lparr> destShape = [],
       destination = Some \<lparr> ldResult = ArrayLoadResult 0, ldMemref = Val 2,
                             ldMemrefIsBox = False, ldMemrefRank = 1,
                             ldShape = Some (ShapeOp [Val 6]), ldSlice = None \<rparr>,
       arrayOperands = [\<lparr> memref = Val 4, memrefIsBox = False, memrefRank = 1,
                          shape = Some (ShapeOp [Val 5]), slice = None,
                          mayBeAbsent = False \<rparr>],
       loweredProcRef = None \<rparr> = Inr [Val 6]
   \<and> genIterationShape
     \<lparr> destShape = [], destination = None,
       arrayOperands = [\<lparr> memref = Val 2, memrefIsBox = False, memrefRank = 1,
                          shape = Some (ShapeOp [Val 3]), slice = None, mayBeAbsent = True \<rparr>,
                        \<lparr> memref = Val 4, memrefIsBox = False, memrefRank = 1,
                          shape = Some (ShapeOp [Val 5]), slice = None,
                          mayBeAbsent = False \<rparr>],
       loweredProcRef = None \<rparr> = Inr [Val 5]
   \<and> genIterationShape
     \<lparr> destShape = [], destination = None, arrayOperands = [],
       loweredProcRef = Some
         \<lparr> IsElemental = True, procSymbol = None, GetSpecificIntrinsic = False,
           isIntrinsicModuleProcRef = False, isStatementFunctionCall = False,
           isOptimizableTranspose = False,
           arguments = [None,
                        Some \<lparr> isPassedObject = False, argExtents = [Val 7],
                               UnwrapExpr = None \<rparr>,
                        Some \<lparr> isPassedObject = True, argExtents = [Val 8],
                               UnwrapExpr = None \<rparr>],
           dummyArguments = [], passedArguments = [], getIfIndirectCall = False \<rparr> \<rparr>
       = Inr [Val 8]
   \<and> genIterationShape
     \<lparr> destShape = [], destination = None, arrayOperands = [],
       loweredProcRef = Some
         \<lparr> IsElemental = True, procSymbol = None, GetSpecificIntrinsic = False,
           isIntrinsicModuleProcRef = False, isStatementFunctionCall = False,
           isOptimizableTranspose = False,
           arguments = [Some \<lparr> isPassedObject = False, argExtents = [Val 7],
                               UnwrapExpr = None \<rparr>,
                        Some \<lparr> isPassedObject = False, argExtents = [Val 9],
                               UnwrapExpr = None \<rparr>],
           dummyArguments = [\<lparr> isDummyDataObject = True, isPolymorphic = False \<rparr>,
                             \<lparr> isDummyDataObject = True, isPolymorphic = True \<rparr>],
           passedArguments = [], getIfIndirectCall = False \<rparr> \<rparr>
       = Inr [Val 9]
   \<and> genIterationShape
     \<lparr> destShape = [], destination = None, arrayOperands = [],
       loweredProcRef = Some
         \<lparr> IsElemental = False, procSymbol = None, GetSpecificIntrinsic = False,
           isIntrinsicModuleProcRef = False, isStatementFunctionCall = False,
           isOptimizableTranspose = False,
           arguments = [Some \<lparr> isPassedObject = True, argExtents = [Val 8],
                               UnwrapExpr = None \<rparr>],
           dummyArguments = [], passedArguments = [], getIfIndirectCall = False \<rparr> \<rparr>
       = Inl (FatalError ''failed to compute the array expression shape'')"
proof -
  let ?load = "\<lparr> ldResult = ArrayLoadResult 0, ldMemref = Val 2,
                 ldMemrefIsBox = False, ldMemrefRank = 1,
                 ldShape = Some (ShapeOp [Val 6]), ldSlice = None \<rparr>"
  let ?o1 = "\<lparr> memref = Val 2, memrefIsBox = False, memrefRank = 1,
               shape = Some (ShapeOp [Val 3]), slice = None, mayBeAbsent = True \<rparr>"
  let ?o2 = "\<lparr> memref = Val 4, memrefIsBox = False, memrefRank = 1,
               shape = Some (ShapeOp [Val 5]), slice = None, mayBeAbsent = False \<rparr>"
  let ?c1 = "\<lparr> destShape = [Val 1], destination = Some ?load,
               arrayOperands = [], loweredProcRef = None \<rparr>"
  let ?c2 = "\<lparr> destShape = [], destination = Some ?load,
               arrayOperands = [?o2], loweredProcRef = None \<rparr>"
  let ?c3 = "\<lparr> destShape = [], destination = None,
               arrayOperands = [?o1, ?o2], loweredProcRef = None \<rparr>"
  let ?a7 = "\<lparr> isPassedObject = False, argExtents = [Val 7], UnwrapExpr = None \<rparr>"
  let ?a8 = "\<lparr> isPassedObject = True, argExtents = [Val 8], UnwrapExpr = None \<rparr>"
  let ?a9 = "\<lparr> isPassedObject = False, argExtents = [Val 9], UnwrapExpr = None \<rparr>"
  let ?p4 = "\<lparr> IsElemental = True, procSymbol = None, GetSpecificIntrinsic = False,
           isIntrinsicModuleProcRef = False, isStatementFunctionCall = False,
           isOptimizableTranspose = False,
           arguments = [None, Some ?a7, Some ?a8],
           dummyArguments = [], passedArguments = [], getIfIndirectCall = False \<rparr>"
  let ?p5 = "\<lparr> IsElemental = True, procSymbol = None, GetSpecificIntrinsic = False,
           isIntrinsicModuleProcRef = False, isStatementFunctionCall = False,
           isOptimizableTranspose = False,
           arguments = [Some ?a7, Some ?a9],
           dummyArguments = [\<lparr> isDummyDataObject = True, isPolymorphic = False \<rparr>,
                             \<lparr> isDummyDataObject = True, isPolymorphic = True \<rparr>],
           passedArguments = [], getIfIndirectCall = False \<rparr>"
  let ?p6 = "\<lparr> IsElemental = False, procSymbol = None, GetSpecificIntrinsic = False,
           isIntrinsicModuleProcRef = False, isStatementFunctionCall = False,
           isOptimizableTranspose = False,
           arguments = [Some ?a8],
           dummyArguments = [], passedArguments = [], getIfIndirectCall = False \<rparr>"
  let ?c4 = "\<lparr> destShape = [], destination = None, arrayOperands = [],
               loweredProcRef = Some ?p4 \<rparr>"
  let ?c5 = "\<lparr> destShape = [], destination = None, arrayOperands = [],
               loweredProcRef = Some ?p5 \<rparr>"
  let ?c6 = "\<lparr> destShape = [], destination = None, arrayOperands = [],
               loweredProcRef = Some ?p6 \<rparr>"
  have r1: "genIterationShape ?c1 = Inr [Val 1]"
    using genIterationShape_priority [of ?c1, THEN conjunct1] by simp
  have "genIterationShape ?c2 = Inr (getShapeOfLoad ?load)"
    using genIterationShape_priority [of ?c2, THEN conjunct2, THEN conjunct1] by simp
  then have r2: "genIterationShape ?c2 = Inr [Val 6]"
    by (simp add: getShapeOfLoad_def getShape_def)
  from genIterationShape_priority [of ?c3, THEN conjunct2, THEN conjunct2, THEN conjunct1]
  obtain op where op: "genIterationShape ?c3 = Inr (getShape op)"
    and first: "(\<exists>i<length [?o1, ?o2]. op = [?o1, ?o2] ! i \<and> \<not> mayBeAbsent ([?o1, ?o2] ! i)
                   \<and> (\<forall>j<i. mayBeAbsent ([?o1, ?o2] ! j)))
              \<or> ((\<forall>j<length [?o1, ?o2]. mayBeAbsent ([?o1, ?o2] ! j)) \<and> op = [?o1, ?o2] ! 0)"
    by auto
  from first have "op = ?o2"
    by (auto simp: less_Suc_eq_0_disj nth_Cons')
  with op have r3: "genIterationShape ?c3 = Inr [Val 5]"
    by (simp add: getShape_def)
  have g4: "destShape ?c4 = [] \<and> destination ?c4 = None \<and> arrayOperands ?c4 = []" by simp
  have h4: "\<exists>i<length (arguments ?p4).
              arguments ?p4 ! i = Some ?a8 \<and> isPassedObject ?a8
              \<and> (\<forall>j<i. \<forall>b. arguments ?p4 ! j = Some b \<longrightarrow> \<not> isPassedObject b)"
    by (intro exI [of _ 2]) (auto simp: less_Suc_eq_0_disj nth_Cons' numeral_2_eq_2)
  have l4: "loweredProcRef ?c4 = Some ?p4" by simp
  have e4: "IsElemental ?p4" by simp
  note p4 = conjI [OF l4 conjI [OF e4 disjI1 [OF h4]]]
  from genIterationShape_priority [of ?c4, THEN conjunct2, THEN conjunct2, THEN conjunct2,
        THEN conjunct1, THEN mp, OF g4, THEN spec, THEN spec, THEN mp, OF p4]
  have r4: "genIterationShape ?c4 = Inr [Val 8]"
    by simp
  have g5: "destShape ?c5 = [] \<and> destination ?c5 = None \<and> arrayOperands ?c5 = []" by simp
  have h5: "(\<forall>a. Some a \<in> set (arguments ?p5) \<longrightarrow> \<not> isPassedObject a)
            \<and> (\<exists>i<length (dummyArguments ?p5).
                  isDummyDataObject (dummyArguments ?p5 ! i)
                  \<and> isPolymorphic (dummyArguments ?p5 ! i)
                  \<and> (\<forall>j<i. \<not> (isDummyDataObject (dummyArguments ?p5 ! j)
                                \<and> isPolymorphic (dummyArguments ?p5 ! j)))
                  \<and> i < length (arguments ?p5)
                  \<and> arguments ?p5 ! i = Some ?a9)"
    by (intro conjI exI [of _ 1]) auto
  have l5: "loweredProcRef ?c5 = Some ?p5" by simp
  have e5: "IsElemental ?p5" by simp
  note p5 = conjI [OF l5 conjI [OF e5 disjI2 [OF h5]]]
  from genIterationShape_priority [of ?c5, THEN conjunct2, THEN conjunct2, THEN conjunct2,
        THEN conjunct1, THEN mp, OF g5, THEN spec, THEN spec, THEN mp, OF p5]
  have r5: "genIterationShape ?c5 = Inr [Val 9]"
    by simp
  have n6: "\<forall>procRef. loweredProcRef ?c6 = Some procRef \<longrightarrow>
              \<not> IsElemental procRef
              \<or> ((\<forall>a. Some a \<in> set (arguments procRef) \<longrightarrow> \<not> isPassedObject a)
                  \<and> (\<forall>i<length (dummyArguments procRef).
                        isDummyDataObject (dummyArguments procRef ! i)
                        \<and> isPolymorphic (dummyArguments procRef ! i)
                        \<and> (\<forall>j<i. \<not> (isDummyDataObject (dummyArguments procRef ! j)
                                      \<and> isPolymorphic (dummyArguments procRef ! j)))
                        \<longrightarrow> \<not> i < length (arguments procRef)
                            \<or> arguments procRef ! i = None))"
  proof (intro allI impI disjI1)
    fix procRef
    assume "loweredProcRef ?c6 = Some procRef"
    then have "procRef = ?p6" by simp
    then show "\<not> IsElemental procRef" by simp
  qed
  have g6: "destShape ?c6 = [] \<and> destination ?c6 = None \<and> arrayOperands ?c6 = []" by simp
  have "destShape ?c6 = []" "destination ?c6 = None" "arrayOperands ?c6 = []" by simp_all
  note p6 = conjI [OF this(1) conjI [OF this(2) conjI [OF this(3) n6]]]
  from genIterationShape_priority [of ?c6, THEN conjunct2, THEN conjunct2, THEN conjunct2,
        THEN conjunct2, THEN mp, OF p6]
  have r6: "genIterationShape ?c6
              = Inl (FatalError ''failed to compute the array expression shape'')" .
  from r1 r2 r3 r4 r5 r6 show ?thesis by (intro conjI)
qed

text \<open>
  C3 (as stated). An elemental procedure reference whose passed object has no extents, with
  no destination and no array operand: the passed object is found, and the lowering
  neither takes its shape nor stops with the fatal shape-inference error; it aborts as
  not yet implemented.
\<close>

theorem genIterationShape_passed_object_without_extents:
  "extractPassedArgFromProcRef
     \<lparr> IsElemental = True, procSymbol = None, GetSpecificIntrinsic = False,
       isIntrinsicModuleProcRef = False, isStatementFunctionCall = False,
       isOptimizableTranspose = False,
       arguments = [Some \<lparr> isPassedObject = True, argExtents = [], UnwrapExpr = None \<rparr>],
       dummyArguments = [], passedArguments = [], getIfIndirectCall = False \<rparr>
     = Some \<lparr> isPassedObject = True, argExtents = [], UnwrapExpr = None \<rparr>
   \<and> genIterationShape
     \<lparr> destShape = [], destination = None, arrayOperands = [],
       loweredProcRef = Some
         \<lparr> IsElemental = True, procSymbol = None, GetSpecificIntrinsic = False,
           isIntrinsicModuleProcRef = False, isStatementFunctionCall = False,
           isOptimizableTranspose = False,
           arguments = [Some \<lparr> isPassedObject = True, argExtents = [],
                               UnwrapExpr = None \<rparr>],
           dummyArguments = [], passedArguments = [], getIfIndirectCall = False \<rparr> \<rparr>
       = Inl (NotYetImplemented
               (''getting shape from polymorphic array in elemental '' @
                ''procedure reference''))"
  by (simp add: extractPassedArgFromProcRef_def genIterationShape_def)

section \<open>Properties of vector subscripts\<close>

lemma evalVal_select_sgt:
  "sint (evalVal \<rho> (SelectOp (CmpI sgt a b) b a)) = min (sint (evalVal \<rho> a)) (sint (evalVal \<rho> b))"
  by (simp add: min_def)

text \<open>
  C10. When the extent of a vector subscript is not the SSA value already computed for the
  destination in that dimension, \<^verbatim>\<open>genVectorSubscriptArrayFetch\<close> succeeds and replaces
  the governing extent of that dimension by a value that at run time is the smaller (as
  signed integers) of the vector's extent and the destination's extent; the extents of the
  other dimensions are kept. The loops built from the shape therefore stop at the shorter of
  the two.
\<close>

theorem genVectorSubscriptArrayFetch_min:
  assumes "vecShape expr = [ext]" and "dim < length saved" and "ext \<noteq> saved ! dim"
  shows "\<exists>ds. genVectorSubscriptArrayFetch saved expr dim = Inr (vecFetch expr, ds)
           \<and> length ds = length saved
           \<and> (\<forall>k<length saved. k \<noteq> dim \<longrightarrow> ds ! k = saved ! k)
           \<and> (\<forall>\<rho>. sint (evalVal \<rho> (ds ! dim)) =
                     min (sint (evalVal \<rho> ext)) (sint (evalVal \<rho> (saved ! dim))))"
proof -
  let ?sel = "SelectOp (CmpI sgt ext (saved ! dim)) (saved ! dim) ext"
  from assms have run:
    "genVectorSubscriptArrayFetch saved expr dim = Inr (vecFetch expr, saved[dim := ?sel])"
    by (simp add: genVectorSubscriptArrayFetch_def Let_def)
  have len: "length (saved[dim := ?sel]) = length saved"
    by simp
  have others: "\<forall>k<length saved. k \<noteq> dim \<longrightarrow> saved[dim := ?sel] ! k = saved ! k"
    by simp
  have at_dim: "saved[dim := ?sel] ! dim = ?sel"
    using assms(2) by simp
  have "\<forall>\<rho>. sint (evalVal \<rho> (saved[dim := ?sel] ! dim)) =
                     min (sint (evalVal \<rho> ext)) (sint (evalVal \<rho> (saved ! dim)))"
    unfolding at_dim by (simp only: evalVal_select_sgt) simp
  with run len others show ?thesis
    by blast
qed

theorem genVectorSubscriptArrayFetch_min_witness:
  "(let expr = \<lparr> vecFetch = (\<lambda>iters. Inr (ArrayFetchOp (Val 9) (indices iters))),
                  vecShape = [Val 1] \<rparr>;
        saved = [Val 0, Val 2]
    in vecShape expr = [Val 1] \<and> (1::nat) < length saved \<and> Val 1 \<noteq> saved ! 1
       \<and> (\<exists>ds. genVectorSubscriptArrayFetch saved expr 1 = Inr (vecFetch expr, ds)
           \<and> length ds = length saved
           \<and> (\<forall>k<length saved. k \<noteq> 1 \<longrightarrow> ds ! k = saved ! k)
           \<and> (\<forall>\<rho>. sint (evalVal \<rho> (ds ! 1)) =
                     min (sint (evalVal \<rho> (Val 1))) (sint (evalVal \<rho> (saved ! 1))))))"
proof -
  let ?expr = "\<lparr> vecFetch = (\<lambda>iters. Inr (ArrayFetchOp (Val 9) (indices iters))),
                  vecShape = [Val 1] \<rparr>"
  let ?saved = "[Val 0, Val 2]"
  have h1: "vecShape ?expr = [Val 1]" by simp
  have h2: "(1::nat) < length ?saved" by simp
  have h3: "Val 1 \<noteq> ?saved ! 1" by simp
  show ?thesis
    unfolding Let_def
    using h1 h2 h3 genVectorSubscriptArrayFetch_min [OF h1 h2 h3] by blast
qed
section \<open>Properties of vector subscripts in a component path\<close>




section \<open>Properties of the ordering flag\<close>










section \<open>Properties of the mask engine\<close>














section \<open>Properties of the mask conditions\<close>

lemma yield_if_result:
  assumes "yielded t \<noteq> None"
  shows "yielded (exec viewOf (ResultOp (IfResult n)) (bindYielded (IfResult n) t)) = yielded t"
    and "mem (exec viewOf (ResultOp (IfResult n)) (bindYielded (IfResult n) t)) = mem t"
  using assms by (auto simp: bindYielded_def bindArray_def)

lemma run_genFalseBlock:
  "run viewOf (genFalseBlock n innerArg cond hole) s =
     exec viewOf (ResultOp (IfResult n))
       (bindYielded (IfResult n)
          (if evalVal (rt_env s) cond \<noteq> 0
           then s\<lparr>yielded := Some (evalArr (rt_env s) innerArg)\<rparr>
           else run viewOf hole s))"
  by (simp add: run_def genFalseBlock_def)

lemma run_genTrueBlock:
  "run viewOf (genTrueBlock n innerArg cond hole) s =
     exec viewOf (ResultOp (IfResult n))
       (bindYielded (IfResult n)
          (if evalVal (rt_env s) cond \<noteq> 0
           then run viewOf hole s
           else s\<lparr>yielded := Some (evalArr (rt_env s) innerArg)\<rparr>))"
  by (simp add: run_def genTrueBlock_def)

lemma run_genFalseBlocks:
  assumes "genFalseBlocks sp iters innerArg es n = Inr (ctx, n')"
    and "yielded (run viewOf hole s) \<noteq> None"
  shows "if (\<forall>e cond. Some e \<in> set es \<longrightarrow> genCond sp e iters = Inr cond \<longrightarrow>
               evalVal (rt_env s) cond = 0)
         then yielded (run viewOf (ctx hole) s) = yielded (run viewOf hole s)
              \<and> mem (run viewOf (ctx hole) s) = mem (run viewOf hole s)
         else yielded (run viewOf (ctx hole) s) = Some (evalArr (rt_env s) innerArg)
              \<and> mem (run viewOf (ctx hole) s) = mem s"
  using assms(1)
proof (induction es arbitrary: n ctx)
  case Nil
  then have "ctx = (\<lambda>hole. hole)" by auto
  then show ?case by simp
next
  case (Cons x es)
  show ?case
  proof (cases x)
    case None
    with Cons.prems have "genFalseBlocks sp iters innerArg es n = Inr (ctx, n')" by simp
    from Cons.IH [OF this] None show ?thesis by simp
  next
    case (Some e)
    with Cons.prems obtain cond ctx0 where
      cond: "genCond sp e iters = Inr cond"
      and rest: "genFalseBlocks sp iters innerArg es (Suc n) = Inr (ctx0, n')"
      and ctx: "ctx = (\<lambda>hole. genFalseBlock n innerArg cond (ctx0 hole))"
      by (auto split: sum.splits)
    note IH = Cons.IH [OF rest]
    let ?rest_false = "\<forall>e cond. Some e \<in> set es \<longrightarrow> genCond sp e iters = Inr cond \<longrightarrow>
               evalVal (rt_env s) cond = 0"
    show ?thesis
    proof (cases "evalVal (rt_env s) cond \<noteq> 0")
      case True
      let ?t = "s\<lparr>yielded := Some (evalArr (rt_env s) innerArg)\<rparr>"
      have run: "run viewOf (ctx hole) s =
                   exec viewOf (ResultOp (IfResult n)) (bindYielded (IfResult n) ?t)"
        using True by (simp add: ctx run_genFalseBlock)
      have y: "yielded ?t \<noteq> None" by simp
      have y1: "yielded (run viewOf (ctx hole) s) = Some (evalArr (rt_env s) innerArg)"
        unfolding run using yield_if_result(1) [OF y] by simp
      have m1: "mem (run viewOf (ctx hole) s) = mem s"
        unfolding run using yield_if_result(2) [OF y] by simp
      have notP: "\<not> (\<forall>e cond. Some e \<in> set (x # es) \<longrightarrow>
               genCond sp e iters = Inr cond \<longrightarrow> evalVal (rt_env s) cond = 0)"
        using True cond Some by auto
      show ?thesis
        unfolding if_not_P [OF notP] using y1 m1 by (rule conjI)
    next
      case False
      let ?t = "run viewOf (ctx0 hole) s"
      have run: "run viewOf (ctx hole) s =
                   exec viewOf (ResultOp (IfResult n)) (bindYielded (IfResult n) ?t)"
        using False by (simp add: ctx run_genFalseBlock)
      from IH assms(2) have y: "yielded ?t \<noteq> None"
        by (auto split: if_splits)
      have eqy: "yielded (run viewOf (ctx hole) s) = yielded ?t"
        unfolding run using yield_if_result(1) [OF y] by simp
      have eqm: "mem (run viewOf (ctx hole) s) = mem ?t"
        unfolding run using yield_if_result(2) [OF y] by simp
      have iff: "(\<forall>e' cond'. Some e' \<in> set (x # es) \<longrightarrow>
               genCond sp e' iters = Inr cond' \<longrightarrow> evalVal (rt_env s) cond' = 0)
             \<longleftrightarrow> ?rest_false"
        using False cond Some by auto
      show ?thesis
        unfolding iff eqy eqm using IH by simp
    qed
  qed
qed

lemma run_genTrueBlock_result:
  assumes "yielded (run viewOf hole s) \<noteq> None"
  shows "if evalVal (rt_env s) cond \<noteq> 0
         then yielded (run viewOf (genTrueBlock n innerArg cond hole) s)
                = yielded (run viewOf hole s)
              \<and> mem (run viewOf (genTrueBlock n innerArg cond hole) s)
                = mem (run viewOf hole s)
         else yielded (run viewOf (genTrueBlock n innerArg cond hole) s)
                = Some (evalArr (rt_env s) innerArg)
              \<and> mem (run viewOf (genTrueBlock n innerArg cond hole) s) = mem s"
proof (cases "evalVal (rt_env s) cond \<noteq> 0")
  case True
  have run: "run viewOf (genTrueBlock n innerArg cond hole) s =
               exec viewOf (ResultOp (IfResult n))
                 (bindYielded (IfResult n) (run viewOf hole s))"
    using True by (simp add: run_genTrueBlock)
  show ?thesis
    unfolding run using True yield_if_result [OF assms] by simp
next
  case False
  let ?t = "s\<lparr>yielded := Some (evalArr (rt_env s) innerArg)\<rparr>"
  have run: "run viewOf (genTrueBlock n innerArg cond hole) s =
               exec viewOf (ResultOp (IfResult n)) (bindYielded (IfResult n) ?t)"
    using False by (simp add: run_genTrueBlock)
  have y: "yielded ?t \<noteq> None" by simp
  show ?thesis
    unfolding run using False yield_if_result [OF y] by simp
qed

lemma genFalseBlocks_conds:
  "genFalseBlocks sp iters innerArg es n = Inr (ctx, n') \<Longrightarrow> Some e \<in> set es \<Longrightarrow>
     \<exists>cond. genCond sp e iters = Inr cond"
proof (induction sp iters innerArg es n arbitrary: ctx n' rule: genFalseBlocks.induct)
  case (1 sp iters innerArg n)
  then show ?case by simp
next
  case (2 sp iters innerArg es n)
  then show ?case by simp
next
  case (3 sp iters innerArg x es n)
  from "3.prems"(1) obtain cond ctx0 where
    c: "genCond sp x iters = Inr cond"
    and r: "genFalseBlocks sp iters innerArg es (Suc n) = Inr (ctx0, n')"
    by (auto split: sum.splits)
  show ?case
  proof (cases "e = x")
    case True
    with c show ?thesis by simp
  next
    case False
    with "3.prems"(2) have "Some e \<in> set es" by simp
    from "3.IH" [OF c r this] show ?thesis .
  qed
qed

lemma all_false_iff:
  assumes "\<And>e. Some e \<in> set es \<Longrightarrow> \<exists>cond. genCond sp e iters = Inr cond"
  shows "(\<forall>e cond. Some e \<in> set es \<longrightarrow> genCond sp e iters = Inr cond \<longrightarrow> evalVal \<rho> cond = 0)
         \<longleftrightarrow> list_all (\<lambda>m. case m of None \<Rightarrow> True
                                   | Some e \<Rightarrow> maskValue sp iters \<rho> e = Some False) es"
  using assms
proof (induction es)
  case Nil
  show ?case by simp
next
  case (Cons x es)
  have rest: "\<exists>cond. genCond sp e iters = Inr cond" if "Some e \<in> set es" for e
    using that Cons.prems [of e] by simp
  note IH = Cons.IH [OF rest]
  show ?case
  proof (cases x)
    case None
    then show ?thesis using IH by simp
  next
    case (Some e0)
    from Cons.prems [of e0] Some obtain c0 where c0: "genCond sp e0 iters = Inr c0" by auto
    have hd: "maskValue sp iters \<rho> e0 = Some False \<longleftrightarrow> evalVal \<rho> c0 = 0"
      by (simp add: maskValue_def c0)
    have "(\<forall>e cond. Some e \<in> set (x # es) \<longrightarrow> genCond sp e iters = Inr cond \<longrightarrow>
             evalVal \<rho> cond = 0)
          \<longleftrightarrow> evalVal \<rho> c0 = 0
              \<and> (\<forall>e cond. Some e \<in> set es \<longrightarrow> genCond sp e iters = Inr cond \<longrightarrow>
                    evalVal \<rho> cond = 0)"
      using Some c0 by auto
    then show ?thesis using IH Some hd by simp
  qed
qed

lemma run_genMaskClause:
  assumes "genMaskClause sp iters innerArg maskExprs n = Inr (ctx, n')"
    and "yielded (run viewOf hole s) \<noteq> None"
  shows "if firstMatchWins sp iters (rt_env s) maskExprs
         then yielded (run viewOf (ctx hole) s) = yielded (run viewOf hole s)
              \<and> mem (run viewOf (ctx hole) s) = mem (run viewOf hole s)
         else yielded (run viewOf (ctx hole) s) = Some (evalArr (rt_env s) innerArg)
              \<and> mem (run viewOf (ctx hole) s) = mem s"
proof -
  from assms(1) obtain ctx0 n1 where
    blocks: "genFalseBlocks sp iters innerArg (butlast maskExprs) n = Inr (ctx0, n1)"
    by (auto simp: genMaskClause_def split: if_splits sum.splits)
  define B where "B \<longleftrightarrow> list_all (\<lambda>m. case m of None \<Rightarrow> True
                     | Some e \<Rightarrow> maskValue sp iters (rt_env s) e = Some False) (butlast maskExprs)"
  have Beq: "(\<forall>e cond. Some e \<in> set (butlast maskExprs) \<longrightarrow> genCond sp e iters = Inr cond \<longrightarrow>
               evalVal (rt_env s) cond = 0) \<longleftrightarrow> B"
    unfolding B_def by (rule all_false_iff) (rule genFalseBlocks_conds [OF blocks])
  have outer: "if B
      then yielded (run viewOf (ctx0 h) s) = yielded (run viewOf h s)
         \<and> mem (run viewOf (ctx0 h) s) = mem (run viewOf h s)
      else yielded (run viewOf (ctx0 h) s) = Some (evalArr (rt_env s) innerArg)
         \<and> mem (run viewOf (ctx0 h) s) = mem s"
    if "yielded (run viewOf h s) \<noteq> None" for h
    using run_genFalseBlocks [OF blocks that] unfolding Beq .
  show ?thesis
  proof (cases "last maskExprs")
    case None
    with assms(1) blocks have ctx: "ctx = ctx0"
      by (auto simp: genMaskClause_def split: if_splits)
    have "firstMatchWins sp iters (rt_env s) maskExprs \<longleftrightarrow> B"
      by (simp add: firstMatchWins_def B_def None)
    then show ?thesis using outer [OF assms(2)] by (simp add: ctx)
  next
    case (Some m)
    with assms(1) blocks obtain cond where
      cond: "genCond sp m iters = Inr cond"
      and ctx: "ctx = (\<lambda>hole. ctx0 (genTrueBlock n1 innerArg cond hole))"
      by (auto simp: genMaskClause_def split: if_splits sum.splits)
    define L where "L \<longleftrightarrow> evalVal (rt_env s) cond \<noteq> 0"
    let ?inner = "genTrueBlock n1 innerArg cond hole"
    have last: "if L
      then yielded (run viewOf ?inner s) = yielded (run viewOf hole s)
         \<and> mem (run viewOf ?inner s) = mem (run viewOf hole s)
      else yielded (run viewOf ?inner s) = Some (evalArr (rt_env s) innerArg)
         \<and> mem (run viewOf ?inner s) = mem s"
      using run_genTrueBlock_result [OF assms(2), of cond n1 innerArg] unfolding L_def .
    then have y: "yielded (run viewOf ?inner s) \<noteq> None"
      using assms(2) by (cases L) simp_all
    have fm: "firstMatchWins sp iters (rt_env s) maskExprs \<longleftrightarrow> B \<and> L"
      by (simp add: firstMatchWins_def B_def L_def Some maskValue_def cond)
    have "if B \<and> L
           then yielded (run viewOf (ctx0 ?inner) s) = yielded (run viewOf hole s)
                \<and> mem (run viewOf (ctx0 ?inner) s) = mem (run viewOf hole s)
           else yielded (run viewOf (ctx0 ?inner) s) = Some (evalArr (rt_env s) innerArg)
                \<and> mem (run viewOf (ctx0 ?inner) s) = mem s"
      using outer [OF y] last by (cases B; cases L; simp)
    then show ?thesis unfolding fm ctx .
  qed
qed

lemma run_genMaskConditions:
  assumes "genMaskConditions sp iters innerArg maskLists n = Inr (ctx, n')"
    and "yielded (run viewOf hole s) \<noteq> None"
  shows "if list_all (firstMatchWins sp iters (rt_env s)) maskLists
         then yielded (run viewOf (ctx hole) s) = yielded (run viewOf hole s)
              \<and> mem (run viewOf (ctx hole) s) = mem (run viewOf hole s)
         else yielded (run viewOf (ctx hole) s) = Some (evalArr (rt_env s) innerArg)
              \<and> mem (run viewOf (ctx hole) s) = mem s"
  using assms(1)
proof (induction maskLists arbitrary: n ctx)
  case Nil
  then have "ctx = (\<lambda>hole. hole)" by auto
  then show ?case by simp
next
  case (Cons maskExprs rest)
  from Cons.prems obtain ctx1 n1 ctx2 where
    c: "genMaskClause sp iters innerArg maskExprs n = Inr (ctx1, n1)"
    and r: "genMaskConditions sp iters innerArg rest n1 = Inr (ctx2, n')"
    and ctx: "ctx = (\<lambda>hole. ctx1 (ctx2 hole))"
    by (auto split: sum.splits)
  define R where "R \<longleftrightarrow> list_all (firstMatchWins sp iters (rt_env s)) rest"
  define F where "F \<longleftrightarrow> firstMatchWins sp iters (rt_env s) maskExprs"
  have inner: "if R
         then yielded (run viewOf (ctx2 hole) s) = yielded (run viewOf hole s)
              \<and> mem (run viewOf (ctx2 hole) s) = mem (run viewOf hole s)
         else yielded (run viewOf (ctx2 hole) s) = Some (evalArr (rt_env s) innerArg)
              \<and> mem (run viewOf (ctx2 hole) s) = mem s"
    using Cons.IH [OF r] unfolding R_def .
  then have y: "yielded (run viewOf (ctx2 hole) s) \<noteq> None"
    using assms(2) by (cases R) simp_all
  have outer: "if F
         then yielded (run viewOf (ctx1 (ctx2 hole)) s) = yielded (run viewOf (ctx2 hole) s)
              \<and> mem (run viewOf (ctx1 (ctx2 hole)) s) = mem (run viewOf (ctx2 hole) s)
         else yielded (run viewOf (ctx1 (ctx2 hole)) s) = Some (evalArr (rt_env s) innerArg)
              \<and> mem (run viewOf (ctx1 (ctx2 hole)) s) = mem s"
    using run_genMaskClause [OF c y] unfolding F_def .
  have all: "list_all (firstMatchWins sp iters (rt_env s)) (maskExprs # rest) \<longleftrightarrow> F \<and> R"
    by (simp add: F_def R_def)
  have "if F \<and> R
         then yielded (run viewOf (ctx1 (ctx2 hole)) s) = yielded (run viewOf hole s)
              \<and> mem (run viewOf (ctx1 (ctx2 hole)) s) = mem (run viewOf hole s)
         else yielded (run viewOf (ctx1 (ctx2 hole)) s) = Some (evalArr (rt_env s) innerArg)
              \<and> mem (run viewOf (ctx1 (ctx2 hole)) s) = mem s"
    using inner outer by (cases F; cases R; simp)
  then show ?case unfolding all ctx .
qed

lemma genMaskConditions_snoc:
  "genMaskConditions sp iters innerArg (outerLists @ [clause]) n = Inr (ctx, n') \<Longrightarrow>
     \<exists>c1 n1 cc. genMaskConditions sp iters innerArg outerLists n = Inr (c1, n1)
        \<and> genMaskClause sp iters innerArg clause n1 = Inr (cc, n')
        \<and> ctx = (\<lambda>hole. c1 (cc hole))"
proof (induction outerLists arbitrary: n ctx)
  case Nil
  then obtain cc where "genMaskClause sp iters innerArg clause n = Inr (cc, n')"
    and "ctx = (\<lambda>hole. cc hole)"
    by (auto split: sum.splits)
  then show ?case by simp
next
  case (Cons maskExprs rest)
  from Cons.prems obtain ctx1 n1 ctx2 where
    c: "genMaskClause sp iters innerArg maskExprs n = Inr (ctx1, n1)"
    and r: "genMaskConditions sp iters innerArg (rest @ [clause]) n1 = Inr (ctx2, n')"
    and ctx: "ctx = (\<lambda>hole. ctx1 (ctx2 hole))"
    by (auto split: sum.splits)
  from Cons.IH [OF r] obtain c1 n2 cc where
    a: "genMaskConditions sp iters innerArg rest n1 = Inr (c1, n2)"
    and b: "genMaskClause sp iters innerArg clause n2 = Inr (cc, n')"
    and c2: "ctx2 = (\<lambda>hole. c1 (cc hole))"
    by blast
  have "genMaskConditions sp iters innerArg (maskExprs # rest) n
          = Inr (\<lambda>hole. ctx1 (c1 hole), n2)"
    by (simp add: c a)
  moreover have "ctx = (\<lambda>hole. (\<lambda>hole. ctx1 (c1 hole)) (cc hole))"
    by (simp add: ctx c2)
  ultimately show ?case using b by blast
qed

lemma genMaskClause_closing:
  assumes "genMaskClause sp iters innerArg (pre @ [Some m]) n = Inr (ctx, n')"
  shows "\<exists>ctx0 n1 cond. genFalseBlocks sp iters innerArg pre n = Inr (ctx0, n1)
           \<and> genCond sp m iters = Inr cond
           \<and> ctx = (\<lambda>hole. ctx0 (genTrueBlock n1 innerArg cond hole))"
  using assms by (auto simp: genMaskClause_def split: sum.splits)

text \<open>
  C4. \<^verbatim>\<open>genIterSpace\<close> with an implicit space: the place of the loop body is inside the
  implicit loops and, in the innermost loop, inside the nest of \<^verbatim>\<open>fir.if\<close> operations of
  the clause lists. Run at an iteration point, the nest yields what the body yields exactly
  when, for every clause list \<open>[m1, ..., mk]\<close> in force, \<open>m1\<close> to \<open>m(k-1)\<close> are all false
  and \<open>mk\<close> is true there; otherwise the body is not run: the nest yields the inner
  argument unchanged and the memory is as before. The last mask of the innermost clause
  list is tested not negated, and its \<^verbatim>\<open>fir.if\<close> has the body in its then-region.
\<close>

theorem genIterSpace_mask_nest:
  assumes "genIterSpace st = Inr (iters, ctx, st')"
    and "implicitSpace st = Some sp"
  shows "\<exists>shapeVec dest conds innerArg.
           ctx = (\<lambda>body. loopNest 0 (rev (map (\<lambda>extent. SubI extent (ConstI 1)) shapeVec))
                            (isUnordered st) (Some dest) (conds body))
         \<and> inArg iters = Some innerArg
         \<and> (\<forall>viewOf body s. yielded (run viewOf body s) \<noteq> None \<longrightarrow>
               (if list_all (firstMatchWins sp iters (rt_env s)) (getMasks sp)
                then yielded (run viewOf (conds body) s) = yielded (run viewOf body s)
                     \<and> mem (run viewOf (conds body) s) = mem (run viewOf body s)
                else yielded (run viewOf (conds body) s) = Some (evalArr (rt_env s) innerArg)
                     \<and> mem (run viewOf (conds body) s) = mem s))
         \<and> (\<forall>outerLists pre m. getMasks sp = outerLists @ [pre @ [Some m]] \<longrightarrow>
               (\<exists>outer n cond. genCond sp m iters = Inr cond
                  \<and> conds = (\<lambda>body. outer (genTrueBlock n innerArg cond body))))"
proof -
  from assms(1) obtain shapeVec where sh: "genIterationShape st = Inr shapeVec"
    by (auto simp: genIterSpace_def split: sum.splits)
  define ds where "ds = (case destination st of
                           Some d \<Rightarrow> (d, st)
                         | None \<Rightarrow>
                             (let (d, st') = createAndLoadSomeArrayTemp shapeVec st
                              in (d, st'\<lparr>destination := Some d\<rparr>)))"
  obtain dest st1 where d: "ds = (dest, st1)" by (cases ds)
  have un: "isUnordered st1 = isUnordered st" and im: "implicitSpace st1 = implicitSpace st"
    using d unfolding ds_def
    by (auto simp: createAndLoadSomeArrayTemp_def Let_def split: option.splits)
  from assms(1) sh d obtain loops where
    l: "genImplicitLoops shapeVec (Some (ldResult dest)) (isUnordered st1) = Inr (iters, loops)"
    by (auto simp: genIterSpace_def ds_def [symmetric]
        split: sum.splits if_splits option.splits prod.splits)
  from assms(1) sh d l obtain innerArg where ia: "inArg iters = Some innerArg"
    by (auto simp: genIterSpace_def ds_def [symmetric] split: sum.splits if_splits option.splits)
  from assms(1) assms(2) sh d l ia im obtain conds n where
    c: "genMaskConditions sp iters innerArg (getMasks sp) (nextId st1) = Inr (conds, n)"
    and ctx: "ctx = (\<lambda>hole. loops (conds hole))"
    by (auto simp: genIterSpace_def ds_def [symmetric]
        split: sum.splits if_splits option.splits prod.splits)
  from l have loops: "loops = loopNest 0 (rev (map (\<lambda>extent. SubI extent (ConstI 1)) shapeVec))
                               (isUnordered st) (Some (ldResult dest))"
    by (auto simp: genImplicitLoops_def Let_def un split: if_splits)
  have c1: "ctx = (\<lambda>body. loopNest 0 (rev (map (\<lambda>extent. SubI extent (ConstI 1)) shapeVec))
                            (isUnordered st) (Some (ldResult dest)) (conds body))"
    by (simp add: ctx loops)
  have c3: "\<forall>viewOf body s. yielded (run viewOf body s) \<noteq> None \<longrightarrow>
               (if list_all (firstMatchWins sp iters (rt_env s)) (getMasks sp)
                then yielded (run viewOf (conds body) s) = yielded (run viewOf body s)
                     \<and> mem (run viewOf (conds body) s) = mem (run viewOf body s)
                else yielded (run viewOf (conds body) s) = Some (evalArr (rt_env s) innerArg)
                     \<and> mem (run viewOf (conds body) s) = mem s)"
    using run_genMaskConditions [OF c] by blast
  have c4: "\<forall>outerLists pre m. getMasks sp = outerLists @ [pre @ [Some m]] \<longrightarrow>
               (\<exists>outer n cond. genCond sp m iters = Inr cond
                  \<and> conds = (\<lambda>body. outer (genTrueBlock n innerArg cond body)))"
  proof (intro allI impI)
    fix outerLists pre m
    assume g: "getMasks sp = outerLists @ [pre @ [Some m]]"
    from genMaskConditions_snoc [OF c [unfolded g]] obtain c1 n1 cc where
      cc: "genMaskClause sp iters innerArg (pre @ [Some m]) n1 = Inr (cc, n)"
      and conds: "conds = (\<lambda>hole. c1 (cc hole))"
      by blast
    from genMaskClause_closing [OF cc] obtain ctx0 n2 cond where
      cond: "genCond sp m iters = Inr cond"
      and cceq: "cc = (\<lambda>hole. ctx0 (genTrueBlock n2 innerArg cond hole))"
      by blast
    have "conds = (\<lambda>body. c1 (ctx0 (genTrueBlock n2 innerArg cond body)))"
      by (simp add: conds cceq)
    with cond have "genCond sp m iters = Inr cond
                  \<and> conds = (\<lambda>body. (\<lambda>h. c1 (ctx0 h)) (genTrueBlock n2 innerArg cond body))"
      by simp
    then show "\<exists>outer n cond. genCond sp m iters = Inr cond
                  \<and> conds = (\<lambda>body. outer (genTrueBlock n innerArg cond body))"
      by (intro exI [of _ "\<lambda>h. c1 (ctx0 h)"] exI [of _ n2] exI [of _ cond])
  qed
  from c1 ia c3 c4 show ?thesis by blast
qed

theorem genIterSpace_mask_nest_witness:
  "\<exists>ctx st' shapeVec dest conds.
     genIterSpace
       \<lparr> destShape = [ConstI 3],
         destination = Some \<lparr> ldResult = ArrayLoadResult 0, ldMemref = Val 7,
                               ldMemrefIsBox = False, ldMemrefRank = 1,
                               ldShape = Some (ShapeOp [ConstI 3]), ldSlice = None \<rparr>,
         arrayOperands = [], loweredProcRef = None,
         semant = RefTransparent, ccStoreToDest = None, isUnordered = True,
         explicitSpaceActive = False,
         implicitSpace = Some
           \<lparr> masks = [[Some 3, Some 5]],
             vmap = [3 \<mapsto> genMaskAccess (MaskTemp 3), 5 \<mapsto> genMaskAccess (MaskTemp 5)],
             maskVarMap = (\<lambda>e. None) \<rparr>,
         emitted = [], nextId = 4 \<rparr>
       = Inr (\<lparr> inArg = Some (RegionIterArg 0), outRes = Some (DoLoopResult 0),
                element = None, indices = [InductionVar 0] \<rparr>, ctx, st')
   \<and> ctx [ResultOp (ArrayUpdateOp (RegionIterArg 0) (ConstI 7) [InductionVar 0])]
       = [DoLoopOp 0 (ConstI 0) (SubI (ConstI 3) (ConstI 1)) (ConstI 1) True
            (Some (ArrayLoadResult 0))
            [IfOp 4 (ConvertOp (LoadOp (ArrayCoorOp (MaskTemp 3) [InductionVar 0])))
               [ResultOp (RegionIterArg 0)]
               [IfOp 5 (ConvertOp (LoadOp (ArrayCoorOp (MaskTemp 5) [InductionVar 0])))
                  [ResultOp (ArrayUpdateOp (RegionIterArg 0) (ConstI 7) [InductionVar 0])]
                  [ResultOp (RegionIterArg 0)],
                ResultOp (IfResult 5)],
             ResultOp (IfResult 4)]]
   \<and> ctx = (\<lambda>body. loopNest 0 (rev (map (\<lambda>extent. SubI extent (ConstI 1)) shapeVec))
                      True (Some dest) (conds body))
   \<and> yielded (run (\<lambda>ld idxs. idxs)
         (conds [ResultOp (ArrayUpdateOp (RegionIterArg 0) (ConstI 7) [InductionVar 0])])
         \<lparr> mem = (\<lambda>a idxs. 0),
           rt_env = \<lparr> scalarOf = (\<lambda>v. if v = LoadOp (ArrayCoorOp (MaskTemp 5) [InductionVar 0])
                                       then 1 else 0),
                      arrayOf = (\<lambda>a. (\<lambda>idxs. 0, \<lambda>idxs. idxs)) \<rparr>,
           yielded = None \<rparr>)
       = Some ((\<lambda>idxs. 0)([0] := 7), \<lambda>idxs. idxs)
   \<and> yielded (run (\<lambda>ld idxs. idxs)
         (conds [ResultOp (ArrayUpdateOp (RegionIterArg 0) (ConstI 7) [InductionVar 0])])
         \<lparr> mem = (\<lambda>a idxs. 0),
           rt_env = \<lparr> scalarOf = (\<lambda>v. if v = InductionVar 0 then 0 else 1),
                      arrayOf = (\<lambda>a. (\<lambda>idxs. 0, \<lambda>idxs. idxs)) \<rparr>,
           yielded = None \<rparr>)
       = Some (\<lambda>idxs. 0, \<lambda>idxs. idxs)"
proof -
  let ?sp = "\<lparr> masks = [[Some 3, Some 5]],
             vmap = [3 \<mapsto> genMaskAccess (MaskTemp 3), 5 \<mapsto> genMaskAccess (MaskTemp 5)],
             maskVarMap = (\<lambda>e. None) \<rparr>"
  let ?st = "\<lparr> destShape = [ConstI 3],
         destination = Some \<lparr> ldResult = ArrayLoadResult 0, ldMemref = Val 7,
                               ldMemrefIsBox = False, ldMemrefRank = 1,
                               ldShape = Some (ShapeOp [ConstI 3]), ldSlice = None \<rparr>,
         arrayOperands = [], loweredProcRef = None,
         semant = RefTransparent, ccStoreToDest = None, isUnordered = True,
         explicitSpaceActive = False, implicitSpace = Some ?sp,
         emitted = [], nextId = 4 \<rparr>"
  let ?iters = "\<lparr> inArg = Some (RegionIterArg 0), outRes = Some (DoLoopResult 0),
                element = None, indices = [InductionVar 0] \<rparr>"
  let ?body = "[ResultOp (ArrayUpdateOp (RegionIterArg 0) (ConstI 7) [InductionVar 0])]"
  let ?c3 = "ConvertOp (LoadOp (ArrayCoorOp (MaskTemp 3) [InductionVar 0]))"
  let ?c5 = "ConvertOp (LoadOp (ArrayCoorOp (MaskTemp 5) [InductionVar 0]))"
  let ?s0 = "\<lparr> mem = (\<lambda>a idxs. 0),
           rt_env = \<lparr> scalarOf = (\<lambda>v. if v = LoadOp (ArrayCoorOp (MaskTemp 5) [InductionVar 0])
                                       then 1 else 0),
                      arrayOf = (\<lambda>a. (\<lambda>idxs. 0, \<lambda>idxs. idxs)) \<rparr>,
           yielded = None \<rparr> :: rt_state"
  let ?s1 = "\<lparr> mem = (\<lambda>a idxs. 0),
           rt_env = \<lparr> scalarOf = (\<lambda>v. if v = InductionVar 0 then 0 else 1),
                      arrayOf = (\<lambda>a. (\<lambda>idxs. 0, \<lambda>idxs. idxs)) \<rparr>,
           yielded = None \<rparr> :: rt_state"
  let ?view = "\<lambda>(ld :: array_load) (idxs :: index list). idxs"
  have c3: "genCond ?sp 3 ?iters = Inr ?c3"
    by (simp add: genCond_def getBoundClosure_def genMaskAccess_def)
  have c5: "genCond ?sp 5 ?iters = Inr ?c5"
    by (simp add: genCond_def getBoundClosure_def genMaskAccess_def)
  have conds: "genMaskConditions ?sp ?iters (RegionIterArg 0) [[Some 3, Some 5]] 4
                 = Inr (\<lambda>hole. genFalseBlock 4 (RegionIterArg 0) ?c3
                                 (genTrueBlock 5 (RegionIterArg 0) ?c5 hole), 6)"
    by (simp add: genMaskClause_def c3 c5)
  obtain ctx st' where gen: "genIterSpace ?st = Inr (?iters, ctx, st')"
    and ctx: "ctx = (\<lambda>body. [DoLoopOp 0 (ConstI 0) (SubI (ConstI 3) (ConstI 1)) (ConstI 1) True
                               (Some (ArrayLoadResult 0))
                               (genFalseBlock 4 (RegionIterArg 0) ?c3
                                  (genTrueBlock 5 (RegionIterArg 0) ?c5 body))])"
    by (simp add: genIterSpace_def genIterationShape_def genImplicitLoops_def getMasks_def
        conds Let_def del: genMaskConditions.simps)
  have sp: "implicitSpace ?st = Some ?sp" by simp
  from genIterSpace_mask_nest [OF gen sp] obtain shapeVec dest conds innerArg where
    nest: "ctx = (\<lambda>body. loopNest 0 (rev (map (\<lambda>extent. SubI extent (ConstI 1)) shapeVec))
                            (isUnordered ?st) (Some dest) (conds body))"
    and ia: "inArg ?iters = Some innerArg"
    and sem0: "\<forall>viewOf body s. yielded (run viewOf body s) \<noteq> None \<longrightarrow>
               (if list_all (firstMatchWins ?sp ?iters (rt_env s)) (getMasks ?sp)
                then yielded (run viewOf (conds body) s) = yielded (run viewOf body s)
                     \<and> mem (run viewOf (conds body) s) = mem (run viewOf body s)
                else yielded (run viewOf (conds body) s) = Some (evalArr (rt_env s) innerArg)
                     \<and> mem (run viewOf (conds body) s) = mem s)"
    by (elim exE conjE) (rule that; assumption)
  note sem = sem0 [rule_format]
  from ia have innerArg: "innerArg = RegionIterArg 0" by simp
  have b0: "run ?view ?body ?s0 = ?s0\<lparr>yielded := Some ((\<lambda>idxs. 0)([0] := 7), \<lambda>idxs. idxs)\<rparr>"
    by (simp add: run_def)
  have b1: "yielded (run ?view ?body ?s1) \<noteq> None"
    by (simp add: run_def)
  have w0: "list_all (firstMatchWins ?sp ?iters (rt_env ?s0)) (getMasks ?sp)"
    by (simp add: getMasks_def firstMatchWins_def maskValue_def c3 c5)
  have w1: "\<not> list_all (firstMatchWins ?sp ?iters (rt_env ?s1)) (getMasks ?sp)"
    by (simp add: getMasks_def firstMatchWins_def maskValue_def c3 c5)
  have y0: "yielded (run ?view ?body ?s0) \<noteq> None" by (simp add: b0)
  from sem [OF y0] have "yielded (run ?view (conds ?body) ?s0) = yielded (run ?view ?body ?s0)"
    unfolding if_P [OF w0] by (rule conjunct1)
  then have r0: "yielded (run ?view (conds ?body) ?s0)
                   = Some ((\<lambda>idxs. 0)([0] := 7), \<lambda>idxs. idxs)"
    by (simp add: b0)
  from sem [OF b1] have "yielded (run ?view (conds ?body) ?s1)
                           = Some (evalArr (rt_env ?s1) innerArg)"
    unfolding if_not_P [OF w1] by (rule conjunct1)
  then have r1: "yielded (run ?view (conds ?body) ?s1) = Some (\<lambda>idxs. 0, \<lambda>idxs. idxs)"
    by (simp add: innerArg)
  have code: "ctx ?body
       = [DoLoopOp 0 (ConstI 0) (SubI (ConstI 3) (ConstI 1)) (ConstI 1) True
            (Some (ArrayLoadResult 0))
            [IfOp 4 ?c3 [ResultOp (RegionIterArg 0)]
               [IfOp 5 ?c5 ?body [ResultOp (RegionIterArg 0)], ResultOp (IfResult 5)],
             ResultOp (IfResult 4)]]"
    by (simp add: ctx genFalseBlock_def genTrueBlock_def)
  from nest have nest': "ctx = (\<lambda>body. loopNest 0
                            (rev (map (\<lambda>extent. SubI extent (ConstI 1)) shapeVec))
                            True (Some dest) (conds body))"
    by simp
  from gen code nest' r0 r1 show ?thesis by blast
qed
section \<open>Properties of the buffer of an array constructor\<close>

lemma unat_byteSz:
  fixes needed eleSz :: index
  assumes "2 * unat needed * unat eleSz < 2 ^ 64"
  shows "unat (needed * 2 * eleSz) = 2 * unat needed * unat eleSz"
proof -
  have "unat (needed * 2 * eleSz) = (unat needed * 2 * unat eleSz) mod 2 ^ 64"
    by (simp add: unat_word_ariths mod_mult_left_eq mod_mult_right_eq)
  also have "\<dots> = unat needed * 2 * unat eleSz"
    using assms by (simp add: mult.commute mult.left_commute)
  finally show ?thesis by (simp add: mult.commute mult.left_commute)
qed

lemma growBuffer_returns:
  assumes "place al memPtr (unat (needed * 2 * eleSz)) \<noteq> 0"
    and "memPtr = 0 \<or> heap s memPtr \<noteq> None"
  shows "\<exists>r. growBuffer al memPtr needed bufferSize buffSize eleSz s = Some r"
  using assms by (auto simp: growBuffer_def realloc_def Let_def)

lemma realloc_block:
  assumes "realloc al elemBytes s p newBytes = Some (q, s')"
  shows "cells s' = cells s"
    and "\<exists>b'. heap s' q = Some b' \<and> blockBytes b' = newBytes
           \<and> (\<forall>b i. p \<noteq> 0 \<longrightarrow> heap s p = Some b \<longrightarrow> (i + 1) * elemBytes \<le> blockBytes b \<longrightarrow>
                 (i + 1) * elemBytes \<le> newBytes \<longrightarrow> blockElems b' i = blockElems b i)"
  using assms by (auto simp: realloc_def Let_def split: if_splits option.splits)

text \<open>
  C2 (as the code has it). The buffer is grown when the capacity is at most the needed
  position (signed comparison), so also when they are equal. The new capacity is then
  twice the needed position, the block is reallocated to that many elements, and, when
  that size does not overflow, every element below the needed position that lay in the old
  block is in the new block with the same value. Otherwise the buffer and the state are
  returned as they were.
\<close>

theorem growBuffer_capacity:
  assumes "growBuffer al memPtr needed bufferSize buffSize eleSz s = Some (mem', s')"
  shows "if sint bufferSize \<le> sint needed
         then cells s' buffSize = 2 * needed
              \<and> (\<forall>a. a \<noteq> buffSize \<longrightarrow> cells s' a = cells s a)
              \<and> (\<exists>b'. heap s' mem' = Some b'
                    \<and> blockBytes b' = unat (2 * needed * eleSz)
                    \<and> (\<forall>b i. memPtr \<noteq> 0 \<longrightarrow> heap s memPtr = Some b \<longrightarrow>
                          2 * unat needed * unat eleSz < 2 ^ 64 \<longrightarrow>
                          i < unat needed \<longrightarrow> (i + 1) * unat eleSz \<le> blockBytes b \<longrightarrow>
                          blockElems b' i = blockElems b i))
         else mem' = memPtr \<and> s' = s"
proof (cases "sint bufferSize \<le> sint needed")
  case False
  with assms show ?thesis by (simp add: growBuffer_def)
next
  case True
  let ?s1 = "s\<lparr>cells := (cells s)(buffSize := needed * 2)\<rparr>"
  from assms True have r: "realloc al (unat eleSz) ?s1 memPtr (unat (needed * 2 * eleSz))
                             = Some (mem', s')"
    by (simp add: growBuffer_def Let_def)
  from realloc_block(1) [OF r] have c: "cells s' = (cells s)(buffSize := needed * 2)"
    by simp
  from realloc_block(2) [OF r] obtain b' where
    b': "heap s' mem' = Some b'" and sz: "blockBytes b' = unat (needed * 2 * eleSz)"
    and keep: "\<And>b i. memPtr \<noteq> 0 \<Longrightarrow> heap s memPtr = Some b \<Longrightarrow>
                 (i + 1) * unat eleSz \<le> blockBytes b \<Longrightarrow>
                 (i + 1) * unat eleSz \<le> unat (needed * 2 * eleSz) \<Longrightarrow>
                 blockElems b' i = blockElems b i"
    by auto
  have pres: "blockElems b' i = blockElems b i"
    if "memPtr \<noteq> 0" "heap s memPtr = Some b" "2 * unat needed * unat eleSz < 2 ^ 64"
       "i < unat needed" "(i + 1) * unat eleSz \<le> blockBytes b" for b i
  proof -
    from that(4) have "i + 1 \<le> unat needed" by simp
    then have "(i + 1) * unat eleSz \<le> unat needed * unat eleSz"
      by (rule mult_le_mono1)
    also have "\<dots> \<le> 2 * unat needed * unat eleSz" by simp
    finally have "(i + 1) * unat eleSz \<le> unat (needed * 2 * eleSz)"
      using unat_byteSz [OF that(3)] by simp
    with that show ?thesis by (intro keep)
  qed
  have eq: "2 * needed * eleSz = needed * 2 * eleSz" by (simp add: mult.commute)
  have "cells s' buffSize = 2 * needed" using c by (simp add: mult.commute)
  moreover have "\<forall>a. a \<noteq> buffSize \<longrightarrow> cells s' a = cells s a" using c by simp
  moreover have "\<exists>b'. heap s' mem' = Some b'
                    \<and> blockBytes b' = unat (2 * needed * eleSz)
                    \<and> (\<forall>b i. memPtr \<noteq> 0 \<longrightarrow> heap s memPtr = Some b \<longrightarrow>
                          2 * unat needed * unat eleSz < 2 ^ 64 \<longrightarrow>
                          i < unat needed \<longrightarrow> (i + 1) * unat eleSz \<le> blockBytes b \<longrightarrow>
                          blockElems b' i = blockElems b i)"
    using b' sz pres unfolding eq by blast
  ultimately show ?thesis using True by simp
qed

theorem growBuffer_capacity_witness:
  "\<exists>mem' s' b'.
      growBuffer \<lparr> place = (\<lambda>p n. 3), fill = (\<lambda>i. 0) \<rparr> 1 35 32 1 4
        \<lparr> cells = (\<lambda>a. 0)(0 := 30, 1 := 32),
          heap = [1 \<mapsto> \<lparr> blockBytes = 128, blockElems = of_nat \<rparr>] \<rparr> = Some (mem', s')
      \<and> sint (32 :: index) \<le> sint (35 :: index)
      \<and> cells s' 1 = 70 \<and> cells s' 0 = 30
      \<and> heap s' mem' = Some b' \<and> blockBytes b' = 280 \<and> blockElems b' 29 = 29"
proof -
  let ?al = "\<lparr> place = (\<lambda>p n. 3), fill = (\<lambda>i. 0) \<rparr> :: allocator"
  let ?b = "\<lparr> blockBytes = 128, blockElems = of_nat \<rparr> :: block"
  let ?s = "\<lparr> cells = (\<lambda>a. 0)(0 := 30, 1 := 32), heap = [1 \<mapsto> ?b] \<rparr> :: ctor_state"
  have "\<exists>r. growBuffer ?al 1 35 32 1 4 ?s = Some r"
    by (rule growBuffer_returns) simp_all
  then obtain mem' s' where run: "growBuffer ?al 1 35 32 1 4 ?s = Some (mem', s')"
    by auto
  have le: "sint (32 :: index) \<le> sint (35 :: index)" by simp
  note inst = growBuffer_capacity [OF run, unfolded if_P [OF le]]
  from inst have c: "cells s' 1 = 70" by simp
  from inst have "cells s' 0 = cells ?s 0" by simp
  then have c0: "cells s' 0 = 30" by simp
  from inst obtain b' where b': "heap s' mem' = Some b'"
    and sz: "blockBytes b' = unat (2 * 35 * 4 :: index)"
    and keep: "\<And>b i. (1::nat) \<noteq> 0 \<Longrightarrow> heap ?s 1 = Some b \<Longrightarrow>
                 2 * unat (35 :: index) * unat (4 :: index) < 2 ^ 64 \<Longrightarrow>
                 i < unat (35 :: index) \<Longrightarrow> (i + 1) * unat (4 :: index) \<le> blockBytes b \<Longrightarrow>
                 blockElems b' i = blockElems b i"
    by blast
  have "blockElems b' 29 = blockElems ?b 29"
    by (rule keep) simp_all
  then have e: "blockElems b' 29 = 29" by simp
  from sz have sz': "blockBytes b' = 280" by simp
  from run le c c0 b' sz' e show ?thesis by blast
qed

text \<open>
  C2 (as stated). An array of five elements appended at position 30 of a buffer of capacity
  32 needs the position 35; the capacity becomes 70, and not the greater of 35 and twice 32,
  which is 64.
\<close>

theorem copyNextArrayCtorSection_capacity_not_max:
  "\<exists>s'. copyNextArrayCtorSection \<lparr> place = (\<lambda>p n. 3), fill = (\<lambda>i. 0) \<rparr>
            (ArrayBoxValue 2 [5]) 0 1 1 4
            \<lparr> cells = (\<lambda>a. 0)(0 := 30, 1 := 32),
              heap = [1 \<mapsto> \<lparr> blockBytes = 128, blockElems = of_nat \<rparr>,
                      2 \<mapsto> \<lparr> blockBytes = 20, blockElems = (\<lambda>i. 7) \<rparr>] \<rparr> = Some (3, s')
        \<and> cells s' 0 = 35 \<and> cells s' 1 = 70
        \<and> cells s' 1 \<noteq> max 35 (2 * 32)"
  by (simp add: copyNextArrayCtorSection_def growBuffer_def realloc_def memcpy_def Let_def)
section \<open>Properties of copy-in and copy-out\<close>

lemma doCopyIn_ops:
  "fst (doCopyIn opts actualArg arg k) =
     TempAllocMem (ArrayTemp k) (exvBase actualArg) #
       (if \<not> mayBeReadByCall arg \<and> \<not> mayRequireIntentoutFinalization arg
           \<and> \<not> hasAllocatableAttribute arg
        then (if elementIsRecordType opts then [DerivedTypeInitialize (ArrayTemp k)] else [])
        else if \<not> exvIsBox actualArg \<or> inlineCopyInOutForBoxes opts
          then [ArrayCopy (ArrayTemp k) (exvBase actualArg)]
          else [AssignTemporary (ArrayTemp k) (exvBase actualArg)])"
  by (simp add: doCopyIn_def Let_def)

lemma doCopyIn_temp:
  "exvBase (snd (doCopyIn opts actualArg arg k)) = ArrayTemp k"
  by (simp add: doCopyIn_def Let_def)

lemma doCopyIn_leaves:
  "fold (execCall \<rho>) (fst (doCopyIn opts actualArg arg k)) s
     = s\<lparr>events := events s @ fst (doCopyIn opts actualArg arg k)\<rparr>"
  by (simp add: doCopyIn_def Let_def)

lemma run_copyIn_region:
  "fold (execCall \<rho>)
     (case doCopyIn opts actualArg arg k of (ops, t) \<Rightarrow> ops @ [Result (exvBase t)]) s
   = s\<lparr>events := events s @ fst (doCopyIn opts actualArg arg k),
        lastResult := Some (ArrayTemp k)\<rparr>"
proof -
  obtain ops t where d: "doCopyIn opts actualArg arg k = (ops, t)"
    by (cases "doCopyIn opts actualArg arg k")
  have t: "exvBase t = ArrayTemp k" using doCopyIn_temp [of opts actualArg arg k] d by simp
  have l: "fold (execCall \<rho>) ops s = s\<lparr>events := events s @ ops\<rparr>"
    using doCopyIn_leaves [of \<rho> opts actualArg arg k s] d by simp
  show ?thesis by (simp add: d t l resolve_def)
qed

lemma genCopyIn_box_unguarded:
  assumes "exvIsBox actualArg"
  shows "genCopyIn opts actualArg arg None byValue k =
     ([IsContiguousCall (exvBase actualArg),
       GenIfOp k (IsContiguous (exvBase actualArg))
         [Result (BoxAddrOp (exvBase actualArg))]
         (case doCopyIn opts actualArg arg k of (ops, t) \<Rightarrow> ops @ [Result (exvBase t)]),
       ReadBoxValue (exvBase actualArg)],
      actualArg\<lparr>exvBase := IfResult k, exvIsBox := False\<rparr>,
      \<lparr> pairVar = actualArg,
        pairTemp = actualArg\<lparr>exvBase := IfResult k, exvIsBox := False\<rparr>,
        argMayBeModifiedByCall = (\<not> byValue \<and> mayBeModifiedByCall arg),
        restrictCopyAndFreeAtRuntime =
          Some (CmpI eq (IsContiguous (exvBase actualArg)) (ConstI 0)) \<rparr>)"
  using assms
  by (simp add: genCopyIn_def Let_def readIfBoxValue_def substBase_def combinedCondition_def)

lemma run_genCopyOut:
  "runCall \<rho> (genCopyOut opts copyOutPair) s =
     (if (case restrictCopyAndFreeAtRuntime copyOutPair of
            None \<Rightarrow> True | Some r \<Rightarrow> evalVal \<rho> r \<noteq> 0)
      then s\<lparr>events := events s @
             (if \<not> exvIsBox (pairVar copyOutPair) \<or> inlineCopyInOutForBoxes opts then
                (if argMayBeModifiedByCall copyOutPair
                 then [ArrayCopy (exvBase (pairVar copyOutPair)) (exvBase (pairTemp copyOutPair))]
                 else [])
                @ (if elementIsRecordType opts
                   then [DerivedTypeDestroy (exvBase (pairTemp copyOutPair))] else [])
                @ [FreeMem (exvBase (pairTemp copyOutPair))]
              else
                [CopyOutAssign
                   (if argMayBeModifiedByCall copyOutPair
                    then Some (exvBase (pairVar copyOutPair)) else None)
                   (exvBase (pairTemp copyOutPair))])\<rparr>
      else s)"
  by (simp add: runCall_def genCopyOut_def Let_def split: option.splits)

lemma genCopyIn_descriptor_unguarded:
  assumes "exvIsBox actualArg"
    and "genCopyIn opts actualArg arg None byValue k = (ops, t, copyOutPair)"
    and "s = runCall \<rho> ops initialCallState"
  shows "hd ops = IsContiguousCall (exvBase actualArg)
       \<and> exvBase t = IfResult k
       \<and> copyOutPair = \<lparr> pairVar = actualArg, pairTemp = t,
                          argMayBeModifiedByCall = (\<not> byValue \<and> mayBeModifiedByCall arg),
                          restrictCopyAndFreeAtRuntime =
                            Some (CmpI eq (IsContiguous (exvBase actualArg)) (ConstI 0)) \<rparr>
       \<and> (if evalVal \<rho> (IsContiguous (exvBase actualArg)) \<noteq> 0
          then events s = [IsContiguousCall (exvBase actualArg), ReadBoxValue (exvBase actualArg)]
               \<and> results s k = Some (BoxAddrOp (exvBase actualArg))
               \<and> events (runCall \<rho> (genCopyOut opts copyOutPair) s) = events s
          else events s =
                 [IsContiguousCall (exvBase actualArg),
                  TempAllocMem (ArrayTemp k) (exvBase actualArg)]
                 @ (if \<not> mayBeReadByCall arg \<and> \<not> mayRequireIntentoutFinalization arg
                       \<and> \<not> hasAllocatableAttribute arg
                    then (if elementIsRecordType opts
                          then [DerivedTypeInitialize (ArrayTemp k)] else [])
                    else if inlineCopyInOutForBoxes opts
                      then [ArrayCopy (ArrayTemp k) (exvBase actualArg)]
                      else [AssignTemporary (ArrayTemp k) (exvBase actualArg)])
                 @ [ReadBoxValue (exvBase actualArg)]
               \<and> results s k = Some (ArrayTemp k)
               \<and> events (runCall \<rho> (genCopyOut opts copyOutPair) s) =
                   events s @
                   (if inlineCopyInOutForBoxes opts then
                      (if \<not> byValue \<and> mayBeModifiedByCall arg
                       then [ArrayCopy (exvBase actualArg) (IfResult k)] else [])
                      @ (if elementIsRecordType opts then [DerivedTypeDestroy (IfResult k)]
                         else [])
                      @ [FreeMem (IfResult k)]
                    else [CopyOutAssign
                            (if \<not> byValue \<and> mayBeModifiedByCall arg
                             then Some (exvBase actualArg) else None)
                            (IfResult k)]))"
proof -
  let ?box = "exvBase actualArg"
  let ?t = "actualArg\<lparr>exvBase := IfResult k, exvIsBox := False\<rparr>"
  note gen = genCopyIn_box_unguarded [OF assms(1), of opts arg byValue k]
  from assms(2) gen have
    ops: "ops = [IsContiguousCall ?box,
                 GenIfOp k (IsContiguous ?box) [Result (BoxAddrOp ?box)]
                   (case doCopyIn opts actualArg arg k of (ops, t) \<Rightarrow> ops @ [Result (exvBase t)]),
                 ReadBoxValue ?box]"
    and t: "t = ?t"
    and pair: "copyOutPair = \<lparr> pairVar = actualArg, pairTemp = ?t,
                 argMayBeModifiedByCall = (\<not> byValue \<and> mayBeModifiedByCall arg),
                 restrictCopyAndFreeAtRuntime = Some (CmpI eq (IsContiguous ?box) (ConstI 0)) \<rparr>"
    by auto
  have c1: "hd ops = IsContiguousCall ?box" by (simp add: ops)
  have c2: "exvBase t = IfResult k" by (simp add: t)
  have c3: "copyOutPair = \<lparr> pairVar = actualArg, pairTemp = t,
                          argMayBeModifiedByCall = (\<not> byValue \<and> mayBeModifiedByCall arg),
                          restrictCopyAndFreeAtRuntime =
                            Some (CmpI eq (IsContiguous ?box) (ConstI 0)) \<rparr>"
    by (simp add: pair t)
  have cond: "evalVal \<rho> (CmpI eq (IsContiguous ?box) (ConstI 0)) \<noteq> 0
                \<longleftrightarrow> evalVal \<rho> (IsContiguous ?box) = 0"
    by simp
  show ?thesis
  proof (cases "evalVal \<rho> (IsContiguous ?box) \<noteq> 0")
    case True
    have s: "s = \<lparr> events = [IsContiguousCall ?box, ReadBoxValue ?box],
                   results = (\<lambda>n. None)(k := Some (BoxAddrOp ?box)),
                   lastResult = Some (BoxAddrOp ?box) \<rparr>"
      using True
      by (simp add: assms(3) ops runCall_def initialCallState_def resolve_def)
    have out: "runCall \<rho> (genCopyOut opts copyOutPair) s = s"
      using True by (simp add: run_genCopyOut pair)
    have "events s = [IsContiguousCall ?box, ReadBoxValue ?box]
               \<and> results s k = Some (BoxAddrOp ?box)
               \<and> events (runCall \<rho> (genCopyOut opts copyOutPair) s) = events s"
      unfolding out by (simp add: s)
    with True c1 c2 c3 show ?thesis by simp
  next
    case False
    then have nc: "evalVal \<rho> (IsContiguous ?box) = 0" by simp
    have s: "s = \<lparr> events = [IsContiguousCall ?box] @ fst (doCopyIn opts actualArg arg k)
                             @ [ReadBoxValue ?box],
                   results = (\<lambda>n. None)(k := Some (ArrayTemp k)),
                   lastResult = Some (ArrayTemp k) \<rparr>"
      using nc
      by (simp add: assms(3) ops runCall_def initialCallState_def run_copyIn_region)
    have ev: "events s =
                 [IsContiguousCall ?box, TempAllocMem (ArrayTemp k) ?box]
                 @ (if \<not> mayBeReadByCall arg \<and> \<not> mayRequireIntentoutFinalization arg
                       \<and> \<not> hasAllocatableAttribute arg
                    then (if elementIsRecordType opts
                          then [DerivedTypeInitialize (ArrayTemp k)] else [])
                    else if inlineCopyInOutForBoxes opts
                      then [ArrayCopy (ArrayTemp k) ?box]
                      else [AssignTemporary (ArrayTemp k) ?box])
                 @ [ReadBoxValue ?box]"
      using assms(1) by (simp add: s doCopyIn_ops)
    have res: "results s k = Some (ArrayTemp k)" by (simp add: s)
    have out: "events (runCall \<rho> (genCopyOut opts copyOutPair) s) =
                   events s @
                   (if inlineCopyInOutForBoxes opts then
                      (if \<not> byValue \<and> mayBeModifiedByCall arg
                       then [ArrayCopy ?box (IfResult k)] else [])
                      @ (if elementIsRecordType opts then [DerivedTypeDestroy (IfResult k)]
                         else [])
                      @ [FreeMem (IfResult k)]
                    else [CopyOutAssign
                            (if \<not> byValue \<and> mayBeModifiedByCall arg
                             then Some ?box else None)
                            (IfResult k)])"
      using nc assms(1) by (simp add: run_genCopyOut pair)
    from False ev res out c1 c2 c3 show ?thesis by simp
  qed
qed

text \<open>
  C7 (as the code has it). An actual argument without a presence condition.

  If it is a descriptor, the contiguity test of the runtime is emitted first. When the
  argument is contiguous at run time, no temporary is created, the address passed is the
  base address of the descriptor, and the copy-out does nothing. When it is not, a
  temporary is created from the argument as mold and is the address passed; the temporary
  is filled from the argument unless the dummy argument is not read by the call, needs no
  finalization and is not allocatable; the copy-out copies back (if the argument may be
  modified by the call) and frees the temporary. The pair is registered at compile time,
  with the condition that the argument is not contiguous.

  If it is not a descriptor, no contiguity test is emitted: the temporary is created and
  passed, filled under the same condition, and the pair is registered without a condition,
  so that the copy-out always copies back (if the argument may be modified by the call)
  and frees the temporary.
\<close>

theorem genCopyIn_contiguity_test:
  assumes "genCopyIn opts actualArg arg None byValue k = (ops, t, copyOutPair)"
    and "s = runCall \<rho> ops initialCallState"
  shows "if exvIsBox actualArg
     then
       hd ops = IsContiguousCall (exvBase actualArg)
       \<and> exvBase t = IfResult k
       \<and> copyOutPair = \<lparr> pairVar = actualArg, pairTemp = t,
                          argMayBeModifiedByCall = (\<not> byValue \<and> mayBeModifiedByCall arg),
                          restrictCopyAndFreeAtRuntime =
                            Some (CmpI eq (IsContiguous (exvBase actualArg)) (ConstI 0)) \<rparr>
       \<and> (if evalVal \<rho> (IsContiguous (exvBase actualArg)) \<noteq> 0
          then events s = [IsContiguousCall (exvBase actualArg), ReadBoxValue (exvBase actualArg)]
               \<and> results s k = Some (BoxAddrOp (exvBase actualArg))
               \<and> events (runCall \<rho> (genCopyOut opts copyOutPair) s) = events s
          else events s =
                 [IsContiguousCall (exvBase actualArg),
                  TempAllocMem (ArrayTemp k) (exvBase actualArg)]
                 @ (if \<not> mayBeReadByCall arg \<and> \<not> mayRequireIntentoutFinalization arg
                       \<and> \<not> hasAllocatableAttribute arg
                    then (if elementIsRecordType opts
                          then [DerivedTypeInitialize (ArrayTemp k)] else [])
                    else if inlineCopyInOutForBoxes opts
                      then [ArrayCopy (ArrayTemp k) (exvBase actualArg)]
                      else [AssignTemporary (ArrayTemp k) (exvBase actualArg)])
                 @ [ReadBoxValue (exvBase actualArg)]
               \<and> results s k = Some (ArrayTemp k)
               \<and> events (runCall \<rho> (genCopyOut opts copyOutPair) s) =
                   events s @
                   (if inlineCopyInOutForBoxes opts then
                      (if \<not> byValue \<and> mayBeModifiedByCall arg
                       then [ArrayCopy (exvBase actualArg) (IfResult k)] else [])
                      @ (if elementIsRecordType opts then [DerivedTypeDestroy (IfResult k)]
                         else [])
                      @ [FreeMem (IfResult k)]
                    else [CopyOutAssign
                            (if \<not> byValue \<and> mayBeModifiedByCall arg
                             then Some (exvBase actualArg) else None)
                            (IfResult k)]))
     else
       ops = TempAllocMem (ArrayTemp k) (exvBase actualArg)
               # (if \<not> mayBeReadByCall arg \<and> \<not> mayRequireIntentoutFinalization arg
                     \<and> \<not> hasAllocatableAttribute arg
                  then (if elementIsRecordType opts
                        then [DerivedTypeInitialize (ArrayTemp k)] else [])
                  else [ArrayCopy (ArrayTemp k) (exvBase actualArg)])
       \<and> exvBase t = ArrayTemp k
       \<and> copyOutPair = \<lparr> pairVar = actualArg, pairTemp = t,
                          argMayBeModifiedByCall = (\<not> byValue \<and> mayBeModifiedByCall arg),
                          restrictCopyAndFreeAtRuntime = None \<rparr>
       \<and> events s = ops
       \<and> events (runCall \<rho> (genCopyOut opts copyOutPair) s) =
           events s
           @ (if \<not> byValue \<and> mayBeModifiedByCall arg
              then [ArrayCopy (exvBase actualArg) (ArrayTemp k)] else [])
           @ (if elementIsRecordType opts then [DerivedTypeDestroy (ArrayTemp k)] else [])
           @ [FreeMem (ArrayTemp k)]"
proof (cases "exvIsBox actualArg")
  case True
  show ?thesis
    unfolding if_P [OF True] by (rule genCopyIn_descriptor_unguarded [OF True assms])
next
  case False
  obtain cops ct where d: "doCopyIn opts actualArg arg k = (cops, ct)"
    by (cases "doCopyIn opts actualArg arg k")
  have ct: "exvBase ct = ArrayTemp k" using doCopyIn_temp [of opts actualArg arg k] d by simp
  have ctb: "\<not> exvIsBox ct" using d by (auto simp: doCopyIn_def Let_def split: if_splits)
  have cops: "cops = TempAllocMem (ArrayTemp k) (exvBase actualArg)
               # (if \<not> mayBeReadByCall arg \<and> \<not> mayRequireIntentoutFinalization arg
                     \<and> \<not> hasAllocatableAttribute arg
                  then (if elementIsRecordType opts
                        then [DerivedTypeInitialize (ArrayTemp k)] else [])
                  else [ArrayCopy (ArrayTemp k) (exvBase actualArg)])"
    using doCopyIn_ops [of opts actualArg arg k] d False by simp
  from assms(1) False d have ops: "ops = cops" and t: "t = ct"
    and pair: "copyOutPair = \<lparr> pairVar = actualArg, pairTemp = ct,
                 argMayBeModifiedByCall = (\<not> byValue \<and> mayBeModifiedByCall arg),
                 restrictCopyAndFreeAtRuntime = None \<rparr>"
    by (auto simp: genCopyIn_def Let_def)
  have ev: "events s = cops"
    using doCopyIn_leaves [of \<rho> opts actualArg arg k initialCallState] d
    by (simp add: assms(2) ops runCall_def initialCallState_def)
  have out: "events (runCall \<rho> (genCopyOut opts copyOutPair) s) =
           events s
           @ (if \<not> byValue \<and> mayBeModifiedByCall arg
              then [ArrayCopy (exvBase actualArg) (ArrayTemp k)] else [])
           @ (if elementIsRecordType opts then [DerivedTypeDestroy (ArrayTemp k)] else [])
           @ [FreeMem (ArrayTemp k)]"
    using False by (simp add: run_genCopyOut pair ct)
  have "ops = TempAllocMem (ArrayTemp k) (exvBase actualArg)
               # (if \<not> mayBeReadByCall arg \<and> \<not> mayRequireIntentoutFinalization arg
                     \<and> \<not> hasAllocatableAttribute arg
                  then (if elementIsRecordType opts
                        then [DerivedTypeInitialize (ArrayTemp k)] else [])
                  else [ArrayCopy (ArrayTemp k) (exvBase actualArg)])
       \<and> exvBase t = ArrayTemp k
       \<and> copyOutPair = \<lparr> pairVar = actualArg, pairTemp = t,
                          argMayBeModifiedByCall = (\<not> byValue \<and> mayBeModifiedByCall arg),
                          restrictCopyAndFreeAtRuntime = None \<rparr>
       \<and> events s = ops
       \<and> events (runCall \<rho> (genCopyOut opts copyOutPair) s) =
           events s
           @ (if \<not> byValue \<and> mayBeModifiedByCall arg
              then [ArrayCopy (exvBase actualArg) (ArrayTemp k)] else [])
           @ (if elementIsRecordType opts then [DerivedTypeDestroy (ArrayTemp k)] else [])
           @ [FreeMem (ArrayTemp k)]"
    using cops ct pair ev out by (simp add: ops t)
  then show ?thesis
    unfolding if_not_P [OF False] .
qed

theorem genCopyIn_contiguity_test_witness:
  "(\<exists>ops t copyOutPair.
     genCopyIn \<lparr> inlineCopyInOutForBoxes = False, elementIsRecordType = False \<rparr>
       \<lparr> exvBase = Val 1, exvIsBox = True, exvRank = 1, exvShape = None \<rparr>
       \<lparr> mayBeModifiedByCall = True, mayBeReadByCall = True,
         mayRequireIntentoutFinalization = False, hasAllocatableAttribute = False,
         isOptional = False, passBy = BaseAddress, argTyIsPolymorphic = False,
         entity = None \<rparr>
       None False 0 = (ops, t, copyOutPair)
     \<and> events (runCall \<lparr> scalarOf = (\<lambda>v. 0), arrayOf = (\<lambda>a. (\<lambda>i. 0, \<lambda>i. i)) \<rparr> ops
                initialCallState)
         = [IsContiguousCall (Val 1), TempAllocMem (ArrayTemp 0) (Val 1),
            AssignTemporary (ArrayTemp 0) (Val 1), ReadBoxValue (Val 1)]
     \<and> results (runCall \<lparr> scalarOf = (\<lambda>v. 0), arrayOf = (\<lambda>a. (\<lambda>i. 0, \<lambda>i. i)) \<rparr> ops
                 initialCallState) 0 = Some (ArrayTemp 0)
     \<and> events (runCall \<lparr> scalarOf = (\<lambda>v. 1), arrayOf = (\<lambda>a. (\<lambda>i. 0, \<lambda>i. i)) \<rparr> ops
                initialCallState)
         = [IsContiguousCall (Val 1), ReadBoxValue (Val 1)]
     \<and> results (runCall \<lparr> scalarOf = (\<lambda>v. 1), arrayOf = (\<lambda>a. (\<lambda>i. 0, \<lambda>i. i)) \<rparr> ops
                 initialCallState) 0 = Some (BoxAddrOp (Val 1)))
   \<and> (\<exists>ops t copyOutPair.
     genCopyIn \<lparr> inlineCopyInOutForBoxes = False, elementIsRecordType = False \<rparr>
       \<lparr> exvBase = Val 1, exvIsBox = False, exvRank = 1, exvShape = None \<rparr>
       \<lparr> mayBeModifiedByCall = True, mayBeReadByCall = True,
         mayRequireIntentoutFinalization = False, hasAllocatableAttribute = False,
         isOptional = False, passBy = BaseAddress, argTyIsPolymorphic = False,
         entity = None \<rparr>
       None False 0 = (ops, t, copyOutPair)
     \<and> ops = [TempAllocMem (ArrayTemp 0) (Val 1), ArrayCopy (ArrayTemp 0) (Val 1)]
     \<and> restrictCopyAndFreeAtRuntime copyOutPair = None
     \<and> events (runCall \<lparr> scalarOf = (\<lambda>v. 0), arrayOf = (\<lambda>a. (\<lambda>i. 0, \<lambda>i. i)) \<rparr>
                (genCopyOut \<lparr> inlineCopyInOutForBoxes = False, elementIsRecordType = False \<rparr>
                   copyOutPair)
                (runCall \<lparr> scalarOf = (\<lambda>v. 0), arrayOf = (\<lambda>a. (\<lambda>i. 0, \<lambda>i. i)) \<rparr> ops
                   initialCallState))
         = [TempAllocMem (ArrayTemp 0) (Val 1), ArrayCopy (ArrayTemp 0) (Val 1),
            ArrayCopy (Val 1) (ArrayTemp 0), FreeMem (ArrayTemp 0)])"
proof -
  let ?opts = "\<lparr> inlineCopyInOutForBoxes = False, elementIsRecordType = False \<rparr>"
  let ?actual = "\<lparr> exvBase = Val 1, exvIsBox = True, exvRank = 1, exvShape = None \<rparr>"
  let ?arg = "\<lparr> mayBeModifiedByCall = True, mayBeReadByCall = True,
         mayRequireIntentoutFinalization = False, hasAllocatableAttribute = False,
         isOptional = False, passBy = BaseAddress, argTyIsPolymorphic = False,
         entity = None \<rparr>"
  let ?no = "\<lparr> scalarOf = (\<lambda>v. 0), arrayOf = (\<lambda>a. (\<lambda>i. 0, \<lambda>i. i)) \<rparr> :: env"
  let ?yes = "\<lparr> scalarOf = (\<lambda>v. 1), arrayOf = (\<lambda>a. (\<lambda>i. 0, \<lambda>i. i)) \<rparr> :: env"
  obtain ops t copyOutPair where
    gen: "genCopyIn ?opts ?actual ?arg None False 0 = (ops, t, copyOutPair)"
    by (cases "genCopyIn ?opts ?actual ?arg None False 0") auto
  have box: "exvIsBox ?actual" by simp
  from genCopyIn_contiguity_test [OF gen refl, of ?no, unfolded if_P [OF box]]
  have no: "events (runCall ?no ops initialCallState)
              = [IsContiguousCall (Val 1), TempAllocMem (ArrayTemp 0) (Val 1),
                 AssignTemporary (ArrayTemp 0) (Val 1), ReadBoxValue (Val 1)]
            \<and> results (runCall ?no ops initialCallState) 0 = Some (ArrayTemp 0)"
    by simp
  from genCopyIn_contiguity_test [OF gen refl, of ?yes, unfolded if_P [OF box]]
  have yes: "events (runCall ?yes ops initialCallState)
              = [IsContiguousCall (Val 1), ReadBoxValue (Val 1)]
            \<and> results (runCall ?yes ops initialCallState) 0 = Some (BoxAddrOp (Val 1))"
    by simp
  from gen no yes have first: "\<exists>ops t copyOutPair.
     genCopyIn ?opts ?actual ?arg None False 0 = (ops, t, copyOutPair)
     \<and> events (runCall ?no ops initialCallState)
         = [IsContiguousCall (Val 1), TempAllocMem (ArrayTemp 0) (Val 1),
            AssignTemporary (ArrayTemp 0) (Val 1), ReadBoxValue (Val 1)]
     \<and> results (runCall ?no ops initialCallState) 0 = Some (ArrayTemp 0)
     \<and> events (runCall ?yes ops initialCallState)
         = [IsContiguousCall (Val 1), ReadBoxValue (Val 1)]
     \<and> results (runCall ?yes ops initialCallState) 0 = Some (BoxAddrOp (Val 1))"
    by blast
  let ?plain = "\<lparr> exvBase = Val 1, exvIsBox = False, exvRank = 1, exvShape = None \<rparr>"
  obtain ops' t' pair' where
    gen': "genCopyIn ?opts ?plain ?arg None False 0 = (ops', t', pair')"
    by (cases "genCopyIn ?opts ?plain ?arg None False 0") auto
  have nobox: "\<not> exvIsBox ?plain" by simp
  note plain = genCopyIn_contiguity_test [OF gen' refl, of ?no, unfolded if_not_P [OF nobox]]
  from plain [THEN conjunct1]
  have o: "ops' = [TempAllocMem (ArrayTemp 0) (Val 1), ArrayCopy (ArrayTemp 0) (Val 1)]"
    by simp
  from plain [THEN conjunct2, THEN conjunct2, THEN conjunct1]
  have r: "restrictCopyAndFreeAtRuntime pair' = None"
    by simp
  note ev = plain [THEN conjunct2, THEN conjunct2, THEN conjunct2, THEN conjunct1]
  note out = plain [THEN conjunct2, THEN conjunct2, THEN conjunct2, THEN conjunct2]
  have "events (runCall ?no (genCopyOut ?opts pair') (runCall ?no ops' initialCallState))
         = ops' @ [ArrayCopy (Val 1) (ArrayTemp 0), FreeMem (ArrayTemp 0)]"
    using out unfolding ev by simp
  then have e: "events (runCall ?no (genCopyOut ?opts pair')
                  (runCall ?no [TempAllocMem (ArrayTemp 0) (Val 1),
                                ArrayCopy (ArrayTemp 0) (Val 1)] initialCallState))
         = [TempAllocMem (ArrayTemp 0) (Val 1), ArrayCopy (ArrayTemp 0) (Val 1),
            ArrayCopy (Val 1) (ArrayTemp 0), FreeMem (ArrayTemp 0)]"
    unfolding o by simp
  from gen' [unfolded o] r e have second: "\<exists>ops t copyOutPair.
     genCopyIn ?opts ?plain ?arg None False 0 = (ops, t, copyOutPair)
     \<and> ops = [TempAllocMem (ArrayTemp 0) (Val 1), ArrayCopy (ArrayTemp 0) (Val 1)]
     \<and> restrictCopyAndFreeAtRuntime copyOutPair = None
     \<and> events (runCall ?no (genCopyOut ?opts copyOutPair) (runCall ?no ops initialCallState))
         = [TempAllocMem (ArrayTemp 0) (Val 1), ArrayCopy (ArrayTemp 0) (Val 1),
            ArrayCopy (Val 1) (ArrayTemp 0), FreeMem (ArrayTemp 0)]"
    by blast
  from first second show ?thesis by (rule conjI)
qed

text \<open>
  C7 (as stated). A descriptor that is not contiguous at run time, passed to a dummy
  argument that the call does not read (and that needs no finalization and is not
  allocatable): the temporary is allocated and passed, and nothing is copied into it.
\<close>

theorem genCopyIn_temporary_not_filled:
  "\<exists>ops t copyOutPair.
     genCopyIn \<lparr> inlineCopyInOutForBoxes = False, elementIsRecordType = False \<rparr>
       \<lparr> exvBase = Val 1, exvIsBox = True, exvRank = 1, exvShape = None \<rparr>
       \<lparr> mayBeModifiedByCall = True, mayBeReadByCall = False,
         mayRequireIntentoutFinalization = False, hasAllocatableAttribute = False,
         isOptional = False, passBy = BaseAddress, argTyIsPolymorphic = False,
         entity = None \<rparr>
       None False 0 = (ops, t, copyOutPair)
     \<and> evalVal \<lparr> scalarOf = (\<lambda>v. 0), arrayOf = (\<lambda>a. (\<lambda>i. 0, \<lambda>i. i)) \<rparr>
          (IsContiguous (Val 1)) = 0
     \<and> events (runCall \<lparr> scalarOf = (\<lambda>v. 0), arrayOf = (\<lambda>a. (\<lambda>i. 0, \<lambda>i. i)) \<rparr> ops
                initialCallState)
         = [IsContiguousCall (Val 1), TempAllocMem (ArrayTemp 0) (Val 1), ReadBoxValue (Val 1)]
     \<and> results (runCall \<lparr> scalarOf = (\<lambda>v. 0), arrayOf = (\<lambda>a. (\<lambda>i. 0, \<lambda>i. i)) \<rparr> ops
                 initialCallState) 0 = Some (ArrayTemp 0)"
  by (simp add: genCopyIn_def doCopyIn_def readIfBoxValue_def substBase_def
      combinedCondition_def Let_def runCall_def initialCallState_def resolve_def)

lemma genCopyIn_guarded:
  "genCopyIn opts actualArg arg (Some guard) byValue k =
     ((if exvIsBox actualArg then [IsContiguousCall (exvBase actualArg)] else [])
      @ [GenIfOp (k + 1) guard
           (if exvIsBox actualArg
            then [GenIfOp k (IsContiguous (exvBase actualArg))
                    [Result (BoxAddrOp (exvBase actualArg))]
                    (case doCopyIn opts actualArg arg k of
                       (ops, t) \<Rightarrow> ops @ [Result (exvBase t)]),
                  Result (IfResult k)]
            else (case doCopyIn opts actualArg arg k of
                    (ops, t) \<Rightarrow> ops @ [Result (exvBase t)]))
           [Result NullConstant]]
      @ (if exvIsBox actualArg then [ReadBoxValue (exvBase actualArg)] else []),
      actualArg\<lparr>exvBase := IfResult (k + 1), exvIsBox := False\<rparr>,
      \<lparr> pairVar = actualArg,
        pairTemp = actualArg\<lparr>exvBase := IfResult (k + 1), exvIsBox := False\<rparr>,
        argMayBeModifiedByCall = (\<not> byValue \<and> mayBeModifiedByCall arg),
        restrictCopyAndFreeAtRuntime =
          (if exvIsBox actualArg
           then Some (AndI guard (CmpI eq (IsContiguous (exvBase actualArg)) (ConstI 0)))
           else Some guard) \<rparr>)"
  by (cases "exvIsBox actualArg")
     (simp_all add: genCopyIn_def Let_def readIfBoxValue_def substBase_def
        combinedCondition_def)

text \<open>
  C8 (as the code has it). With a presence condition \<open>guard\<close>, the creation of the
  temporary, the box address and the copy are in the then-region of a \<^verbatim>\<open>fir.if\<close> on the
  guard, whose else-region yields the null address. For a descriptor the contiguity test is
  emitted before that \<^verbatim>\<open>fir.if\<close> and the read of the descriptor after it, both outside the
  guard. The condition of the copy-out is the guard, or for a descriptor the conjunction of
  the guard and of the argument not being contiguous. When the guard is false at run time,
  no temporary is created, nothing is copied, the address passed is null, and the copy-out
  neither copies back nor frees anything.
\<close>

theorem genCopyIn_presence_guard:
  assumes "genCopyIn opts actualArg arg (Some guard) byValue k = (ops, t, copyOutPair)"
    and "s = runCall \<rho> ops initialCallState"
  shows "ops = (if exvIsBox actualArg then [IsContiguousCall (exvBase actualArg)] else [])
             @ [GenIfOp (k + 1) guard
                  (if exvIsBox actualArg
                   then [GenIfOp k (IsContiguous (exvBase actualArg))
                           [Result (BoxAddrOp (exvBase actualArg))]
                           (fst (doCopyIn opts actualArg arg k) @ [Result (ArrayTemp k)]),
                         Result (IfResult k)]
                   else fst (doCopyIn opts actualArg arg k) @ [Result (ArrayTemp k)])
                  [Result NullConstant]]
             @ (if exvIsBox actualArg then [ReadBoxValue (exvBase actualArg)] else [])
       \<and> exvBase t = IfResult (k + 1)
       \<and> restrictCopyAndFreeAtRuntime copyOutPair =
           (if exvIsBox actualArg
            then Some (AndI guard (CmpI eq (IsContiguous (exvBase actualArg)) (ConstI 0)))
            else Some guard)
       \<and> (if evalVal \<rho> guard = 0
          then events s = (if exvIsBox actualArg
                           then [IsContiguousCall (exvBase actualArg),
                                 ReadBoxValue (exvBase actualArg)]
                           else [])
               \<and> results s (k + 1) = Some NullConstant
               \<and> runCall \<rho> (genCopyOut opts copyOutPair) s = s
          else events s =
                 (if exvIsBox actualArg then [IsContiguousCall (exvBase actualArg)] else [])
                 @ (if exvIsBox actualArg \<and> evalVal \<rho> (IsContiguous (exvBase actualArg)) \<noteq> 0
                    then [] else fst (doCopyIn opts actualArg arg k))
                 @ (if exvIsBox actualArg then [ReadBoxValue (exvBase actualArg)] else [])
               \<and> results s (k + 1) =
                   Some (if exvIsBox actualArg
                            \<and> evalVal \<rho> (IsContiguous (exvBase actualArg)) \<noteq> 0
                         then BoxAddrOp (exvBase actualArg) else ArrayTemp k))"
proof -
  let ?box = "exvBase actualArg"
  obtain cops ct where d: "doCopyIn opts actualArg arg k = (cops, ct)"
    by (cases "doCopyIn opts actualArg arg k")
  have ct: "exvBase ct = ArrayTemp k" using doCopyIn_temp [of opts actualArg arg k] d by simp
  have region: "(case doCopyIn opts actualArg arg k of (ops, t) \<Rightarrow> ops @ [Result (exvBase t)])
                  = fst (doCopyIn opts actualArg arg k) @ [Result (ArrayTemp k)]"
    by (simp add: d ct)
  note gen = genCopyIn_guarded [of opts actualArg arg guard byValue k, unfolded region]
  from assms(1) gen have
    ops: "ops = (if exvIsBox actualArg then [IsContiguousCall ?box] else [])
             @ [GenIfOp (k + 1) guard
                  (if exvIsBox actualArg
                   then [GenIfOp k (IsContiguous ?box) [Result (BoxAddrOp ?box)]
                           (fst (doCopyIn opts actualArg arg k) @ [Result (ArrayTemp k)]),
                         Result (IfResult k)]
                   else fst (doCopyIn opts actualArg arg k) @ [Result (ArrayTemp k)])
                  [Result NullConstant]]
             @ (if exvIsBox actualArg then [ReadBoxValue ?box] else [])"
    and t: "t = actualArg\<lparr>exvBase := IfResult (k + 1), exvIsBox := False\<rparr>"
    and pair: "copyOutPair = \<lparr> pairVar = actualArg,
                 pairTemp = actualArg\<lparr>exvBase := IfResult (k + 1), exvIsBox := False\<rparr>,
                 argMayBeModifiedByCall = (\<not> byValue \<and> mayBeModifiedByCall arg),
                 restrictCopyAndFreeAtRuntime =
                   (if exvIsBox actualArg
                    then Some (AndI guard (CmpI eq (IsContiguous ?box) (ConstI 0)))
                    else Some guard) \<rparr>"
    by auto
  have c2: "exvBase t = IfResult (k + 1)" by (simp add: t)
  have c3: "restrictCopyAndFreeAtRuntime copyOutPair =
           (if exvIsBox actualArg
            then Some (AndI guard (CmpI eq (IsContiguous ?box) (ConstI 0)))
            else Some guard)"
    by (simp add: pair)
  have sem: "if evalVal \<rho> guard = 0
          then events s = (if exvIsBox actualArg
                           then [IsContiguousCall ?box, ReadBoxValue ?box] else [])
               \<and> results s (k + 1) = Some NullConstant
               \<and> runCall \<rho> (genCopyOut opts copyOutPair) s = s
          else events s =
                 (if exvIsBox actualArg then [IsContiguousCall ?box] else [])
                 @ (if exvIsBox actualArg \<and> evalVal \<rho> (IsContiguous ?box) \<noteq> 0
                    then [] else fst (doCopyIn opts actualArg arg k))
                 @ (if exvIsBox actualArg then [ReadBoxValue ?box] else [])
               \<and> results s (k + 1) =
                   Some (if exvIsBox actualArg \<and> evalVal \<rho> (IsContiguous ?box) \<noteq> 0
                         then BoxAddrOp ?box else ArrayTemp k)"
  proof (cases "evalVal \<rho> guard = 0")
    case True
    have ev: "events s = (if exvIsBox actualArg
                           then [IsContiguousCall ?box, ReadBoxValue ?box] else [])"
      and res: "results s (k + 1) = Some NullConstant"
      using True
      by (simp_all add: assms(2) ops runCall_def initialCallState_def resolve_def)
    have out: "runCall \<rho> (genCopyOut opts copyOutPair) s = s"
      using True by (simp add: run_genCopyOut c3)
    from True ev res out show ?thesis by simp
  next
    case False
    show ?thesis
    proof (cases "exvIsBox actualArg")
      case nobox: False
      have "events s = fst (doCopyIn opts actualArg arg k)
            \<and> results s (k + 1) = Some (ArrayTemp k)"
        using False nobox
        by (simp add: assms(2) ops runCall_def initialCallState_def doCopyIn_leaves resolve_def)
      with False nobox show ?thesis by simp
    next
      case box: True
      show ?thesis
      proof (cases "evalVal \<rho> (IsContiguous ?box) \<noteq> 0")
        case True
        have "events s = [IsContiguousCall ?box, ReadBoxValue ?box]
              \<and> results s (k + 1) = Some (BoxAddrOp ?box)"
          using False box True
          by (simp add: assms(2) ops runCall_def initialCallState_def resolve_def)
        with False box True show ?thesis by simp
      next
        case nc: False
        have "events s = [IsContiguousCall ?box] @ fst (doCopyIn opts actualArg arg k)
                           @ [ReadBoxValue ?box]
              \<and> results s (k + 1) = Some (ArrayTemp k)"
          using False box nc
          by (simp add: assms(2) ops runCall_def initialCallState_def doCopyIn_leaves resolve_def)
        with False box nc show ?thesis by simp
      qed
    qed
  qed
  from ops c2 c3 sem show ?thesis by blast
qed

theorem genCopyIn_presence_guard_witness:
  "\<exists>ops t copyOutPair.
     genCopyIn \<lparr> inlineCopyInOutForBoxes = False, elementIsRecordType = False \<rparr>
       \<lparr> exvBase = Val 1, exvIsBox = False, exvRank = 1, exvShape = None \<rparr>
       \<lparr> mayBeModifiedByCall = True, mayBeReadByCall = True,
         mayRequireIntentoutFinalization = False, hasAllocatableAttribute = False,
         isOptional = True, passBy = BaseAddress, argTyIsPolymorphic = False,
         entity = None \<rparr>
       (Some (Val 2)) False 0 = (ops, t, copyOutPair)
     \<and> ops = [GenIfOp 1 (Val 2)
                 [TempAllocMem (ArrayTemp 0) (Val 1), ArrayCopy (ArrayTemp 0) (Val 1),
                  Result (ArrayTemp 0)]
                 [Result NullConstant]]
     \<and> restrictCopyAndFreeAtRuntime copyOutPair = Some (Val 2)
     \<and> events (runCall \<lparr> scalarOf = (\<lambda>v. 0), arrayOf = (\<lambda>a. (\<lambda>i. 0, \<lambda>i. i)) \<rparr> ops
                initialCallState) = []
     \<and> results (runCall \<lparr> scalarOf = (\<lambda>v. 0), arrayOf = (\<lambda>a. (\<lambda>i. 0, \<lambda>i. i)) \<rparr> ops
                 initialCallState) 1 = Some NullConstant
     \<and> events (runCall \<lparr> scalarOf = (\<lambda>v. 0), arrayOf = (\<lambda>a. (\<lambda>i. 0, \<lambda>i. i)) \<rparr>
                (genCopyOut \<lparr> inlineCopyInOutForBoxes = False, elementIsRecordType = False \<rparr>
                   copyOutPair)
                (runCall \<lparr> scalarOf = (\<lambda>v. 0), arrayOf = (\<lambda>a. (\<lambda>i. 0, \<lambda>i. i)) \<rparr> ops
                   initialCallState)) = []
     \<and> events (runCall \<lparr> scalarOf = (\<lambda>v. 1), arrayOf = (\<lambda>a. (\<lambda>i. 0, \<lambda>i. i)) \<rparr> ops
                initialCallState)
         = [TempAllocMem (ArrayTemp 0) (Val 1), ArrayCopy (ArrayTemp 0) (Val 1)]"
proof -
  let ?opts = "\<lparr> inlineCopyInOutForBoxes = False, elementIsRecordType = False \<rparr>"
  let ?actual = "\<lparr> exvBase = Val 1, exvIsBox = False, exvRank = 1, exvShape = None \<rparr>"
  let ?arg = "\<lparr> mayBeModifiedByCall = True, mayBeReadByCall = True,
         mayRequireIntentoutFinalization = False, hasAllocatableAttribute = False,
         isOptional = True, passBy = BaseAddress, argTyIsPolymorphic = False,
         entity = None \<rparr>"
  let ?absent = "\<lparr> scalarOf = (\<lambda>v. 0), arrayOf = (\<lambda>a. (\<lambda>i. 0, \<lambda>i. i)) \<rparr> :: env"
  let ?present = "\<lparr> scalarOf = (\<lambda>v. 1), arrayOf = (\<lambda>a. (\<lambda>i. 0, \<lambda>i. i)) \<rparr> :: env"
  obtain ops t copyOutPair where
    gen: "genCopyIn ?opts ?actual ?arg (Some (Val 2)) False 0 = (ops, t, copyOutPair)"
    by (cases "genCopyIn ?opts ?actual ?arg (Some (Val 2)) False 0") auto
  note absent = genCopyIn_presence_guard [OF gen refl, of ?absent]
  note present = genCopyIn_presence_guard [OF gen refl, of ?present]
  from absent [THEN conjunct1] have ops: "ops = [GenIfOp 1 (Val 2)
                 [TempAllocMem (ArrayTemp 0) (Val 1), ArrayCopy (ArrayTemp 0) (Val 1),
                  Result (ArrayTemp 0)]
                 [Result NullConstant]]"
    by (simp add: doCopyIn_ops)
  from absent [THEN conjunct2, THEN conjunct2, THEN conjunct1] have g: "restrictCopyAndFreeAtRuntime copyOutPair = Some (Val 2)"
    by simp
  from absent [THEN conjunct2, THEN conjunct2, THEN conjunct2] have a: "events (runCall ?absent ops initialCallState) = []
        \<and> results (runCall ?absent ops initialCallState) 1 = Some NullConstant
        \<and> runCall ?absent (genCopyOut ?opts copyOutPair) (runCall ?absent ops initialCallState)
            = runCall ?absent ops initialCallState"
    by simp
  then have out: "events (runCall ?absent (genCopyOut ?opts copyOutPair)
                            (runCall ?absent ops initialCallState)) = []"
    by simp
  from present [THEN conjunct2, THEN conjunct2, THEN conjunct2] have p: "events (runCall ?present ops initialCallState)
         = [TempAllocMem (ArrayTemp 0) (Val 1), ArrayCopy (ArrayTemp 0) (Val 1)]"
    by (simp add: doCopyIn_ops)
  from gen ops g a out p show ?thesis by blast
qed

text \<open>
  C8 (as stated). A descriptor with a presence condition that is false at run time: the
  contiguity test and the read of the descriptor are executed all the same, since they are
  outside the guard, and the condition of the copy-out is not the presence condition but
  its conjunction with the result of the contiguity test.
\<close>

theorem genCopyIn_absent_descriptor_is_tested:
  "\<exists>ops t copyOutPair.
     genCopyIn \<lparr> inlineCopyInOutForBoxes = False, elementIsRecordType = False \<rparr>
       \<lparr> exvBase = Val 1, exvIsBox = True, exvRank = 1, exvShape = None \<rparr>
       \<lparr> mayBeModifiedByCall = True, mayBeReadByCall = True,
         mayRequireIntentoutFinalization = False, hasAllocatableAttribute = False,
         isOptional = True, passBy = BaseAddress, argTyIsPolymorphic = False,
         entity = None \<rparr>
       (Some (Val 2)) False 0 = (ops, t, copyOutPair)
     \<and> evalVal \<lparr> scalarOf = (\<lambda>v. 0), arrayOf = (\<lambda>a. (\<lambda>i. 0, \<lambda>i. i)) \<rparr> (Val 2) = 0
     \<and> events (runCall \<lparr> scalarOf = (\<lambda>v. 0), arrayOf = (\<lambda>a. (\<lambda>i. 0, \<lambda>i. i)) \<rparr> ops
                initialCallState)
         = [IsContiguousCall (Val 1), ReadBoxValue (Val 1)]
     \<and> restrictCopyAndFreeAtRuntime copyOutPair
         = Some (AndI (Val 2) (CmpI eq (IsContiguous (Val 1)) (ConstI 0)))
     \<and> restrictCopyAndFreeAtRuntime copyOutPair \<noteq> Some (Val 2)"
  by (simp add: genCopyIn_def doCopyIn_def readIfBoxValue_def substBase_def
      combinedCondition_def Let_def runCall_def initialCallState_def resolve_def)
section \<open>Properties of the lowering of an array assignment\<close>

subsection \<open>Runs of code without loads and merges\<close>

lemma resultStatesOf_Nil: "resultStatesOf viewOf [] s = []"
  by (simp add: resultStatesOf_def)

lemma fold_resultStates:
  "fold (\<lambda>op (a, t). (a @ resultStates viewOf op t, exec viewOf op t)) ops (acc, s)
     = (acc @ resultStatesOf viewOf ops s, run viewOf ops s)"
proof (induction ops arbitrary: acc s)
  case Nil
  show ?case by (simp add: resultStatesOf_Nil run_def)
next
  case (Cons op ops)
  let ?f = "\<lambda>op (a, t). (a @ resultStates viewOf op t, exec viewOf op t)"
  have step: "fold ?f (op # ops) (acc', s) = fold ?f ops (acc' @ resultStates viewOf op s, exec viewOf op s)"
    for acc'
    by simp
  have "resultStatesOf viewOf (op # ops) s
          = fst (fold ?f ops ([] @ resultStates viewOf op s, exec viewOf op s))"
    unfolding resultStatesOf_def step ..
  also have "\<dots> = ([] @ resultStates viewOf op s) @ resultStatesOf viewOf ops (exec viewOf op s)"
    unfolding Cons.IH by (rule fst_conv)
  finally have r: "resultStatesOf viewOf (op # ops) s
          = resultStates viewOf op s @ resultStatesOf viewOf ops (exec viewOf op s)"
    by (simp only: append_Nil)
  have e: "run viewOf (op # ops) s = run viewOf ops (exec viewOf op s)"
    by (simp add: run_def)
  show ?case
    unfolding step Cons.IH r e by (simp only: append_assoc)
qed

lemma resultStatesOf_Cons:
  "resultStatesOf viewOf (op # ops) s
     = resultStates viewOf op s @ resultStatesOf viewOf ops (exec viewOf op s)"
proof -
  let ?f = "\<lambda>op (a, t). (a @ resultStates viewOf op t, exec viewOf op t)"
  have "resultStatesOf viewOf (op # ops) s
          = fst (fold ?f ops ([] @ resultStates viewOf op s, exec viewOf op s))"
    unfolding resultStatesOf_def by simp
  also have "\<dots> = ([] @ resultStates viewOf op s) @ resultStatesOf viewOf ops (exec viewOf op s)"
    unfolding fold_resultStates by (rule fst_conv)
  finally show ?thesis by (simp only: append_Nil)
qed

lemma run_Cons: "run viewOf (op # ops) s = run viewOf ops (exec viewOf op s)"
  by (simp add: run_def)

lemma run_Nil: "run viewOf [] s = s"
  by (simp add: run_def)

lemma run_append: "run viewOf (a @ b) s = run viewOf b (run viewOf a s)"
  by (simp add: run_def)

lemma resultStatesOf_append:
  "resultStatesOf viewOf (a @ b) s
     = resultStatesOf viewOf a s @ resultStatesOf viewOf b (run viewOf a s)"
  by (induction a arbitrary: s) (simp_all add: resultStatesOf_Nil resultStatesOf_Cons run_Nil run_Cons)

lemma sameLoads_refl: "sameLoads s s"
  by (simp add: sameLoads_def)

lemma sameLoads_trans: "sameLoads s t \<Longrightarrow> sameLoads t u \<Longrightarrow> sameLoads s u"
  by (simp add: sameLoads_def)

lemma sameLoads_bindScalar: "sameLoads s (bindScalar v i s)"
  by (simp add: sameLoads_def bindScalar_def)

lemma sameLoads_yielded: "sameLoads s (s\<lparr>yielded := y\<rparr>)"
  by (simp add: sameLoads_def)

lemma sameLoads_bindYielded:
  "(\<And>j. v \<noteq> ArrayLoadResult j) \<Longrightarrow> sameLoads s (bindYielded v s)"
  by (auto simp: sameLoads_def bindYielded_def bindArray_def split: option.splits)

lemma sameLoads_list:
  assumes "\<And>op s. op \<in> set ops \<Longrightarrow>
             sameLoads s (exec viewOf op s)
             \<and> (\<forall>(v, t)\<in>set (resultStates viewOf op s). sameLoads s t)"
  shows "sameLoads s (run viewOf ops s)
         \<and> (\<forall>(v, t)\<in>set (resultStatesOf viewOf ops s). sameLoads s t)"
  using assms
proof (induction ops arbitrary: s)
  case Nil
  show ?case by (simp add: run_Nil resultStatesOf_Nil sameLoads_refl)
next
  case (Cons op ops)
  have hd: "sameLoads s (exec viewOf op s)"
    and hdt: "\<forall>(v, t)\<in>set (resultStates viewOf op s). sameLoads s t"
    using Cons.prems [of op s] by simp_all
  have rest: "sameLoads s' (exec viewOf op' s')
             \<and> (\<forall>(v, t)\<in>set (resultStates viewOf op' s'). sameLoads s' t)"
    if "op' \<in> set ops" for op' s'
    using that Cons.prems [of op' s'] by simp
  note ih = Cons.IH [of "exec viewOf op s", OF rest]
  have tl: "sameLoads (exec viewOf op s) (run viewOf ops (exec viewOf op s))"
    using ih by (rule conjunct1)
  have tlt: "\<forall>(v, t)\<in>set (resultStatesOf viewOf ops (exec viewOf op s)).
                 sameLoads (exec viewOf op s) t"
    using ih by (rule conjunct2)
  have "sameLoads s (run viewOf (op # ops) s)"
    unfolding run_Cons using hd tl by (rule sameLoads_trans)
  moreover have "\<forall>(v, t)\<in>set (resultStatesOf viewOf (op # ops) s). sameLoads s t"
    unfolding resultStatesOf_Cons using hdt tlt sameLoads_trans [OF hd] by auto
  ultimately show ?case by simp
qed

lemma sameLoads_iterations:
  assumes "\<And>s. sameLoads s (run viewOf body s)
                \<and> (\<forall>(v, t)\<in>set (resultStatesOf viewOf body s). sameLoads s t)"
    and "sameLoads s s0"
    and "\<forall>(v, t)\<in>set acc. sameLoads s t"
  shows "sameLoads s (snd (fold (\<lambda>j (acc, sj).
                 (let sj0 = bindYielded (RegionIterArg k)
                              (bindScalar (InductionVar k) (lbv + of_nat j * stepv) sj)
                  in (acc @ resultStatesOf viewOf body sj0, run viewOf body sj0)))
               js (acc, s0)))
       \<and> (\<forall>(v, t)\<in>set (fst (fold (\<lambda>j (acc, sj).
                 (let sj0 = bindYielded (RegionIterArg k)
                              (bindScalar (InductionVar k) (lbv + of_nat j * stepv) sj)
                  in (acc @ resultStatesOf viewOf body sj0, run viewOf body sj0)))
               js (acc, s0))). sameLoads s t)"
  using assms(2,3)
proof (induction js arbitrary: acc s0)
  case Nil
  then show ?case by simp
next
  case (Cons j js)
  let ?sj0 = "bindYielded (RegionIterArg k)
                (bindScalar (InductionVar k) (lbv + of_nat j * stepv) s0)"
  have a: "sameLoads s0 ?sj0"
    by (rule sameLoads_trans [OF sameLoads_bindScalar sameLoads_bindYielded]) simp
  then have b: "sameLoads s ?sj0" using Cons.prems(1) sameLoads_trans by blast
  have c: "sameLoads s (run viewOf body ?sj0)"
    using b assms(1) [of ?sj0] sameLoads_trans by blast
  have d: "\<forall>(v, t)\<in>set (acc @ resultStatesOf viewOf body ?sj0). sameLoads s t"
    using Cons.prems(2) assms(1) [of ?sj0] sameLoads_trans [OF b] by auto
  from Cons.IH [OF c d] show ?case by (simp add: Let_def)
qed

lemma resultStates_DoLoopOp:
  "resultStates viewOf (DoLoopOp k lb ub step unordered innerArg body) s =
     (let lbv = evalVal (rt_env s) lb;
          stepv = evalVal (rt_env s) step;
          n = tripCount lbv (evalVal (rt_env s) ub) stepv;
          s0 = (case innerArg of
                  None \<Rightarrow> s\<lparr>yielded := None\<rparr>
                | Some a \<Rightarrow> s\<lparr>yielded := Some (evalArr (rt_env s) a)\<rparr>)
      in fst (fold (\<lambda>j (acc, sj).
                 (let sj0 = bindYielded (RegionIterArg k)
                              (bindScalar (InductionVar k) (lbv + of_nat j * stepv) sj)
                  in (acc @ resultStatesOf viewOf body sj0, run viewOf body sj0)))
               [0..<n] ([], s0)))"
  by (simp add: Let_def fold_resultStates run_def)

lemma exec_DoLoopOp:
  "exec viewOf (DoLoopOp k lb ub step unordered innerArg body) s =
     (let lbv = evalVal (rt_env s) lb;
          stepv = evalVal (rt_env s) step;
          n = tripCount lbv (evalVal (rt_env s) ub) stepv;
          s0 = (case innerArg of
                  None \<Rightarrow> s\<lparr>yielded := None\<rparr>
                | Some a \<Rightarrow> s\<lparr>yielded := Some (evalArr (rt_env s) a)\<rparr>)
      in bindYielded (DoLoopResult k)
           (snd (fold (\<lambda>j (acc, sj).
                 (let sj0 = bindYielded (RegionIterArg k)
                              (bindScalar (InductionVar k) (lbv + of_nat j * stepv) sj)
                  in (acc @ resultStatesOf viewOf body sj0, run viewOf body sj0)))
               [0..<n] ([], s0))))"
proof -
  have "snd (fold (\<lambda>j (acc, sj).
                 (let sj0 = bindYielded (RegionIterArg k)
                              (bindScalar (InductionVar k) (lbv + of_nat j * stepv) sj)
                  in (acc @ resultStatesOf viewOf body sj0, run viewOf body sj0)))
               js (acc, s0))
        = fold (\<lambda>j sj. fold (exec viewOf) body
                   (bindYielded (RegionIterArg k)
                      (bindScalar (InductionVar k) (lbv + of_nat j * stepv) sj)))
               js s0" for js acc s0 lbv stepv
    by (induction js arbitrary: acc s0) (simp_all add: Let_def run_def)
  then show ?thesis by (simp add: Let_def)
qed

lemma memoryOpsOf_Nil_list:
  "concat (map memoryOpsOf ops) = [] \<longleftrightarrow> (\<forall>op\<in>set ops. memoryOpsOf op = [])"
  by (induction ops) auto

lemma sameLoads_exec:
  "memoryOpsOf op = [] \<Longrightarrow>
     sameLoads s (exec viewOf op s)
     \<and> (\<forall>(v, t)\<in>set (resultStates viewOf op s). sameLoads s t)"
proof (induction op arbitrary: s)
  case (ArrayLoadOp ld)
  then show ?case by simp
next
  case (DoLoopOp k lb ub step unordered innerArg body)
  from DoLoopOp.prems have free: "\<forall>op\<in>set body. memoryOpsOf op = []"
    by (simp add: memoryOpsOf_Nil_list)
  have body: "sameLoads u (run viewOf body u)
              \<and> (\<forall>(v, t)\<in>set (resultStatesOf viewOf body u). sameLoads u t)" for u
    by (rule sameLoads_list) (use DoLoopOp.IH free in blast)
  let ?s0 = "case innerArg of
               None \<Rightarrow> s\<lparr>yielded := None\<rparr>
             | Some a \<Rightarrow> s\<lparr>yielded := Some (evalArr (rt_env s) a)\<rparr>"
  have s0: "sameLoads s ?s0"
    by (cases innerArg) (simp_all add: sameLoads_yielded)
  have nil: "\<forall>(v, t)\<in>set ([] :: (val \<times> rt_state) list). sameLoads s t" by simp
  define F where "F = fold (\<lambda>j (acc, sj).
                 (let sj0 = bindYielded (RegionIterArg k)
                              (bindScalar (InductionVar k)
                                 (evalVal (rt_env s) lb + of_nat j * evalVal (rt_env s) step) sj)
                  in (acc @ resultStatesOf viewOf body sj0, run viewOf body sj0)))
               [0..<tripCount (evalVal (rt_env s) lb) (evalVal (rt_env s) ub)
                      (evalVal (rt_env s) step)] ([], ?s0)"
  have it: "sameLoads s (snd F) \<and> (\<forall>(v, t)\<in>set (fst F). sameLoads s t)"
    unfolding F_def by (rule sameLoads_iterations [OF body s0 nil])
  have res: "sameLoads s (bindYielded (DoLoopResult k) (snd F))"
    by (rule sameLoads_trans [OF it [THEN conjunct1] sameLoads_bindYielded]) simp
  have ex: "exec viewOf (DoLoopOp k lb ub step unordered innerArg body) s
              = bindYielded (DoLoopResult k) (snd F)"
    unfolding exec_DoLoopOp F_def Let_def ..
  have rs: "resultStates viewOf (DoLoopOp k lb ub step unordered innerArg body) s = fst F"
    unfolding resultStates_DoLoopOp F_def Let_def ..
  show ?case
    unfolding ex rs using res it [THEN conjunct2] by (rule conjI)
next
  case (IfOp n c thenOps elseOps)
  from IfOp.prems have free1: "\<forall>op\<in>set thenOps. memoryOpsOf op = []"
    and free2: "\<forall>op\<in>set elseOps. memoryOpsOf op = []"
    by (simp_all add: memoryOpsOf_Nil_list)
  have t: "sameLoads u (run viewOf thenOps u)
              \<and> (\<forall>(v, t)\<in>set (resultStatesOf viewOf thenOps u). sameLoads u t)" for u
    by (rule sameLoads_list) (use IfOp.IH(1) free1 in blast)
  have e: "sameLoads u (run viewOf elseOps u)
              \<and> (\<forall>(v, t)\<in>set (resultStatesOf viewOf elseOps u). sameLoads u t)" for u
    by (rule sameLoads_list) (use IfOp.IH(2) free2 in blast)
  have res: "sameLoads s (bindYielded (IfResult n) u)" if "sameLoads s u" for u
    by (rule sameLoads_trans [OF that sameLoads_bindYielded]) simp
  have ex: "exec viewOf (IfOp n c thenOps elseOps) s =
              bindYielded (IfResult n)
                (if evalVal (rt_env s) c \<noteq> 0 then run viewOf thenOps s
                 else run viewOf elseOps s)"
    by (simp add: run_def)
  have rs: "resultStates viewOf (IfOp n c thenOps elseOps) s =
              (if evalVal (rt_env s) c \<noteq> 0 then resultStatesOf viewOf thenOps s
               else resultStatesOf viewOf elseOps s)"
    by (simp add: resultStatesOf_def)
  show ?case
  proof (cases "evalVal (rt_env s) c \<noteq> 0")
    case True
    have "sameLoads s (bindYielded (IfResult n) (run viewOf thenOps s))"
      using t [of s, THEN conjunct1] by (rule res)
    with True t [of s, THEN conjunct2] show ?thesis
      unfolding ex rs by simp
  next
    case False
    have "sameLoads s (bindYielded (IfResult n) (run viewOf elseOps s))"
      using e [of s, THEN conjunct1] by (rule res)
    with False e [of s, THEN conjunct2] show ?thesis
      unfolding ex rs by simp
  qed
next
  case (ResultOp v)
  show ?case by (simp add: sameLoads_def)
next
  case (ArrayMergeStoreOp ld v)
  then show ?case by simp
next
  case (AllocMemOp temp extents)
  show ?case by (simp add: sameLoads_refl)
qed

lemma sameLoads_run:
  assumes "concat (map memoryOpsOf ops) = []"
  shows "sameLoads s (run viewOf ops s)
         \<and> (\<forall>(v, t)\<in>set (resultStatesOf viewOf ops s). sameLoads s t)"
proof (rule sameLoads_list)
  fix op u
  assume "op \<in> set ops"
  with assms have "memoryOpsOf op = []" by (simp add: memoryOpsOf_Nil_list)
  then show "sameLoads u (exec viewOf op u)
             \<and> (\<forall>(v, t)\<in>set (resultStates viewOf op u). sameLoads u t)"
    by (rule sameLoads_exec)
qed

subsection \<open>The loads at the head of a statement\<close>

lemma run_loads_mem: "mem (run viewOf (map ArrayLoadOp lds) s) = mem s"
  by (induction lds arbitrary: s) (simp_all add: run_Nil run_Cons bindArray_def)

lemma run_loads_other:
  "v \<notin> ldResult ` set lds \<Longrightarrow>
     arrayOf (rt_env (run viewOf (map ArrayLoadOp lds) s)) v = arrayOf (rt_env s) v"
  by (induction lds arbitrary: s) (simp_all add: run_Nil run_Cons bindArray_def)

lemma run_loads_snapshot:
  "distinct (map ldResult lds) \<Longrightarrow> ld \<in> set lds \<Longrightarrow>
     arrayOf (rt_env (run viewOf (map ArrayLoadOp lds) s)) (ldResult ld)
       = (mem s (ldMemref ld), viewOf ld)"
proof (induction lds arbitrary: s)
  case Nil
  then show ?case by simp
next
  case (Cons l lds)
  let ?s1 = "exec viewOf (ArrayLoadOp l) s"
  have m: "mem ?s1 = mem s" by (simp add: bindArray_def)
  show ?case
  proof (cases "ld \<in> set lds")
    case True
    with Cons have "arrayOf (rt_env (run viewOf (map ArrayLoadOp lds) ?s1)) (ldResult ld)
                      = (mem ?s1 (ldMemref ld), viewOf ld)"
      by simp
    then show ?thesis by (simp add: run_Cons bindArray_def)
  next
    case False
    with Cons.prems have eq: "ld = l" by simp
    from Cons.prems(1) have "ldResult l \<notin> ldResult ` set lds" by simp
    then have "arrayOf (rt_env (run viewOf (map ArrayLoadOp lds) ?s1)) (ldResult l)
                 = arrayOf (rt_env ?s1) (ldResult l)"
      by (rule run_loads_other)
    then show ?thesis by (simp add: run_Cons eq bindArray_def)
  qed
qed

subsection \<open>What the lowering emits\<close>

lemma memoryOpsOf_loopNest:
  "concat (map memoryOpsOf (loopNest k uppers unordered innerArg body))
     = concat (map memoryOpsOf body)"
  by (induction k uppers unordered innerArg body rule: loopNest.induct)
     (simp_all split: option.splits)

lemma memoryOpsOf_genFalseBlocks:
  "genFalseBlocks sp iters innerArg es n = Inr (ctx, n') \<Longrightarrow>
     concat (map memoryOpsOf (ctx hole)) = concat (map memoryOpsOf hole)"
proof (induction sp iters innerArg es n arbitrary: ctx n' hole rule: genFalseBlocks.induct)
  case (1 sp iters innerArg n)
  then show ?case by auto
next
  case (2 sp iters innerArg es n)
  then show ?case by simp
next
  case (3 sp iters innerArg e es n)
  from "3.prems" obtain cond ctx0 where
    c: "genCond sp e iters = Inr cond"
    and r: "genFalseBlocks sp iters innerArg es (Suc n) = Inr (ctx0, n')"
    and ctx: "ctx = (\<lambda>hole. genFalseBlock n innerArg cond (ctx0 hole))"
    by (auto split: sum.splits)
  from "3.IH" [OF c r] have "concat (map memoryOpsOf (ctx0 hole)) = concat (map memoryOpsOf hole)" .
  then show ?case by (simp add: ctx genFalseBlock_def)
qed

lemma memoryOpsOf_genMaskClause:
  assumes "genMaskClause sp iters innerArg maskExprs n = Inr (ctx, n')"
  shows "concat (map memoryOpsOf (ctx hole)) = concat (map memoryOpsOf hole)"
proof -
  from assms obtain ctx0 n1 where
    f: "genFalseBlocks sp iters innerArg (butlast maskExprs) n = Inr (ctx0, n1)"
    by (auto simp: genMaskClause_def split: if_splits sum.splits)
  note inner = memoryOpsOf_genFalseBlocks [OF f]
  show ?thesis
  proof (cases "last maskExprs")
    case None
    with assms f have "ctx = ctx0"
      by (auto simp: genMaskClause_def split: if_splits)
    then show ?thesis by (simp add: inner)
  next
    case (Some e)
    with assms f obtain cond where "ctx = (\<lambda>hole. ctx0 (genTrueBlock n1 innerArg cond hole))"
      by (auto simp: genMaskClause_def split: if_splits sum.splits)
    then show ?thesis by (simp add: inner genTrueBlock_def)
  qed
qed

lemma memoryOpsOf_genMaskConditions:
  "genMaskConditions sp iters innerArg maskLists n = Inr (ctx, n') \<Longrightarrow>
     concat (map memoryOpsOf (ctx hole)) = concat (map memoryOpsOf hole)"
proof (induction sp iters innerArg maskLists n arbitrary: ctx n' hole rule: genMaskConditions.induct)
  case (1 sp iters innerArg n)
  then show ?case by auto
next
  case (2 sp iters innerArg maskExprs rest n)
  from "2.prems" obtain ctx1 n1 ctx2 where
    c: "genMaskClause sp iters innerArg maskExprs n = Inr (ctx1, n1)"
    and r: "genMaskConditions sp iters innerArg rest n1 = Inr (ctx2, n')"
    and ctx: "ctx = (\<lambda>hole. ctx1 (ctx2 hole))"
    by (auto split: sum.splits)
  have "concat (map memoryOpsOf (ctx2 hole)) = concat (map memoryOpsOf hole)"
    using "2.IH" [OF c _ r] by simp
  then show ?case by (simp add: ctx memoryOpsOf_genMaskClause [OF c])
qed
lemma emitsLoads_refl: "emitsLoads st st []"
  by (simp add: emitsLoads_def)

lemma emitsLoads_trans:
  assumes "emitsLoads st st1 a" and "emitsLoads st1 st2 b"
  shows "emitsLoads st st2 (a @ b)"
proof -
  from assms have le: "nextId st \<le> nextId st1" "nextId st1 \<le> nextId st2"
    by (simp_all add: emitsLoads_def)
  then have "[nextId st..<nextId st2] = [nextId st..<nextId st1] @ [nextId st1..<nextId st2]"
    by (metis le_Suc_ex upt_add_eq_append)
  with assms show ?thesis by (simp add: emitsLoads_def)
qed

lemma genarrExtValue_emits:
  assumes "genarrExtValue exv comps ptr st = Inr (f, st')"
  shows "\<exists>lds. emitsLoads st st' lds
           \<and> (semant st = ProjectedCopyInCopyOut \<longrightarrow>
                lds \<noteq> [] \<and> destination st' = Some (last lds)
                \<and> length lds = (case ptr of None \<Rightarrow> 1 | Some p \<Rightarrow> 2)
                \<and> ldMemref (last lds)
                    = (case ptr of None \<Rightarrow> exvBase exv | Some p \<Rightarrow> LoadOp (CrayPointerAddr p)))
           \<and> (semant st \<noteq> ProjectedCopyInCopyOut \<and> semant st \<noteq> CustomCopyInCopyOut \<longrightarrow>
                destination st' = destination st)"
proof (cases "semant st = BoxValue \<or> semant st = RefOpaque")
  case True
  with assms have "emitsLoads st st' []" and "destination st' = destination st"
    by (auto simp: genarrExtValue_def Let_def emitsLoads_def split: if_splits)
  with True show ?thesis by auto
next
  case False
  let ?sliceOp = "if trips comps \<noteq> [] then Some (trips comps) else None"
  let ?load0 = "\<lparr> ldResult = ArrayLoadResult (nextId st), ldMemref = exvBase exv,
                  ldMemrefIsBox = exvIsBox exv, ldMemrefRank = exvRank exv,
                  ldShape = exvShape exv, ldSlice = ?sliceOp \<rparr>"
  show ?thesis
  proof (cases ptr)
    case None
    with assms False have "emitsLoads st st' [?load0]"
      by (auto simp: genarrExtValue_def Let_def emitsLoads_def split: if_splits)
    moreover from assms False None have
      "semant st = ProjectedCopyInCopyOut \<longrightarrow> destination st' = Some ?load0"
      by (auto simp: genarrExtValue_def Let_def split: if_splits)
    moreover from assms False None have
      "semant st \<noteq> ProjectedCopyInCopyOut \<and> semant st \<noteq> CustomCopyInCopyOut \<longrightarrow>
         destination st' = destination st"
      by (auto simp: genarrExtValue_def Let_def split: if_splits)
    ultimately show ?thesis using None by (intro exI [of _ "[?load0]"]) simp
  next
    case (Some p)
    let ?load1 = "?load0\<lparr> ldResult := ArrayLoadResult (nextId st + 1),
                           ldMemref := LoadOp (CrayPointerAddr p) \<rparr>"
    from assms False Some have "emitsLoads st st' [?load0, ?load1]"
      by (auto simp: genarrExtValue_def Let_def emitsLoads_def upt_rec split: if_splits)
    moreover from assms False Some have
      "semant st = ProjectedCopyInCopyOut \<longrightarrow> destination st' = Some ?load1"
      by (auto simp: genarrExtValue_def Let_def split: if_splits)
    moreover from assms False Some have
      "semant st \<noteq> ProjectedCopyInCopyOut \<and> semant st \<noteq> CustomCopyInCopyOut \<longrightarrow>
         destination st' = destination st"
      by (auto simp: genarrExtValue_def Let_def split: if_splits)
    ultimately show ?thesis using Some by (intro exI [of _ "[?load0, ?load1]"]) simp
  qed
qed

end
